theory Spec2Isabelle
  imports Complex_Main "HOL-Library.AList" "HOL-Library.Char_ord" "HOL-Library.List_Lexorder"
    "HOL-Library.Multiset"
begin

section \<open>Python values\<close>

text \<open>
  The pipeline passes plain Python dictionaries around (plans, steps, parameters, results).
  A dictionary is an association list in insertion order with distinct keys; its values are
  the JSON-like values below. Floats (timestamps, temperatures) are real numbers.
\<close>

datatype pyval =
    PNone
  | PBool bool
  | PInt int
  | PFloat real
  | PStr string
  | PList "pyval list"
  | PDict "(string \<times> pyval) list"

type_synonym dict = "(string \<times> pyval) list"

text \<open>
  The exceptions that the modelled code can raise. \<open>KeyError\<close> carries the missing key;
  \<open>RequestException\<close> is any failure raised by \<^verbatim>\<open>requests.get\<close> (connection error, timeout),
  \<open>JSONDecodeError\<close> the failure of \<^verbatim>\<open>response.json()\<close>.
\<close>

datatype exn =
    KeyError pyval
  | TypeError
  | AttributeError
  | IndexError
  | JSONDecodeError
  | RequestException

text \<open>Truth value of an object, as \<^verbatim>\<open>if x:\<close> and \<^verbatim>\<open>not x\<close> test it.\<close>

fun truthy :: "pyval \<Rightarrow> bool" where
  "truthy PNone = False"
| "truthy (PBool b) = b"
| "truthy (PInt i) = (i \<noteq> 0)"
| "truthy (PFloat x) = (x \<noteq> 0)"
| "truthy (PStr s) = (s \<noteq> [])"
| "truthy (PList xs) = (xs \<noteq> [])"
| "truthy (PDict d) = (d \<noteq> [])"

text \<open>\<^verbatim>\<open>d.get(k, default)\<close>, \<^verbatim>\<open>k in d\<close> and \<^verbatim>\<open>d[k] = v\<close> on a dictionary.\<close>

definition dict_get :: "dict \<Rightarrow> string \<Rightarrow> pyval \<Rightarrow> pyval" where
  "dict_get d k dflt = (case map_of d k of Some v \<Rightarrow> v | None \<Rightarrow> dflt)"

definition has_key :: "dict \<Rightarrow> string \<Rightarrow> bool" where
  "has_key d k = (map_of d k \<noteq> None)"

definition dict_set :: "dict \<Rightarrow> string \<Rightarrow> pyval \<Rightarrow> dict" where
  "dict_set d k v = AList.update k v d"

text \<open>\<^verbatim>\<open>len(x)\<close>: defined on strings, lists and dictionaries, a \<open>TypeError\<close> otherwise.\<close>

fun py_len :: "pyval \<Rightarrow> exn + nat" where
  "py_len (PStr s) = Inr (length s)"
| "py_len (PList xs) = Inr (length xs)"
| "py_len (PDict d) = Inr (length d)"
| "py_len _ = Inl TypeError"

text \<open>\<^verbatim>\<open>x.get(k, default)\<close> on an arbitrary object: only a dictionary has the method.\<close>

fun py_get :: "pyval \<Rightarrow> string \<Rightarrow> pyval \<Rightarrow> exn + pyval" where
  "py_get (PDict d) k dflt = Inr (dict_get d k dflt)"
| "py_get _ k dflt = Inl AttributeError"

text \<open>\<^verbatim>\<open>str(n)\<close> for an integer, as f-strings and \<^verbatim>\<open>json.dumps\<close> print it.\<close>

definition digit_char :: "nat \<Rightarrow> char" where
  "digit_char n = ''0123456789'' ! (n mod 10)"

fun str_nat :: "nat \<Rightarrow> string" where
  "str_nat n = (if n < 10 then [digit_char n] else str_nat (n div 10) @ [digit_char n])"

declare str_nat.simps [simp del]

definition str_int :: "int \<Rightarrow> string" where
  "str_int i = (if i < 0 then CHR ''-'' # str_nat (nat (- i)) else str_nat (nat i))"

text \<open>\<^verbatim>\<open>x[k]\<close> with a string key or an integer index; an index below zero counts from
  the end, and an index outside the list raises \<open>IndexError\<close>.\<close>

definition list_index :: "'a list \<Rightarrow> int \<Rightarrow> exn + 'a" where
  "list_index xs i =
    (if 0 \<le> i \<and> i < int (length xs) then Inr (xs ! nat i)
     else if i < 0 \<and> - i \<le> int (length xs) then Inr (xs ! nat (int (length xs) + i))
     else Inl IndexError)"

fun py_getitem :: "pyval \<Rightarrow> pyval \<Rightarrow> exn + pyval" where
  "py_getitem (PDict d) (PStr k) =
    (case map_of d k of Some v \<Rightarrow> Inr v | None \<Rightarrow> Inl (KeyError (PStr k)))"
| "py_getitem (PDict d) (PInt i) = Inl (KeyError (PInt i))"
| "py_getitem (PList xs) (PInt i) = list_index xs i"
| "py_getitem (PStr s) (PInt i) =
    (case list_index s i of Inl e \<Rightarrow> Inl e | Inr c \<Rightarrow> Inr (PStr [c]))"
| "py_getitem _ _ = Inl TypeError"

text \<open>\<^verbatim>\<open>xs[:n]\<close> on a list: a negative bound counts from the end.\<close>

definition slice_to :: "int \<Rightarrow> 'a list \<Rightarrow> 'a list" where
  "slice_to n xs = (if 0 \<le> n then take (nat n) xs else take (length xs - nat (- n)) xs)"

text \<open>\<^verbatim>\<open>x[:10]\<close>: strings and lists can be sliced.\<close>

fun py_slice10 :: "pyval \<Rightarrow> exn + pyval" where
  "py_slice10 (PStr s) = Inr (PStr (take 10 s))"
| "py_slice10 (PList xs) = Inr (PList (take 10 xs))"
| "py_slice10 _ = Inl TypeError"

text \<open>\<^verbatim>\<open>x or y\<close>.\<close>

definition py_or :: "pyval \<Rightarrow> pyval \<Rightarrow> pyval" where
  "py_or x y = (if truthy x then x else y)"

text \<open>Sequencing of computations that may raise.\<close>

definition exn_bind :: "exn + 'a \<Rightarrow> ('a \<Rightarrow> exn + 'b) \<Rightarrow> exn + 'b" where
  "exn_bind m f = (case m of Inl e \<Rightarrow> Inl e | Inr x \<Rightarrow> f x)"

section \<open>Strings\<close>

text \<open>
  Strings are lists of 8-bit characters; the text functions below are Python's on ASCII text
  (\<^verbatim>\<open>str.lower\<close>, \<^verbatim>\<open>str.title\<close>, \<^verbatim>\<open>str.strip\<close>, \<^verbatim>\<open>str.split\<close>, \<^verbatim>\<open>x in s\<close>).
\<close>

definition ascii_upper :: string where
  "ascii_upper = ''ABCDEFGHIJKLMNOPQRSTUVWXYZ''"

definition ascii_lower :: string where
  "ascii_lower = ''abcdefghijklmnopqrstuvwxyz''"

definition lower_char :: "char \<Rightarrow> char" where
  "lower_char c = (case map_of (zip ascii_upper ascii_lower) c of Some l \<Rightarrow> l | None \<Rightarrow> c)"

definition upper_char :: "char \<Rightarrow> char" where
  "upper_char c = (case map_of (zip ascii_lower ascii_upper) c of Some u \<Rightarrow> u | None \<Rightarrow> c)"

definition is_alpha :: "char \<Rightarrow> bool" where
  "is_alpha c = (c \<in> set ascii_upper \<or> c \<in> set ascii_lower)"

definition lower :: "string \<Rightarrow> string" where
  "lower s = map lower_char s"

text \<open>\<^verbatim>\<open>needle in haystack\<close> for two strings: the needle occurs as a contiguous part.\<close>

fun starts_with :: "string \<Rightarrow> string \<Rightarrow> bool" where
  "starts_with [] s = True"
| "starts_with (p # ps) [] = False"
| "starts_with (p # ps) (c # cs) = (p = c \<and> starts_with ps cs)"

fun contains :: "string \<Rightarrow> string \<Rightarrow> bool" where
  "contains needle [] = (needle = [])"
| "contains needle (c # cs) = (starts_with needle (c # cs) \<or> contains needle cs)"

text \<open>
  \<^verbatim>\<open>str.title\<close>: a letter is upper-cased when the character before it is not a letter, and
  lower-cased otherwise. The flag says whether the previous character was a letter.
\<close>

fun title_from :: "bool \<Rightarrow> string \<Rightarrow> string" where
  "title_from prev [] = []"
| "title_from prev (c # cs) =
    (if is_alpha c then (if prev then lower_char c else upper_char c) # title_from True cs
     else c # title_from False cs)"

definition title :: "string \<Rightarrow> string" where
  "title s = title_from False s"

definition is_space :: "char \<Rightarrow> bool" where
  "is_space c = (c \<in> set [CHR 0x20, CHR 0x09, CHR 0x0A, CHR 0x0B, CHR 0x0C, CHR 0x0D,
     CHR 0x1C, CHR 0x1D, CHR 0x1E, CHR 0x1F])"

definition strip :: "string \<Rightarrow> string" where
  "strip s = rev (dropWhile is_space (rev (dropWhile is_space s)))"

text \<open>\<^verbatim>\<open>s.split()\<close>: the maximal runs of characters that are not white space.\<close>

fun split_from :: "string \<Rightarrow> string \<Rightarrow> string list" where
  "split_from word [] = (if word = [] then [] else [word])"
| "split_from word (c # cs) =
    (if is_space c then (if word = [] then split_from [] cs else word # split_from [] cs)
     else split_from (word @ [c]) cs)"

definition split :: "string \<Rightarrow> string list" where
  "split s = split_from [] s"

section \<open>Text extraction (utils.py)\<close>

definition cities :: "string list" where
  "cities = [''tokyo'', ''london'', ''new york'', ''paris'', ''berlin'', ''mumbai'',
     ''delhi'', ''beijing'', ''shanghai'', ''dubai'', ''singapore'', ''sydney'',
     ''san francisco'', ''los angeles'', ''chicago'', ''toronto'', ''moscow'',
     ''rome'', ''madrid'', ''amsterdam'', ''vienna'', ''prague'', ''budapest'']"

text \<open>
  The four regular expressions of \<open>extract_city_from_text\<close>, as the source writes them
  (\<open>CHR 0x5C\<close> is the backslash).
\<close>

definition city_patterns :: "string list" where
  "city_patterns =
    [''in'' @ [CHR 0x5C] @ ''s+([A-Za-z'' @ [CHR 0x5C] @ ''s]+?)(?:'' @ [CHR 0x5C] @ ''s|$|,)'',
     ''at'' @ [CHR 0x5C] @ ''s+([A-Za-z'' @ [CHR 0x5C] @ ''s]+?)(?:'' @ [CHR 0x5C] @ ''s|$|,)'',
     ''for'' @ [CHR 0x5C] @ ''s+([A-Za-z'' @ [CHR 0x5C] @ ''s]+?)(?:'' @ [CHR 0x5C] @ ''s|$|,)'',
     ''weather'' @ [CHR 0x5C] @ ''s+in'' @ [CHR 0x5C] @ ''s+([A-Za-z'' @ [CHR 0x5C]
        @ ''s]+?)(?:'' @ [CHR 0x5C] @ ''s|$|,)'']"

text \<open>
  The loop over the patterns. \<open>re_search pattern text\<close> stands for Python's
  \<^verbatim>\<open>re.search(pattern, text)\<close>: \<open>None\<close> when nothing matches, otherwise group 1 of the first
  match. The regular-expression engine is the standard library's and is a parameter here.
\<close>

fun match_patterns :: "(string \<Rightarrow> string \<Rightarrow> string option) \<Rightarrow> string list \<Rightarrow> string
    \<Rightarrow> string option" where
  "match_patterns re_search [] text_lower = None"
| "match_patterns re_search (pattern # patterns) text_lower =
    (case re_search pattern text_lower of
       Some group1 \<Rightarrow>
         (let potential_city = title (strip group1)
          in if length (split potential_city) \<le> 3 then Some potential_city
             else match_patterns re_search patterns text_lower)
     | None \<Rightarrow> match_patterns re_search patterns text_lower)"

definition extract_city_from_text :: "(string \<Rightarrow> string \<Rightarrow> string option) \<Rightarrow> string \<Rightarrow> string"
  where
  "extract_city_from_text re_search text =
    (let text_lower = lower text
     in case find (\<lambda>city. contains city text_lower) cities of
          Some city \<Rightarrow> title city
        | None \<Rightarrow>
           (case match_patterns re_search city_patterns text_lower of
              Some potential_city \<Rightarrow> potential_city
            | None \<Rightarrow> ''London''))"

definition languages :: "string list" where
  "languages = [''python'', ''javascript'', ''java'', ''typescript'', ''go'', ''rust'', ''php'',
     ''swift'', ''c++'', ''c#'']"

definition topics :: "string list" where
  "topics = [''machine learning'', ''artificial intelligence'', ''ai'', ''ml'',
     ''deep learning'', ''web development'', ''data science'',
     ''blockchain'', ''iot'', ''cloud computing'', ''devops'']"

definition extract_query_from_text :: "string \<Rightarrow> string" where
  "extract_query_from_text text =
    (let text_lower = lower text
     in case find (\<lambda>lang. contains lang text_lower) languages of
          Some lang \<Rightarrow> lang
        | None \<Rightarrow>
           (case find (\<lambda>topic. contains topic text_lower) topics of
              Some topic \<Rightarrow> topic
            | None \<Rightarrow>
               if contains ''github'' text_lower \<or> contains ''repo'' text_lower
               then ''open source'' else ''ai''))"

section \<open>Plan generation (llm/client.py)\<close>

definition github_keywords :: "string list" where
  "github_keywords = [''github'', ''repo'', ''repository'', ''code'', ''project'', ''search'',
     ''find'']"

definition weather_keywords :: "string list" where
  "weather_keywords = [''weather'', ''temp'', ''temperature'', ''forecast'', ''climate'',
     ''humid'']"

text \<open>The step that the rule-based generator appends for each tool, and its default step.\<close>

definition github_step :: "int \<Rightarrow> string \<Rightarrow> pyval" where
  "github_step step_num query = PDict
    [(''step'', PInt step_num),
     (''description'', PStr (''Search GitHub for '' @ [CHR 0x27] @ query @ [CHR 0x27]
        @ '' repositories'')),
     (''tool'', PStr ''github_tool''),
     (''parameters'', PDict [(''query'', PStr query), (''per_page'', PInt 5)])]"

definition weather_step :: "int \<Rightarrow> string \<Rightarrow> pyval" where
  "weather_step step_num city = PDict
    [(''step'', PInt step_num),
     (''description'', PStr (''Get current weather in '' @ city)),
     (''tool'', PStr ''weather_tool''),
     (''parameters'', PDict [(''city'', PStr city)])]"

definition default_step :: pyval where
  "default_step = PDict
    [(''step'', PInt 1),
     (''description'', PStr ''Search GitHub for trending AI repositories''),
     (''tool'', PStr ''github_tool''),
     (''parameters'', PDict [(''query'', PStr ''artificial intelligence''),
        (''per_page'', PInt 5)])]"

text \<open>
  \<open>_generate_rule_based\<close>: the two keyword tests run in this order, each appending one step
  and advancing \<open>step_num\<close>; the default step is used when neither fired.
\<close>

definition generate_rule_based :: "(string \<Rightarrow> string \<Rightarrow> string option) \<Rightarrow> string \<Rightarrow> dict" where
  "generate_rule_based re_search user_input =
    (let user_lower = lower user_input;
         (plan1, reasoning1, step_num1) =
           (if list_ex (\<lambda>keyword. contains keyword user_lower) github_keywords
            then (let query = extract_query_from_text user_input
                  in ([github_step 1 query],
                      ''User wants to search for '' @ query @ '' repositories. '', 2))
            else ([], '''', 1));
         (plan2, reasoning2) =
           (if list_ex (\<lambda>keyword. contains keyword user_lower) weather_keywords
            then (let city = extract_city_from_text re_search user_input
                  in (plan1 @ [weather_step step_num1 city],
                      reasoning1 @ ''User wants weather information for '' @ city @ ''. ''))
            else (plan1, reasoning1))
     in if plan2 = []
        then [(''plan'', PList [default_step]),
              (''reasoning'',
                 PStr ''No specific task mentioned. Providing GitHub search as example.'')]
        else [(''plan'', PList plan2), (''reasoning'', PStr reasoning2)])"

text \<open>
  \<open>generate_plan\<close>. \<open>use_ollama\<close> is the outcome of \<open>_check_ollama\<close> (whether the \<open>ollama\<close>
  program is installed); \<open>Config.USE_FREE_LLM\<close> is \<open>True\<close>. \<open>ollama user_input\<close> stands for
  the model's reply: \<open>Some d\<close> when the subprocess succeeded and the text between the first
  \<open>{\<close> and the last \<open>}\<close> parsed as the JSON object \<open>d\<close>, and \<open>None\<close> in every other case, where
  \<open>_generate_with_ollama\<close> falls back to the rules.
\<close>

definition USE_FREE_LLM :: bool where
  "USE_FREE_LLM = True"

definition generate_with_ollama ::
  "(string \<Rightarrow> dict option) \<Rightarrow> (string \<Rightarrow> string \<Rightarrow> string option) \<Rightarrow> string \<Rightarrow> dict" where
  "generate_with_ollama ollama re_search user_input =
    (case ollama user_input of
       Some reply \<Rightarrow> reply
     | None \<Rightarrow> generate_rule_based re_search user_input)"

definition generate_plan ::
  "bool \<Rightarrow> (string \<Rightarrow> dict option) \<Rightarrow> (string \<Rightarrow> string \<Rightarrow> string option) \<Rightarrow> string \<Rightarrow> dict"
  where
  "generate_plan use_ollama ollama re_search user_input =
    (if use_ollama \<and> USE_FREE_LLM then generate_with_ollama ollama re_search user_input
     else generate_rule_based re_search user_input)"

section \<open>The planner (agents/planner.py)\<close>

text \<open>\<^verbatim>\<open>"key" in x\<close> for a string key: a key of a dictionary, an element of a list, a part of a
  string; any other object is not a container.\<close>

fun py_in :: "string \<Rightarrow> pyval \<Rightarrow> exn + bool" where
  "py_in k (PDict d) = Inr (has_key d k)"
| "py_in k (PList xs) = Inr (PStr k \<in> set xs)"
| "py_in k (PStr s) = Inr (contains k s)"
| "py_in k _ = Inl TypeError"

text \<open>\<^verbatim>\<open>x["key"] = v\<close>: only a dictionary accepts a string key.\<close>

fun py_setitem :: "pyval \<Rightarrow> string \<Rightarrow> pyval \<Rightarrow> exn + pyval" where
  "py_setitem (PDict d) k v = Inr (PDict (dict_set d k v))"
| "py_setitem _ k v = Inl TypeError"

text \<open>\<^verbatim>\<open>if k not in params: params[k] = v\<close>.\<close>

definition set_default :: "pyval \<Rightarrow> string \<Rightarrow> pyval \<Rightarrow> exn + pyval" where
  "set_default params k v =
    (case py_in k params of
       Inl e \<Rightarrow> Inl e
     | Inr True \<Rightarrow> Inr params
     | Inr False \<Rightarrow> py_setitem params k v)"

text \<open>The objects that a \<^verbatim>\<open>for\<close> loop draws from a value.\<close>

fun py_iter :: "pyval \<Rightarrow> exn + pyval list" where
  "py_iter (PList xs) = Inr xs"
| "py_iter (PDict d) = Inr (map (\<lambda>kv. PStr (fst kv)) d)"
| "py_iter (PStr s) = Inr (map (\<lambda>c. PStr [c]) s)"
| "py_iter _ = Inl TypeError"

text \<open>
  The body of the loop of \<open>_validate_plan\<close> for the step at position \<open>i\<close> (from 0), in two
  parts. First the step gets its index, a valid tool name and a \<open>parameters\<close> entry.
\<close>

definition fix_step :: "nat \<Rightarrow> dict \<Rightarrow> dict" where
  "fix_step i d =
    (let d1 = dict_set d ''step'' (PInt (int i + 1));
         d2 = (if dict_get d1 ''tool'' PNone \<notin> set [PStr ''github_tool'', PStr ''weather_tool'']
               then dict_set d1 ''tool'' (PStr ''github_tool'') else d1)
     in if \<not> has_key d2 ''parameters'' then dict_set d2 ''parameters'' (PDict []) else d2)"

text \<open>
  Then the parameters get the defaults of the tool. A step that is not a dictionary makes
  the first assignment, \<^verbatim>\<open>step["step"] = i + 1\<close>, raise.
\<close>

definition validate_step :: "nat \<Rightarrow> pyval \<Rightarrow> exn + pyval" where
  "validate_step i step =
    (case step of
       PDict d \<Rightarrow>
        (let d3 = fix_step i d;
             params = dict_get d3 ''parameters'' PNone
         in if dict_get d3 ''tool'' PNone = PStr ''github_tool'' then
              (case set_default params ''query'' (PStr ''python'') of
                 Inl e \<Rightarrow> Inl e
               | Inr params1 \<Rightarrow>
                  (case set_default params1 ''per_page'' (PInt 5) of
                     Inl e \<Rightarrow> Inl e
                   | Inr params2 \<Rightarrow> Inr (PDict (dict_set d3 ''parameters'' params2))))
            else if dict_get d3 ''tool'' PNone = PStr ''weather_tool'' then
              (case set_default params ''city'' (PStr ''London'') of
                 Inl e \<Rightarrow> Inl e
               | Inr params1 \<Rightarrow> Inr (PDict (dict_set d3 ''parameters'' params1)))
            else Inr (PDict d3))
     | _ \<Rightarrow> Inl TypeError)"

fun validate_steps :: "nat \<Rightarrow> pyval list \<Rightarrow> exn + pyval list" where
  "validate_steps i [] = Inr []"
| "validate_steps i (step # steps) =
    (case validate_step i step of
       Inl e \<Rightarrow> Inl e
     | Inr step' \<Rightarrow>
        (case validate_steps (Suc i) steps of
           Inl e \<Rightarrow> Inl e
         | Inr steps' \<Rightarrow> Inr (step' # steps')))"

text \<open>
  \<open>_validate_plan\<close>. The steps are updated in place, so the plan returned is the plan given
  with its list of steps updated. A \<open>plan\<close> entry that is an empty dictionary or string is
  iterated zero times and stays; a non-empty one yields strings, on which the first
  assignment raises.
\<close>

definition validate_plan :: "dict \<Rightarrow> exn + dict" where
  "validate_plan plan0 =
    (let plan = (if \<not> has_key plan0 ''plan'' then [(''plan'', PList [])] else plan0)
     in case dict_get plan ''plan'' PNone of
          PList steps \<Rightarrow>
            (case validate_steps 0 steps of
               Inl e \<Rightarrow> Inl e
             | Inr steps' \<Rightarrow> Inr (dict_set plan ''plan'' (PList steps')))
        | other \<Rightarrow>
            (case py_iter other of
               Inl e \<Rightarrow> Inl e
             | Inr [] \<Rightarrow> Inr plan
             | Inr (x # xs) \<Rightarrow> Inl TypeError))"

definition create_fallback_plan :: "string \<Rightarrow> dict" where
  "create_fallback_plan user_input =
    [(''plan'', PList [PDict
        [(''step'', PInt 1),
         (''description'', PStr ''Search GitHub repositories''),
         (''tool'', PStr ''github_tool''),
         (''parameters'', PDict [(''query'', PStr ''python''), (''per_page'', PInt 5)])]]),
     (''reasoning'', PStr ''Fallback plan created''),
     (''note'', PStr ''Using fallback planning'')]"

text \<open>\<open>create_plan\<close>: any exception of the \<^verbatim>\<open>try\<close> block yields the fallback plan.\<close>

definition create_plan ::
  "bool \<Rightarrow> (string \<Rightarrow> dict option) \<Rightarrow> (string \<Rightarrow> string \<Rightarrow> string option) \<Rightarrow> string \<Rightarrow> dict"
  where
  "create_plan use_ollama ollama re_search user_input =
    (case validate_plan (generate_plan use_ollama ollama re_search user_input) of
       Inr validated_plan \<Rightarrow>
         (case py_len (dict_get validated_plan ''plan'' (PList [])) of
            Inr n \<Rightarrow> validated_plan
          | Inl e \<Rightarrow> create_fallback_plan user_input)
     | Inl e \<Rightarrow> create_fallback_plan user_input)"

section \<open>The world outside the functions\<close>

text \<open>
  Result dictionaries are objects: the cache, the executor and its history hold references
  to them, and writes through one reference are seen through the others. The heap is the
  list of all result dictionaries allocated so far; a reference is an index into it.
\<close>

type_synonym addr = nat

datatype tool = GitHubTool | WeatherTool

text \<open>An entry of \<open>execution_history\<close>.\<close>

record history_entry =
  h_step :: pyval
  h_tool :: pyval
  h_result :: addr
  h_timestamp :: real

text \<open>
  \<open>cache t\<close> is the \<open>cache\<close> attribute of tool \<open>t\<close>: cache key to the cached item, a
  reference to the result and the time stored. \<open>ticks\<close> counts the calls of \<^verbatim>\<open>time.time()\<close>
  and \<open>net_calls\<close> those of \<^verbatim>\<open>requests.get\<close>; \<open>sleeps\<close> lists the arguments of
  \<^verbatim>\<open>time.sleep\<close>. \<open>execute_calls\<close> counts the executor's calls of \<open>tool.execute\<close> and
  \<open>body_runs\<close> the runs of the body of an \<open>execute\<close> method.
\<close>

record world =
  heap :: "dict list"
  cache :: "tool \<Rightarrow> string \<Rightarrow> (addr \<times> real) option"
  ticks :: nat
  net_calls :: nat
  sleeps :: "real list"
  execute_calls :: nat
  body_runs :: nat
  execution_history :: "history_entry list"

definition init_world :: world where
  "init_world = \<lparr>heap = [], cache = (\<lambda>t k. None), ticks = 0, net_calls = 0, sleeps = [],
     execute_calls = 0, body_runs = 0, execution_history = []\<rparr>"

text \<open>What a request to a provider yields: an exception, or a response with its status code
  and its body as parsed by \<^verbatim>\<open>response.json()\<close> (\<open>None\<close> when that raises).\<close>

datatype reply = Transport_error | Http int "pyval option"

text \<open>
  What the functions take from outside: the clock (the value of the \<open>n\<close>-th call of
  \<^verbatim>\<open>time.time()\<close>), the providers (the outcome of the \<open>n\<close>-th request), the library
  functions \<^verbatim>\<open>hashlib.md5(...).hexdigest()\<close>, \<^verbatim>\<open>repr\<close> of a float, \<^verbatim>\<open>str\<close> of a list or
  dictionary and of an exception, and the settings of \<open>Config\<close>.
\<close>

record runtime =
  clock :: "nat \<Rightarrow> real"
  net :: "nat \<Rightarrow> reply"
  md5_hexdigest :: "string \<Rightarrow> string"
  float_repr :: "real \<Rightarrow> string"
  container_str :: "pyval \<Rightarrow> string"
  exn_str :: "exn \<Rightarrow> string"
  MAX_RETRIES :: nat
  RETRY_DELAY :: real
  OPENWEATHER_API_KEY :: string

definition time_time :: "runtime \<Rightarrow> world \<Rightarrow> real \<times> world" where
  "time_time rt s = (clock rt (ticks s), s\<lparr>ticks := Suc (ticks s)\<rparr>)"

definition time_sleep :: "real \<Rightarrow> world \<Rightarrow> world" where
  "time_sleep d s = s\<lparr>sleeps := sleeps s @ [d]\<rparr>"

definition requests_get :: "runtime \<Rightarrow> world \<Rightarrow> reply \<times> world" where
  "requests_get rt s = (net rt (net_calls s), s\<lparr>net_calls := Suc (net_calls s)\<rparr>)"

text \<open>A new dictionary object.\<close>

definition alloc :: "dict \<Rightarrow> world \<Rightarrow> addr \<times> world" where
  "alloc d s = (length (heap s), s\<lparr>heap := heap s @ [d]\<rparr>)"

text \<open>\<^verbatim>\<open>obj[k] = v\<close> through a reference.\<close>

definition heap_set :: "addr \<Rightarrow> string \<Rightarrow> pyval \<Rightarrow> world \<Rightarrow> world" where
  "heap_set a k v s = s\<lparr>heap := (heap s)[a := dict_set (heap s ! a) k v]\<rparr>"

text \<open>\<^verbatim>\<open>str(x)\<close>, as an f-string formats a value.\<close>

definition py_str :: "runtime \<Rightarrow> pyval \<Rightarrow> string" where
  "py_str rt v =
    (case v of
       PStr s \<Rightarrow> s
     | PInt i \<Rightarrow> str_int i
     | PNone \<Rightarrow> ''None''
     | PBool b \<Rightarrow> (if b then ''True'' else ''False'')
     | PFloat x \<Rightarrow> float_repr rt x
     | other \<Rightarrow> container_str rt other)"

section \<open>Utilities (utils.py)\<close>

text \<open>\<open>format_response\<close> builds a new result dictionary stamped with the current time.\<close>

definition format_response :: "runtime \<Rightarrow> pyval \<Rightarrow> bool \<Rightarrow> pyval \<Rightarrow> world \<Rightarrow> addr \<times> world" where
  "format_response rt data success error s =
    (case time_time rt s of
       (now, s1) \<Rightarrow>
         alloc [(''success'', PBool success), (''data'', data), (''error'', error),
                (''timestamp'', PFloat now)] s1)"

text \<open>
  \<open>retry_on_failure\<close>: the wrapper calls the function once per attempt, returns its first
  result, sleeps \<open>delay * (attempt + 1)\<close> after a failed attempt that is not the last, raises
  the last attempt's exception, and returns \<open>None\<close> when the loop runs out (only with
  \<open>max_retries = 0\<close>).
\<close>

fun retry_attempts :: "nat \<Rightarrow> real \<Rightarrow> (world \<Rightarrow> (exn + 'a) \<times> world) \<Rightarrow> nat list \<Rightarrow> world
    \<Rightarrow> (exn + 'a option) \<times> world" where
  "retry_attempts max_retries delay func [] s = (Inr None, s)"
| "retry_attempts max_retries delay func (attempt # attempts) s =
    (case func s of
       (Inr r, s1) \<Rightarrow> (Inr (Some r), s1)
     | (Inl e, s1) \<Rightarrow>
         if attempt = max_retries - 1 then (Inl e, s1)
         else retry_attempts max_retries delay func attempts
                (time_sleep (delay * (real attempt + 1)) s1))"

definition retry_on_failure :: "nat \<Rightarrow> real \<Rightarrow> (world \<Rightarrow> (exn + 'a) \<times> world) \<Rightarrow> world
    \<Rightarrow> (exn + 'a option) \<times> world" where
  "retry_on_failure max_retries delay func s =
    retry_attempts max_retries delay func [0..<max_retries] s"

section \<open>The base tool (tools/base_tool.py)\<close>

text \<open>
  \<^verbatim>\<open>json.dumps(kwargs, sort_keys=True)\<close>: dictionaries are written with their keys in
  sorted order, at every level; characters outside the printable ASCII range, the quote
  and the backslash are escaped.
\<close>

definition hex_digit :: "nat \<Rightarrow> char" where
  "hex_digit n = ''0123456789abcdef'' ! (n mod 16)"

definition json_escape_char :: "char \<Rightarrow> string" where
  "json_escape_char c =
    (if c = CHR 0x22 then [CHR 0x5C, CHR 0x22]
     else if c = CHR 0x5C then [CHR 0x5C, CHR 0x5C]
     else if c = CHR 0x0A then [CHR 0x5C, CHR ''n'']
     else if c = CHR 0x0D then [CHR 0x5C, CHR ''r'']
     else if c = CHR 0x09 then [CHR 0x5C, CHR ''t'']
     else if c = CHR 0x08 then [CHR 0x5C, CHR ''b'']
     else if c = CHR 0x0C then [CHR 0x5C, CHR ''f'']
     else if CHR 0x20 \<le> c \<and> c \<le> CHR 0x7E then [c]
     else [CHR 0x5C, CHR ''u'', CHR ''0'', CHR ''0'',
           hex_digit (of_char c div 16), hex_digit (of_char c)])"

definition json_string :: "string \<Rightarrow> string" where
  "json_string s = [CHR 0x22] @ concat (map json_escape_char s) @ [CHR 0x22]"

fun join :: "string \<Rightarrow> string list \<Rightarrow> string" where
  "join sep [] = []"
| "join sep [x] = x"
| "join sep (x # y # ys) = x @ sep @ join sep (y # ys)"

function json_dumps :: "(real \<Rightarrow> string) \<Rightarrow> pyval \<Rightarrow> string" where
  "json_dumps fr PNone = ''null''"
| "json_dumps fr (PBool b) = (if b then ''true'' else ''false'')"
| "json_dumps fr (PInt i) = str_int i"
| "json_dumps fr (PFloat x) = fr x"
| "json_dumps fr (PStr s) = json_string s"
| "json_dumps fr (PList xs) = ''['' @ join '', '' (map (json_dumps fr) xs) @ '']''"
| "json_dumps fr (PDict d) =
    ''{'' @ join '', '' (map (\<lambda>kv. json_string (fst kv) @ '': '' @ json_dumps fr (snd kv))
                            (sort_key fst d)) @ ''}''"
  by pat_completeness auto
termination
proof (relation "measure (\<lambda>(fr, v). size v)")
  show "wf (measure (\<lambda>(fr, v). size v))" by simp
next
  fix fr :: "real \<Rightarrow> string" and xs and x :: pyval
  assume "x \<in> set xs"
  then have "size x < Suc (size_list size xs)"
    by (induction xs) auto
  then show "((fr, x), (fr, PList xs)) \<in> measure (\<lambda>(fr, v). size v)" by simp
next
  fix fr :: "real \<Rightarrow> string" and d :: dict and kv
  assume "kv \<in> set (sort_key fst d)"
  then have "kv \<in> set d" by simp
  then have "size (snd kv) < Suc (size_list (size_prod (\<lambda>_. 0) size) d)"
    by (induction d) auto
  then show "((fr, snd kv), (fr, PDict d)) \<in> measure (\<lambda>(fr, v). size v)" by simp
qed

definition cache_ttl :: real where
  "cache_ttl = 300"

definition get_cache_key :: "runtime \<Rightarrow> dict \<Rightarrow> string" where
  "get_cache_key rt kwargs = md5_hexdigest rt (json_dumps (float_repr rt) (PDict kwargs))"

text \<open>\<open>get_cached_result\<close> reads the clock only when the key is in the cache, and hands out
  the reference held by the cached item.\<close>

definition get_cached_result :: "runtime \<Rightarrow> tool \<Rightarrow> string \<Rightarrow> world \<Rightarrow> addr option \<times> world" where
  "get_cached_result rt self cache_key s =
    (case cache s self cache_key of
       Some (result, timestamp) \<Rightarrow>
         (case time_time rt s of
            (now, s1) \<Rightarrow> if now - timestamp < cache_ttl then (Some result, s1) else (None, s1))
     | None \<Rightarrow> (None, s))"

definition cache_result :: "runtime \<Rightarrow> tool \<Rightarrow> string \<Rightarrow> addr \<Rightarrow> world \<Rightarrow> world" where
  "cache_result rt self cache_key result s =
    (case time_time rt s of
       (now, s1) \<Rightarrow> s1\<lparr>cache := (cache s1)(self := (cache s1 self)(cache_key \<mapsto> (result, now)))\<rparr>)"

text \<open>
  The head of both \<open>execute\<close> methods: \<^verbatim>\<open>if cached_result:\<close> holds for a reference to a
  dictionary that is not empty; the method then writes \<open>cached = True\<close> into that
  dictionary and returns the reference.
\<close>

definition cache_lookup :: "runtime \<Rightarrow> tool \<Rightarrow> string \<Rightarrow> world \<Rightarrow> addr option \<times> world" where
  "cache_lookup rt self cache_key s =
    (case get_cached_result rt self cache_key s of
       (Some cached_result, s1) \<Rightarrow>
         if truthy (PDict (heap s1 ! cached_result))
         then (Some cached_result, heap_set cached_result ''cached'' (PBool True) s1)
         else (None, s1)
     | (None, s1) \<Rightarrow> (None, s1))"

section \<open>The GitHub tool (tools/github_tool.py)\<close>

text \<open>A function applied to each element of a list, stopping at the first exception.\<close>

fun exn_map :: "('a \<Rightarrow> exn + 'b) \<Rightarrow> 'a list \<Rightarrow> exn + 'b list" where
  "exn_map f [] = Inr []"
| "exn_map f (x # xs) =
    (case f x of
       Inl e \<Rightarrow> Inl e
     | Inr y \<Rightarrow> (case exn_map f xs of Inl e \<Rightarrow> Inl e | Inr ys \<Rightarrow> Inr (y # ys)))"

text \<open>\<^verbatim>\<open>min(x, 30)\<close>: 30 when \<open>30 < x\<close>, else \<open>x\<close>; only numbers compare with 30.\<close>

fun py_min_30 :: "pyval \<Rightarrow> exn + pyval" where
  "py_min_30 (PInt n) = Inr (if 30 < n then PInt 30 else PInt n)"
| "py_min_30 (PBool b) = Inr (PBool b)"
| "py_min_30 (PFloat x) = Inr (if 30 < x then PInt 30 else PFloat x)"
| "py_min_30 _ = Inl TypeError"

text \<open>The dictionary built for one item of the search response.\<close>

definition format_repo :: "pyval \<Rightarrow> exn + pyval" where
  "format_repo repo =
    exn_bind (py_getitem repo (PStr ''name'')) (\<lambda>name.
    exn_bind (py_getitem repo (PStr ''full_name'')) (\<lambda>full_name.
    exn_bind (py_get repo ''description'' PNone) (\<lambda>description.
    exn_bind (py_getitem repo (PStr ''stargazers_count'')) (\<lambda>stars.
    exn_bind (py_getitem repo (PStr ''forks_count'')) (\<lambda>forks.
    exn_bind (py_get repo ''language'' PNone) (\<lambda>language.
    exn_bind (py_getitem repo (PStr ''html_url'')) (\<lambda>url.
    exn_bind (exn_bind (py_getitem repo (PStr ''created_at'')) py_slice10) (\<lambda>created_at.
    exn_bind (exn_bind (py_getitem repo (PStr ''updated_at'')) py_slice10) (\<lambda>updated_at.
    exn_bind (exn_bind (py_get repo ''license'' PNone) (\<lambda>license.
                if truthy license
                then exn_bind (py_get repo ''license'' (PDict [])) (\<lambda>l. py_get l ''name'' PNone)
                else Inr PNone)) (\<lambda>license_name.
    exn_bind (py_get repo ''topics'' (PList [])) (\<lambda>topics.
      Inr (PDict
        [(''name'', name),
         (''full_name'', full_name),
         (''description'', py_or description (PStr ''No description'')),
         (''stars'', stars),
         (''forks'', forks),
         (''language'', py_or language (PStr ''Not specified'')),
         (''url'', url),
         (''created_at'', created_at),
         (''updated_at'', updated_at),
         (''license'', license_name),
         (''topics'', topics)]))))))))))))"

text \<open>The payload built from a response with status 200.\<close>

definition github_payload :: "pyval \<Rightarrow> pyval option \<Rightarrow> exn + pyval" where
  "github_payload query body =
    (case body of
       None \<Rightarrow> Inl JSONDecodeError
     | Some data \<Rightarrow>
        exn_bind (py_get data ''items'' (PList [])) (\<lambda>items.
        exn_bind (py_iter items) (\<lambda>repos.
        exn_bind (exn_map format_repo repos) (\<lambda>repositories.
        exn_bind (py_get data ''total_count'' (PInt 0)) (\<lambda>total_count.
          Inr (PDict
            [(''query'', query),
             (''repositories'', PList repositories),
             (''total_count'', total_count),
             (''count'', PInt (int (length repositories))),
             (''source'', PStr ''github_api'')]))))))"

definition mock_repos :: "runtime \<Rightarrow> pyval \<Rightarrow> pyval list" where
  "mock_repos rt query =
    (let q = py_str rt query in
     [PDict
        [(''name'', PStr (q @ ''-project-1'')),
         (''full_name'', PStr (''user/'' @ q @ ''-project-1'')),
         (''description'', PStr (''A sample '' @ q @ '' project demonstrating best practices'')),
         (''stars'', PInt 150),
         (''forks'', PInt 30),
         (''language'', PStr ''Python''),
         (''url'', PStr (''https://github.com/example/'' @ q @ ''-project-1'')),
         (''created_at'', PStr ''2023-01-15''),
         (''updated_at'', PStr ''2024-12-20''),
         (''license'', PStr ''MIT''),
         (''topics'', PList [query, PStr ''example'', PStr ''demo''])],
      PDict
        [(''name'', PStr (q @ ''-project-2'')),
         (''full_name'', PStr (''org/'' @ q @ ''-project-2'')),
         (''description'', PStr (''Production-ready '' @ q @ '' application'')),
         (''stars'', PInt 89),
         (''forks'', PInt 15),
         (''language'', PStr ''JavaScript''),
         (''url'', PStr (''https://github.com/example/'' @ q @ ''-project-2'')),
         (''created_at'', PStr ''2023-05-20''),
         (''updated_at'', PStr ''2024-11-10''),
         (''license'', PStr ''Apache-2.0''),
         (''topics'', PList [query, PStr ''web'', PStr ''application''])],
      PDict
        [(''name'', PStr (q @ ''-project-3'')),
         (''full_name'', PStr (''company/'' @ q @ ''-project-3'')),
         (''description'',
            PStr (''Enterprise '' @ q @ '' framework with extensive documentation'')),
         (''stars'', PInt 256),
         (''forks'', PInt 45),
         (''language'', PStr ''Python''),
         (''url'', PStr (''https://github.com/example/'' @ q @ ''-project-3'')),
         (''created_at'', PStr ''2022-11-30''),
         (''updated_at'', PStr ''2024-12-15''),
         (''license'', PStr ''GPL-3.0''),
         (''topics'', PList [query, PStr ''framework'', PStr ''enterprise''])]])"

text \<open>
  \<open>_get_fallback_data\<close>. The slice \<^verbatim>\<open>[:per_page]\<close> needs an integer (a Boolean counts as 0
  or 1) and raises \<open>TypeError\<close> on a float. The result is returned, never cached.
\<close>

definition github_get_fallback_data ::
  "runtime \<Rightarrow> pyval \<Rightarrow> pyval \<Rightarrow> world \<Rightarrow> (exn + addr) \<times> world" where
  "github_get_fallback_data rt query per_page s =
    (case (case per_page of
             PInt n \<Rightarrow> Some n
           | PBool b \<Rightarrow> Some (if b then 1 else 0)
           | _ \<Rightarrow> None) of
       None \<Rightarrow> (Inl TypeError, s)
     | Some n \<Rightarrow>
        (let repos = slice_to n (mock_repos rt query)
         in case format_response rt (PDict
                  [(''query'', query),
                   (''repositories'', PList repos),
                   (''total_count'', PInt (int (length repos) * 50)),
                   (''count'', PInt (int (length repos))),
                   (''source'', PStr ''fallback_data''),
                   (''note'', PStr ''Using fallback data (API unavailable)'')])
                  True PNone s of
              (result, s1) \<Rightarrow> (Inr result, s1)))"

text \<open>
  The \<^verbatim>\<open>try\<close> block of \<open>execute\<close>: one request; on status 200 the payload is formatted,
  cached and returned; on 403 the fallback is returned; any other status gives a failure
  result. \<open>Inl\<close> is an exception raised inside the block.
\<close>

definition github_try ::
  "runtime \<Rightarrow> string \<Rightarrow> pyval \<Rightarrow> pyval \<Rightarrow> world \<Rightarrow> (exn + addr) \<times> world" where
  "github_try rt cache_key query per_page s =
    (case requests_get rt s of
       (Transport_error, s1) \<Rightarrow> (Inl RequestException, s1)
     | (Http status_code body, s1) \<Rightarrow>
         if status_code = 200 then
           (case github_payload query body of
              Inl e \<Rightarrow> (Inl e, s1)
            | Inr payload \<Rightarrow>
               (case format_response rt payload True PNone s1 of
                  (result, s2) \<Rightarrow> (Inr result, cache_result rt GitHubTool cache_key result s2)))
         else if status_code = 403 then github_get_fallback_data rt query per_page s1
         else
           (case format_response rt PNone False
                   (PStr (''GitHub API error: '' @ str_int status_code)) s1 of
              (result, s2) \<Rightarrow> (Inr result, s2)))"

text \<open>The body of \<open>GitHubTool.execute\<close>; the \<^verbatim>\<open>except\<close> clause returns the fallback.\<close>

definition github_execute_body :: "runtime \<Rightarrow> dict \<Rightarrow> world \<Rightarrow> (exn + addr) \<times> world" where
  "github_execute_body rt kwargs s =
    (let cache_key = get_cache_key rt kwargs
     in case cache_lookup rt GitHubTool cache_key (s\<lparr>body_runs := Suc (body_runs s)\<rparr>) of
          (Some cached_result, s1) \<Rightarrow> (Inr cached_result, s1)
        | (None, s1) \<Rightarrow>
           (let query = dict_get kwargs ''query'' (PStr ''python'')
            in case py_min_30 (dict_get kwargs ''per_page'' (PInt 5)) of
                 Inl e \<Rightarrow> (Inl e, s1)
               | Inr per_page \<Rightarrow>
                  (case github_try rt cache_key query per_page s1 of
                     (Inl e, s2) \<Rightarrow> github_get_fallback_data rt query per_page s2
                   | (Inr result, s2) \<Rightarrow> (Inr result, s2))))"

text \<open>\<open>GitHubTool.execute\<close> as decorated: \<^verbatim>\<open>@retry_on_failure(max_retries=3, delay=1.0)\<close>.\<close>

definition github_execute :: "runtime \<Rightarrow> dict \<Rightarrow> world \<Rightarrow> (exn + addr option) \<times> world" where
  "github_execute rt kwargs = retry_on_failure 3 1.0 (github_execute_body rt kwargs)"

definition github_validate_parameters :: "dict \<Rightarrow> bool" where
  "github_validate_parameters kwargs = has_key kwargs ''query''"

section \<open>The weather tool (tools/weather_tool.py)\<close>

text \<open>
  A number used as a dictionary key: integers, Booleans and whole floats that are equal
  hash alike. Strings and \<open>None\<close> are keys that equal no number; lists and dictionaries
  cannot be keys.
\<close>

fun key_number :: "pyval \<Rightarrow> exn + int option" where
  "key_number (PInt n) = Inr (Some n)"
| "key_number (PBool b) = Inr (Some (if b then 1 else 0))"
| "key_number (PFloat x) = Inr (if x = of_int \<lfloor>x\<rfloor> then Some \<lfloor>x\<rfloor> else None)"
| "key_number (PStr s) = Inr None"
| "key_number PNone = Inr None"
| "key_number _ = Inl TypeError"

definition condition_map :: "(int \<times> string) list" where
  "condition_map =
    [(0, ''Clear sky''),
     (1, ''Mainly clear''), (2, ''Partly cloudy''), (3, ''Overcast''),
     (45, ''Fog''), (48, ''Depositing rime fog''),
     (51, ''Light drizzle''), (53, ''Moderate drizzle''), (55, ''Dense drizzle''),
     (61, ''Slight rain''), (63, ''Moderate rain''), (65, ''Heavy rain''),
     (71, ''Slight snow''), (73, ''Moderate snow''), (75, ''Heavy snow''),
     (80, ''Slight rain showers''), (81, ''Moderate rain showers''),
     (82, ''Violent rain showers''),
     (95, ''Thunderstorm''), (96, ''Thunderstorm with slight hail''),
     (99, ''Thunderstorm with heavy hail'')]"

definition get_weather_condition :: "pyval \<Rightarrow> exn + pyval" where
  "get_weather_condition code =
    (case key_number code of
       Inl e \<Rightarrow> Inl e
     | Inr None \<Rightarrow> Inr (PStr ''Unknown'')
     | Inr (Some n) \<Rightarrow>
        (case map_of condition_map n of
           Some c \<Rightarrow> Inr (PStr c)
         | None \<Rightarrow> Inr (PStr ''Unknown'')))"

text \<open>The mock table of \<open>_get_fallback_data\<close>: temperature, condition, humidity, wind.\<close>

definition fallback_weather_data :: "(string \<times> real \<times> string \<times> int \<times> real) list" where
  "fallback_weather_data =
    [(''Tokyo'', 25.5, ''Clear sky'', 60, 12.3),
     (''London'', 14.0, ''Overcast'', 85, 15.2),
     (''New York'', 22.0, ''Partly cloudy'', 55, 8.7),
     (''Paris'', 19.5, ''Light drizzle'', 70, 10.5),
     (''Berlin'', 16.0, ''Moderate rain'', 75, 12.8),
     (''Mumbai'', 32.0, ''Clear sky'', 80, 6.5),
     (''Sydney'', 24.5, ''Sunny'', 65, 14.2)]"

text \<open>
  \<open>_get_fallback_data\<close>: \<^verbatim>\<open>city.title()\<close> exists only for a string. The result is returned,
  never cached.
\<close>

definition weather_get_fallback_data :: "runtime \<Rightarrow> pyval \<Rightarrow> world \<Rightarrow> (exn + addr) \<times> world"
  where
  "weather_get_fallback_data rt city s =
    (case city of
       PStr c \<Rightarrow>
        (case (case map_of fallback_weather_data (title c) of
                 Some row \<Rightarrow> row
               | None \<Rightarrow> (20.0, ''Unknown'', 50, 10.0)) of
           (temp, condition, humidity, wind) \<Rightarrow>
            (case format_response rt (PDict
                    [(''city'', city),
                     (''temperature'', PFloat temp),
                     (''feels_like'', PFloat temp),
                     (''humidity'', PInt humidity),
                     (''condition'', PStr condition),
                     (''wind_speed'', PFloat wind),
                     (''source'', PStr ''fallback_data''),
                     (''note'', PStr ''Using fallback data (API unavailable)'')])
                    True PNone s of
               (result, s1) \<Rightarrow> (Inr result, s1)))
     | _ \<Rightarrow> (Inl AttributeError, s))"

text \<open>The payload built from an OpenWeatherMap response with status 200.\<close>

definition openweather_payload :: "pyval option \<Rightarrow> exn + pyval" where
  "openweather_payload body =
    (case body of
       None \<Rightarrow> Inl JSONDecodeError
     | Some data \<Rightarrow>
        exn_bind (py_getitem data (PStr ''name'')) (\<lambda>name.
        exn_bind (exn_bind (py_getitem data (PStr ''sys''))
                    (\<lambda>x. py_getitem x (PStr ''country''))) (\<lambda>country.
        exn_bind (py_getitem data (PStr ''main'')) (\<lambda>main.
        exn_bind (py_getitem main (PStr ''temp'')) (\<lambda>temp.
        exn_bind (py_getitem main (PStr ''feels_like'')) (\<lambda>feels_like.
        exn_bind (py_getitem main (PStr ''humidity'')) (\<lambda>humidity.
        exn_bind (exn_bind (py_getitem data (PStr ''weather''))
                    (\<lambda>x. py_getitem x (PInt 0))) (\<lambda>weather0.
        exn_bind (py_getitem weather0 (PStr ''main'')) (\<lambda>condition.
        exn_bind (py_getitem weather0 (PStr ''description'')) (\<lambda>description.
        exn_bind (exn_bind (py_getitem data (PStr ''wind''))
                    (\<lambda>x. py_getitem x (PStr ''speed''))) (\<lambda>wind_speed.
        exn_bind (py_getitem main (PStr ''pressure'')) (\<lambda>pressure.
          Inr (PDict
            [(''city'', name),
             (''country'', country),
             (''temperature'', temp),
             (''feels_like'', feels_like),
             (''humidity'', humidity),
             (''condition'', condition),
             (''description'', description),
             (''wind_speed'', wind_speed),
             (''pressure'', pressure),
             (''source'', PStr ''openweathermap_api'')])))))))))))))"

text \<open>
  \<open>_get_openweather_data\<close>: one request; a good response is returned without being
  cached; the bare \<^verbatim>\<open>except\<close> swallows every exception, and the fallback follows.
\<close>

definition get_openweather_data :: "runtime \<Rightarrow> pyval \<Rightarrow> world \<Rightarrow> (exn + addr) \<times> world" where
  "get_openweather_data rt city s =
    (case requests_get rt s of
       (Http status_code body, s1) \<Rightarrow>
         if status_code = 200 then
           (case openweather_payload body of
              Inr payload \<Rightarrow>
                (case format_response rt payload True PNone s1 of
                   (result, s2) \<Rightarrow> (Inr result, s2))
            | Inl e \<Rightarrow> weather_get_fallback_data rt city s1)
         else weather_get_fallback_data rt city s1
     | (Transport_error, s1) \<Rightarrow> weather_get_fallback_data rt city s1)"

text \<open>What \<open>execute\<close> reads from the geocoding response: \<open>None\<close> when \<open>results\<close> is missing
  or empty, else latitude, longitude, country and region of the first result.\<close>

definition geocode_location :: "pyval option \<Rightarrow> exn + (pyval \<times> pyval \<times> pyval \<times> pyval) option"
  where
  "geocode_location body =
    (case body of
       None \<Rightarrow> Inl JSONDecodeError
     | Some geocode_data \<Rightarrow>
        exn_bind (py_get geocode_data ''results'' PNone) (\<lambda>results.
          if truthy results then
            exn_bind (py_getitem results (PInt 0)) (\<lambda>location.
            exn_bind (py_getitem location (PStr ''latitude'')) (\<lambda>latitude.
            exn_bind (py_getitem location (PStr ''longitude'')) (\<lambda>longitude.
            exn_bind (py_get location ''country'' (PStr '''')) (\<lambda>country.
            exn_bind (py_get location ''admin1'' (PStr '''')) (\<lambda>region.
              Inr (Some (latitude, longitude, country, region)))))))
          else Inr None))"

text \<open>The payload built from the forecast response with status 200. The degree sign of
  the unit is the character with code \<open>0xB0\<close>.\<close>

definition weather_payload ::
  "pyval \<Rightarrow> pyval \<times> pyval \<times> pyval \<times> pyval \<Rightarrow> pyval option \<Rightarrow> exn + pyval" where
  "weather_payload city location body =
    (case location of
       (latitude, longitude, country, region) \<Rightarrow>
        (case body of
           None \<Rightarrow> Inl JSONDecodeError
         | Some weather_data \<Rightarrow>
            exn_bind (py_get weather_data ''current'' (PDict [])) (\<lambda>current.
            exn_bind (py_get current ''weather_code'' (PInt 0)) (\<lambda>weather_code.
            exn_bind (get_weather_condition weather_code) (\<lambda>weather_condition.
            exn_bind (py_get current ''temperature_2m'' (PInt 0)) (\<lambda>temperature.
            exn_bind (py_get current ''apparent_temperature'' (PInt 0)) (\<lambda>feels_like.
            exn_bind (py_get current ''relative_humidity_2m'' (PInt 0)) (\<lambda>humidity.
            exn_bind (py_get current ''wind_speed_10m'' (PInt 0)) (\<lambda>wind_speed.
            exn_bind (py_get current ''wind_direction_10m'' (PInt 0)) (\<lambda>wind_direction.
              Inr (PDict
                [(''city'', city),
                 (''country'', country),
                 (''region'', region),
                 (''latitude'', latitude),
                 (''longitude'', longitude),
                 (''temperature'', temperature),
                 (''feels_like'', feels_like),
                 (''humidity'', humidity),
                 (''weather_code'', weather_code),
                 (''condition'', weather_condition),
                 (''wind_speed'', wind_speed),
                 (''wind_direction'', wind_direction),
                 (''units'', PDict [(''temperature'', PStr ([CHR 0xB0] @ ''C'')),
                    (''wind_speed'', PStr ''km/h'')]),
                 (''source'', PStr ''open-meteo_api'')])))))))))))"

text \<open>The end of the \<^verbatim>\<open>try\<close> block, reached when geocoding or the forecast gave nothing.\<close>

definition weather_no_data :: "runtime \<Rightarrow> pyval \<Rightarrow> world \<Rightarrow> (exn + addr) \<times> world" where
  "weather_no_data rt city s =
    (if OPENWEATHER_API_KEY rt \<noteq> [] then get_openweather_data rt city s
     else weather_get_fallback_data rt city s)"

text \<open>
  The \<^verbatim>\<open>try\<close> block of \<open>execute\<close>: the geocoding request, then the forecast request for the
  first location found; a forecast with status 200 is formatted, cached and returned.
\<close>

definition weather_try :: "runtime \<Rightarrow> string \<Rightarrow> pyval \<Rightarrow> world \<Rightarrow> (exn + addr) \<times> world" where
  "weather_try rt cache_key city s =
    (case requests_get rt s of
       (Transport_error, s1) \<Rightarrow> (Inl RequestException, s1)
     | (Http geocode_status geocode_body, s1) \<Rightarrow>
         if geocode_status = 200 then
           (case geocode_location geocode_body of
              Inl e \<Rightarrow> (Inl e, s1)
            | Inr None \<Rightarrow> weather_no_data rt city s1
            | Inr (Some location) \<Rightarrow>
               (case requests_get rt s1 of
                  (Transport_error, s2) \<Rightarrow> (Inl RequestException, s2)
                | (Http weather_status weather_body, s2) \<Rightarrow>
                    if weather_status = 200 then
                      (case weather_payload city location weather_body of
                         Inl e \<Rightarrow> (Inl e, s2)
                       | Inr payload \<Rightarrow>
                          (case format_response rt payload True PNone s2 of
                             (result, s3) \<Rightarrow>
                               (Inr result, cache_result rt WeatherTool cache_key result s3)))
                    else weather_no_data rt city s2))
         else weather_no_data rt city s1)"

text \<open>The body of \<open>WeatherTool.execute\<close>; the \<^verbatim>\<open>except\<close> clause returns the fallback.\<close>

definition weather_execute_body :: "runtime \<Rightarrow> dict \<Rightarrow> world \<Rightarrow> (exn + addr) \<times> world" where
  "weather_execute_body rt kwargs s =
    (let cache_key = get_cache_key rt kwargs
     in case cache_lookup rt WeatherTool cache_key (s\<lparr>body_runs := Suc (body_runs s)\<rparr>) of
          (Some cached_result, s1) \<Rightarrow> (Inr cached_result, s1)
        | (None, s1) \<Rightarrow>
           (let city = dict_get kwargs ''city'' (PStr ''London'')
            in case weather_try rt cache_key city s1 of
                 (Inl e, s2) \<Rightarrow> weather_get_fallback_data rt city s2
               | (Inr result, s2) \<Rightarrow> (Inr result, s2)))"

definition weather_execute :: "runtime \<Rightarrow> dict \<Rightarrow> world \<Rightarrow> (exn + addr option) \<times> world" where
  "weather_execute rt kwargs = retry_on_failure 3 1.0 (weather_execute_body rt kwargs)"

definition weather_validate_parameters :: "dict \<Rightarrow> bool" where
  "weather_validate_parameters kwargs = has_key kwargs ''city''"

section \<open>The executor (agents/executor.py)\<close>

text \<open>The tools registered in \<open>self.tools\<close>, by name.\<close>

definition tool_execute :: "tool \<Rightarrow> runtime \<Rightarrow> dict \<Rightarrow> world \<Rightarrow> (exn + addr option) \<times> world"
  where
  "tool_execute t = (case t of GitHubTool \<Rightarrow> github_execute | WeatherTool \<Rightarrow> weather_execute)"

definition tool_validate_parameters :: "tool \<Rightarrow> dict \<Rightarrow> bool" where
  "tool_validate_parameters t =
    (case t of GitHubTool \<Rightarrow> github_validate_parameters
             | WeatherTool \<Rightarrow> weather_validate_parameters)"

text \<open>\<^verbatim>\<open>tool_name not in self.tools\<close> and \<^verbatim>\<open>self.tools[tool_name]\<close>: a list or a dictionary
  cannot be looked up (it is unhashable); any other value that is not one of the two names
  is not found.\<close>

fun find_tool :: "pyval \<Rightarrow> exn + tool option" where
  "find_tool (PStr name) =
    Inr (if name = ''github_tool'' then Some GitHubTool
         else if name = ''weather_tool'' then Some WeatherTool else None)"
| "find_tool (PList xs) = Inl TypeError"
| "find_tool (PDict d) = Inl TypeError"
| "find_tool _ = Inr None"

text \<open>
  The \<^verbatim>\<open>try\<close> block of one attempt: \<open>step['step']\<close> is read for the log line, the tool is
  called, and the step number and the tool name are written into the result that the
  tool returned, through the reference.
\<close>

definition attempt_step ::
  "runtime \<Rightarrow> dict \<Rightarrow> tool \<Rightarrow> pyval \<Rightarrow> dict \<Rightarrow> world \<Rightarrow> (exn + addr) \<times> world" where
  "attempt_step rt step t tool_name parameters s =
    (case py_getitem (PDict step) (PStr ''step'') of
       Inl e \<Rightarrow> (Inl e, s)
     | Inr step_no \<Rightarrow>
        (case tool_execute t rt parameters (s\<lparr>execute_calls := Suc (execute_calls s)\<rparr>) of
           (Inl e, s1) \<Rightarrow> (Inl e, s1)
         | (Inr None, s1) \<Rightarrow> (Inl TypeError, s1)
         | (Inr (Some result), s1) \<Rightarrow>
            (let s2 = heap_set result ''step'' step_no s1;
                 s3 = heap_set result ''tool'' tool_name s2
             in case time_time rt s3 of
                  (now, s4) \<Rightarrow>
                    (Inr result,
                     s4\<lparr>execution_history := execution_history s4 @
                          [\<lparr>h_step = step_no, h_tool = tool_name, h_result = result,
                            h_timestamp = now\<rparr>]\<rparr>))))"

text \<open>The retry loop \<^verbatim>\<open>for attempt in range(Config.MAX_RETRIES)\<close> and the statement after it.\<close>

fun attempt_loop ::
  "runtime \<Rightarrow> dict \<Rightarrow> tool \<Rightarrow> pyval \<Rightarrow> dict \<Rightarrow> nat list \<Rightarrow> world \<Rightarrow> addr \<times> world" where
  "attempt_loop rt step t tool_name parameters [] s =
    alloc [(''success'', PBool False), (''error'', PStr ''Execution failed''),
           (''step'', PDict step)] s"
| "attempt_loop rt step t tool_name parameters (attempt # attempts) s =
    (case attempt_step rt step t tool_name parameters s of
       (Inr result, s1) \<Rightarrow> (result, s1)
     | (Inl e, s1) \<Rightarrow>
         if attempt < MAX_RETRIES rt - 1
         then attempt_loop rt step t tool_name parameters attempts
                (time_sleep (RETRY_DELAY rt) s1)
         else alloc [(''success'', PBool False),
                     (''error'', PStr (''Failed after '' @ str_nat (MAX_RETRIES rt)
                        @ '' attempts: '' @ exn_str rt e)),
                     (''step'', PDict step),
                     (''tool'', tool_name)] s1)"

text \<open>
  \<open>execute_step\<close>. An exception leaves the method only from the lookup of an unhashable
  tool name or from \<^verbatim>\<open>**parameters\<close> on a value that is not a dictionary.
\<close>

definition execute_step :: "runtime \<Rightarrow> dict \<Rightarrow> world \<Rightarrow> (exn + addr) \<times> world" where
  "execute_step rt step s =
    (let tool_name = dict_get step ''tool'' PNone;
         parameters = dict_get step ''parameters'' (PDict [])
     in case find_tool tool_name of
          Inl e \<Rightarrow> (Inl e, s)
        | Inr None \<Rightarrow>
            (case alloc [(''success'', PBool False),
                         (''error'', PStr (''Tool '' @ [CHR 0x27] @ py_str rt tool_name
                            @ [CHR 0x27] @ '' not found'')),
                         (''step'', PDict step)] s of
               (result, s1) \<Rightarrow> (Inr result, s1))
        | Inr (Some t) \<Rightarrow>
            (case parameters of
               PDict kwargs \<Rightarrow>
                 if \<not> tool_validate_parameters t kwargs then
                   (case alloc [(''success'', PBool False),
                                (''error'', PStr (''Invalid parameters for ''
                                   @ py_str rt tool_name)),
                                (''parameters'', parameters),
                                (''step'', PDict step)] s of
                      (result, s1) \<Rightarrow> (Inr result, s1))
                 else
                   (case attempt_loop rt step t tool_name kwargs [0..<MAX_RETRIES rt] s of
                      (result, s1) \<Rightarrow> (Inr result, s1))
             | _ \<Rightarrow> (Inl TypeError, s)))"

text \<open>\<open>execute_plan\<close>: the steps in order, half a second of sleep after each. A step that
  is not a dictionary has no \<open>get\<close>.\<close>

fun execute_steps :: "runtime \<Rightarrow> pyval list \<Rightarrow> world \<Rightarrow> (exn + addr list) \<times> world" where
  "execute_steps rt [] s = (Inr [], s)"
| "execute_steps rt (step # steps) s =
    (case step of
       PDict d \<Rightarrow>
        (case execute_step rt d s of
           (Inl e, s1) \<Rightarrow> (Inl e, s1)
         | (Inr result, s1) \<Rightarrow>
            (case execute_steps rt steps (time_sleep 0.5 s1) of
               (Inl e, s2) \<Rightarrow> (Inl e, s2)
             | (Inr results, s2) \<Rightarrow> (Inr (result # results), s2)))
     | _ \<Rightarrow> (Inl AttributeError, s))"

definition execute_plan :: "runtime \<Rightarrow> dict \<Rightarrow> world \<Rightarrow> (exn + addr list) \<times> world" where
  "execute_plan rt plan s =
    (case py_iter (dict_get plan ''plan'' (PList [])) of
       Inl e \<Rightarrow> (Inl e, s)
     | Inr steps \<Rightarrow> execute_steps rt steps s)"

section \<open>Verification of results\<close>

subsection \<open>\<^verbatim>\<open>LLMClient.verify_results\<close> (llm/client.py)\<close>

text \<open>\<^verbatim>\<open>r.get("success", False)\<close> read as a condition.\<close>

definition succeeded :: "dict \<Rightarrow> bool" where
  "succeeded r = truthy (dict_get r ''success'' (PBool False))"

definition llm_verify_results :: "string \<Rightarrow> dict \<Rightarrow> dict list \<Rightarrow> dict" where
  "llm_verify_results user_input plan results =
    (let successful = length (filter succeeded results);
         total = length results;
         completeness = (if total > 0 \<and> successful = total then 100
                         else if successful > 0 then 50 else 0)
     in [(''is_complete'', PBool (successful = total)),
         (''completeness_score'', PInt completeness),
         (''missing_data'', PList []),
         (''suggestions'',
            if successful = total then PList [PStr ''All requirements satisfied'']
            else PList [PStr ''Some steps failed'']),
         (''summary'', PStr (''Completed '' @ str_nat successful @ ''/'' @ str_nat total
            @ '' steps successfully''))])"

subsection \<open>\<^verbatim>\<open>VerifierAgent\<close> (agents/verifier.py)\<close>

definition handle_all_failed :: "dict list \<Rightarrow> string \<Rightarrow> dict" where
  "handle_all_failed failed_results user_input =
    [(''verification'', PDict
        [(''is_complete'', PBool False),
         (''completeness_score'', PInt 0),
         (''missing_data'', PList [PStr ''All execution steps failed'']),
         (''suggestions'', PList [PStr ''Check API availability'', PStr ''Verify parameters'',
            PStr ''Try different tools'']),
         (''summary'', PStr (''Failed to execute task: '' @ user_input))]),
     (''final_output'', PDict
        [(''status'', PStr ''failed''),
         (''user_request'', PStr user_input),
         (''errors'', PList (map (\<lambda>r. dict_get r ''error'' (PStr ''Unknown error''))
            failed_results)),
         (''suggestions'', PList [PStr ''Try rephrasing your request'',
            PStr ''Check if the requested information is available'',
            PStr ''Try a simpler request first''])])]"

text \<open>
  One entry of \<open>formatted_data\<close>. \<open>data = result.get("data", {})\<close> is whatever the result
  holds; \<open>data.get\<close> raises \<open>AttributeError\<close> unless it is a dictionary. A result of
  neither tool contributes nothing.
\<close>

definition format_result :: "dict \<Rightarrow> exn + pyval list" where
  "format_result result =
    (if dict_get result ''tool'' PNone = PStr ''github_tool'' then
       (case dict_get result ''data'' (PDict []) of
          PDict data \<Rightarrow> Inr [PDict
            [(''type'', PStr ''github''),
             (''query'', dict_get data ''query'' (PStr '''')),
             (''repositories'', dict_get data ''repositories'' (PList [])),
             (''total_count'', dict_get data ''total_count'' (PInt 0)),
             (''source'', dict_get data ''source'' (PStr ''unknown'')),
             (''cached'', dict_get result ''cached'' (PBool False))]]
        | _ \<Rightarrow> Inl AttributeError)
     else if dict_get result ''tool'' PNone = PStr ''weather_tool'' then
       (case dict_get result ''data'' (PDict []) of
          PDict data \<Rightarrow> Inr [PDict
            [(''type'', PStr ''weather''),
             (''city'', dict_get data ''city'' (PStr '''')),
             (''country'', dict_get data ''country'' (PStr '''')),
             (''temperature'', dict_get data ''temperature'' (PInt 0)),
             (''condition'', dict_get data ''condition'' (PStr '''')),
             (''humidity'', dict_get data ''humidity'' (PInt 0)),
             (''wind_speed'', dict_get data ''wind_speed'' (PInt 0)),
             (''source'', dict_get data ''source'' (PStr ''unknown'')),
             (''cached'', dict_get result ''cached'' (PBool False))]]
        | _ \<Rightarrow> Inl AttributeError)
     else Inr [])"

fun format_results :: "dict list \<Rightarrow> exn + pyval list" where
  "format_results [] = Inr []"
| "format_results (r # rs) =
    (case format_result r of
       Inl e \<Rightarrow> Inl e
     | Inr xs \<Rightarrow> (case format_results rs of Inl e \<Rightarrow> Inl e | Inr ys \<Rightarrow> Inr (xs @ ys)))"

text \<open>
  \<open>_build_final_output\<close>. The two calls of \<open>time.time()\<close> are the arguments \<open>t_exec\<close> and
  \<open>t_stamp\<close>. \<open>len(plan.get("plan", []))\<close> raises \<open>TypeError\<close> on an unsized value.
\<close>

definition build_final_output ::
  "real \<Rightarrow> real \<Rightarrow> string \<Rightarrow> dict \<Rightarrow> dict list \<Rightarrow> dict list \<Rightarrow> dict \<Rightarrow> exn + dict" where
  "build_final_output t_exec t_stamp user_input plan successful_results failed_results
      verification =
    (case format_results successful_results of
       Inl e \<Rightarrow> Inl e
     | Inr formatted_data \<Rightarrow>
        (case py_len (dict_get plan ''plan'' (PList [])) of
           Inl e \<Rightarrow> Inl e
         | Inr total_steps \<Rightarrow> Inr
            [(''task_execution'', PDict
               [(''user_request'', PStr user_input),
                (''status'',
                   if truthy (dict_get verification ''is_complete'' (PBool False))
                   then PStr ''completed'' else PStr ''partial''),
                (''completeness_score'', dict_get verification ''completeness_score'' (PInt 0)),
                (''execution_time'', PFloat t_exec),
                (''plan_summary'', PDict
                   [(''total_steps'', PInt (int total_steps)),
                    (''executed_steps'', PInt (int (length successful_results))),
                    (''failed_steps'', PInt (int (length failed_results)))])]),
             (''results'', PList formatted_data),
             (''verification'', PDict
               [(''is_complete'', dict_get verification ''is_complete'' (PBool False)),
                (''score'', dict_get verification ''completeness_score'' (PInt 0)),
                (''issues'', dict_get verification ''missing_data'' (PList [])),
                (''suggestions'', dict_get verification ''suggestions'' (PList []))]),
             (''metadata'', PDict
               [(''system'', PStr ''AI Operations Assistant''),
                (''version'', PStr ''1.0.0''),
                (''architecture'', PStr ''multi-agent''),
                (''timestamp'', PFloat t_stamp),
                (''agents_used'', PList [PStr ''planner'', PStr ''executor'',
                   PStr ''verifier''])])]))"

definition verify_results ::
  "real \<Rightarrow> real \<Rightarrow> string \<Rightarrow> dict \<Rightarrow> dict list \<Rightarrow> exn + dict" where
  "verify_results t_exec t_stamp user_input plan results =
    (let successful_results = filter succeeded results;
         failed_results = filter (\<lambda>r. \<not> succeeded r) results
     in if successful_results = [] then Inr (handle_all_failed failed_results user_input)
        else
          (let verification = llm_verify_results user_input plan results
           in case build_final_output t_exec t_stamp user_input plan successful_results
                     failed_results verification of
                Inl e \<Rightarrow> Inl e
              | Inr final_output \<Rightarrow>
                 (case py_len (dict_get plan ''plan'' (PList [])) of
                    Inl e \<Rightarrow> Inl e
                  | Inr total_steps \<Rightarrow> Inr
                     [(''verification'', PDict verification),
                      (''final_output'', PDict final_output),
                      (''summary'', PDict
                        [(''total_steps'', PInt (int total_steps)),
                         (''successful_steps'', PInt (int (length successful_results))),
                         (''failed_steps'', PInt (int (length failed_results))),
                         (''completeness_score'',
                            dict_get verification ''completeness_score'' (PInt 0))])])))"

section \<open>Reading a report\<close>

text \<open>The value found in a nested dictionary by following a path of keys.\<close>

fun report_path :: "pyval \<Rightarrow> string list \<Rightarrow> pyval option" where
  "report_path v [] = Some v"
| "report_path (PDict d) (k # ks) =
    (case map_of d k of Some v \<Rightarrow> report_path v ks | None \<Rightarrow> None)"
| "report_path _ (k # ks) = None"

text \<open>The score that the verifier computes: one of three levels.\<close>

definition three_level_score :: "dict list \<Rightarrow> int" where
  "three_level_score results =
    (if results \<noteq> [] \<and> list_all succeeded results then 100
     else if list_ex succeeded results then 50 else 0)"

text \<open>
  The scoring rule in the words of the specification: 100 times the share of successful
  results, rounded to one decimal place, and 0 for no results.
\<close>

definition spec_completeness_score :: "dict list \<Rightarrow> real" where
  "spec_completeness_score results =
    (if results = [] then 0
     else of_int (round (10 * (100 * real (length (filter succeeded results))
                                / real (length results)))) / 10)"

text \<open>The numeric value of a score field.\<close>

fun number_of :: "pyval option \<Rightarrow> real option" where
  "number_of (Some (PInt i)) = Some (of_int i)"
| "number_of (Some (PFloat x)) = Some x"
| "number_of _ = None"

text \<open>
  Results as the executor produces them: a successful result of one of the two tools
  carries a dictionary as its data (or none). The plan's steps can be counted.
\<close>

definition data_ok :: "dict \<Rightarrow> bool" where
  "data_ok r =
    (if dict_get r ''tool'' PNone = PStr ''github_tool''
        \<or> dict_get r ''tool'' PNone = PStr ''weather_tool''
     then (case dict_get r ''data'' (PDict []) of PDict d \<Rightarrow> True | _ \<Rightarrow> False)
     else True)"

definition plan_sized :: "dict \<Rightarrow> bool" where
  "plan_sized plan = (case py_len (dict_get plan ''plan'' (PList [])) of Inr n \<Rightarrow> True | Inl e \<Rightarrow> False)"

text \<open>
  The issues list in the words of the specification: the error text of every failed
  result in order, led by a marker when every result failed.
\<close>

definition spec_issues :: "dict list \<Rightarrow> pyval list" where
  "spec_issues results =
    (let errors = map (\<lambda>r. dict_get r ''error'' (PStr ''Unknown error''))
                      (filter (\<lambda>r. \<not> succeeded r) results)
     in if list_ex succeeded results then errors
        else PStr ''All execution steps failed'' # errors)"

definition report_score :: "exn + dict \<Rightarrow> real option" where
  "report_score r =
    (case r of
       Inr report \<Rightarrow> number_of (report_path (PDict report) [''verification'', ''completeness_score''])
     | Inl e \<Rightarrow> None)"

text \<open>Two results as the executor returns them: a successful search and an unknown tool.\<close>

definition example_success :: dict where
  "example_success =
    [(''success'', PBool True),
     (''data'', PDict [(''query'', PStr ''python''), (''repositories'', PList []),
        (''total_count'', PInt 0), (''count'', PInt 0), (''source'', PStr ''github_api'')]),
     (''error'', PNone),
     (''timestamp'', PFloat 1000),
     (''step'', PInt 1),
     (''tool'', PStr ''github_tool'')]"

definition example_failure :: dict where
  "example_failure =
    [(''success'', PBool False),
     (''error'', PStr (''Tool '' @ [CHR 0x27] @ ''mail_tool'' @ [CHR 0x27] @ '' not found'')),
     (''step'', PDict [(''step'', PInt 2), (''tool'', PStr ''mail_tool'')])]"

definition example_plan :: dict where
  "example_plan = [(''plan'', PList [PDict [(''step'', PInt 1)], PDict [(''step'', PInt 2)]])]"

text \<open>The issues list of a report, where the final output holds one.\<close>

definition report_issues :: "exn + dict \<Rightarrow> pyval option" where
  "report_issues r =
    (case r of
       Inr report \<Rightarrow> report_path (PDict report) [''final_output'', ''verification'', ''issues'']
     | Inl e \<Rightarrow> None)"

section \<open>Example runs\<close>

text \<open>
  A runtime with the settings of \<open>config.py\<close> (three retries, one second of delay, no
  OpenWeatherMap key) for a given clock and given providers. The digest is the identity
  here, so the cache key of an example is the JSON text itself.
\<close>

definition default_runtime :: "(nat \<Rightarrow> real) \<Rightarrow> (nat \<Rightarrow> reply) \<Rightarrow> runtime" where
  "default_runtime c n =
    \<lparr>clock = c, net = n, md5_hexdigest = (\<lambda>text. text), float_repr = (\<lambda>x. ''0.0''),
     container_str = (\<lambda>v. ''[]''), exn_str = (\<lambda>e. ''error''),
     MAX_RETRIES = 3, RETRY_DELAY = 1.0, OPENWEATHER_API_KEY = ''''\<rparr>"

text \<open>Providers that cannot be reached, and a search provider that answers with no items.\<close>

definition offline :: "nat \<Rightarrow> reply" where
  "offline n = Transport_error"

definition empty_search :: "nat \<Rightarrow> reply" where
  "empty_search n = Http 200 (Some (PDict [(''items'', PList []), (''total_count'', PInt 0)]))"

text \<open>A clock that advances by 100 seconds with every reading.\<close>

definition slow_clock :: "nat \<Rightarrow> real" where
  "slow_clock n = 1000 + 100 * real n"

definition python_query :: dict where
  "python_query = [(''query'', PStr ''python''), (''per_page'', PInt 5)]"

text \<open>A world whose heap holds one result, and nothing else.\<close>

definition fresh_world :: world where
  "fresh_world = init_world\<lparr>heap := [example_success]\<rparr>"

text \<open>The name under which the executor registers a tool.\<close>

definition tool_name :: "tool \<Rightarrow> string" where
  "tool_name t = (case t of GitHubTool \<Rightarrow> ''github_tool'' | WeatherTool \<Rightarrow> ''weather_tool'')"

text \<open>
  The world after a call of \<open>execute\<close> that was answered from the cache with the result at
  \<open>a\<close>: the body ran once, the clock was read once, and \<open>cached = True\<close> was written into
  the result.
\<close>

definition hit_world :: "addr \<Rightarrow> world \<Rightarrow> world" where
  "hit_world a s = heap_set a ''cached'' (PBool True)
     (s\<lparr>body_runs := Suc (body_runs s), ticks := Suc (ticks s)\<rparr>)"

text \<open>A search that found nothing, run from the initial world; the step that asks for it.\<close>

definition search_runtime :: runtime where
  "search_runtime = default_runtime slow_clock empty_search"

definition search_step :: dict where
  "search_step =
    [(''step'', PInt 1),
     (''description'', PStr ''Search GitHub''),
     (''tool'', PStr ''github_tool''),
     (''parameters'', PDict python_query)]"

definition after_search :: world where
  "after_search = snd (execute_step search_runtime search_step init_world)"

text \<open>The world after the same search has been asked of the tool once more.\<close>

definition after_hit :: world where
  "after_hit = snd (tool_execute GitHubTool search_runtime python_query after_search)"

section \<open>What a call of a tool does to the world\<close>

text \<open>A result that the fallback of a tool made: its data names \<open>fallback_data\<close> as source.\<close>

definition is_fallback :: "dict \<Rightarrow> bool" where
  "is_fallback d =
    (case dict_get d ''data'' PNone of
       PDict payload \<Rightarrow> dict_get payload ''source'' PNone = PStr ''fallback_data''
     | _ \<Rightarrow> False)"

text \<open>
  The cache misses under a key: there is no entry, or the entry has expired, or it refers
  to an empty dictionary.
\<close>

definition missed :: "runtime \<Rightarrow> tool \<Rightarrow> string \<Rightarrow> world \<Rightarrow> bool" where
  "missed rt t key s =
    (case cache s t key of
       None \<Rightarrow> True
     | Some (a, ts) \<Rightarrow> \<not> clock rt (ticks s) - ts < cache_ttl \<or> heap s ! a = [])"

text \<open>
  The invariant of the caches: every entry refers to a result in the heap that is not empty
  and was not made by a fallback.
\<close>

definition cache_inv :: "world \<Rightarrow> bool" where
  "cache_inv s =
    (\<forall>t key a ts. cache s t key = Some (a, ts) \<longrightarrow>
        a < length (heap s) \<and> heap s ! a \<noteq> [] \<and> \<not> is_fallback (heap s ! a))"

text \<open>
  What a part of the body of \<open>execute\<close> may do, \<open>n\<close> being the number of times the body
  is entered. It touches neither the executor's counter, nor the sleeps, nor the history;
  clock readings and requests only grow. If it
  raises, heap and cache are as before. If it returns, the result is a new, non-empty
  dictionary at the end of the heap; the cache is as before, or the result is not a
  fallback and has become the entry under the key.
\<close>

definition effect_outcome ::
  "tool \<Rightarrow> string \<Rightarrow> nat \<Rightarrow> world \<Rightarrow> exn + addr \<Rightarrow> world \<Rightarrow> bool" where
  "effect_outcome t key n s r s' =
    (body_runs s' = body_runs s + n \<and> execute_calls s' = execute_calls s
     \<and> sleeps s' = sleeps s \<and> execution_history s' = execution_history s
     \<and> ticks s \<le> ticks s' \<and> net_calls s \<le> net_calls s'
     \<and> (case r of
           Inl e \<Rightarrow> heap s' = heap s \<and> cache s' = cache s
         | Inr a \<Rightarrow>
             a = length (heap s)
             \<and> (\<exists>d. heap s' = heap s @ [d] \<and> d \<noteq> []
                  \<and> (cache s' = cache s
                      \<or> \<not> is_fallback d
                         \<and> (\<exists>now. cache s' = (cache s)(t := (cache s t)(key \<mapsto> (a, now))))))))"

text \<open>
  A call with these parameters gets as far as the provider when the cache misses: the
  search first takes the minimum of \<open>per_page\<close> and 30, which raises for a value that is
  not a number; the weather lookup has no such step.
\<close>

definition reaches_provider :: "tool \<Rightarrow> dict \<Rightarrow> bool" where
  "reaches_provider t kwargs =
    (case t of
       GitHubTool \<Rightarrow>
         (case py_min_30 (dict_get kwargs ''per_page'' (PInt 5)) of
            Inr v \<Rightarrow> True | Inl e \<Rightarrow> False)
     | WeatherTool \<Rightarrow> True)"

text \<open>
  What the whole body does after a miss: it runs once; it returns only if it got as far as
  the provider; and if it got that far, it has sent at least one request.
\<close>

definition miss_outcome ::
  "tool \<Rightarrow> string \<Rightarrow> bool \<Rightarrow> world \<Rightarrow> exn + addr \<Rightarrow> world \<Rightarrow> bool" where
  "miss_outcome t key reach s r s' =
    (effect_outcome t key 1 s r s'
     \<and> (case r of Inl e \<Rightarrow> True | Inr a \<Rightarrow> reach)
     \<and> (if reach then net_calls s < net_calls s' else net_calls s' = net_calls s))"

text \<open>The body of \<open>execute\<close> of a tool.\<close>

definition tool_execute_body :: "tool \<Rightarrow> runtime \<Rightarrow> dict \<Rightarrow> world \<Rightarrow> (exn + addr) \<times> world"
  where
  "tool_execute_body t =
    (case t of GitHubTool \<Rightarrow> github_execute_body | WeatherTool \<Rightarrow> weather_execute_body)"

text \<open>
  Parameters of the types that the rules of the planner produce: \<open>per_page\<close>, if given to
  the search, is an integer (or a Boolean); \<open>city\<close>, if given to the weather lookup, is a
  string. With other types the body of \<open>execute\<close> can raise outside its \<^verbatim>\<open>try\<close> block.
\<close>

definition params_typed :: "tool \<Rightarrow> dict \<Rightarrow> bool" where
  "params_typed t kwargs =
    (case t of
       GitHubTool \<Rightarrow>
         (case map_of kwargs ''per_page'' of
            None \<Rightarrow> True | Some (PInt n) \<Rightarrow> True | Some (PBool b) \<Rightarrow> True | Some v \<Rightarrow> False)
     | WeatherTool \<Rightarrow>
         (case map_of kwargs ''city'' of
            None \<Rightarrow> True | Some (PStr c) \<Rightarrow> True | Some v \<Rightarrow> False))"

definition step_typed :: "dict \<Rightarrow> bool" where
  "step_typed step =
    (case find_tool (dict_get step ''tool'' PNone) of
       Inr (Some t) \<Rightarrow>
         (case dict_get step ''parameters'' (PDict []) of
            PDict kwargs \<Rightarrow> params_typed t kwargs
          | v \<Rightarrow> True)
     | other \<Rightarrow> True)"

text \<open>A search step whose \<open>per_page\<close> is the float 2.5, as a language model may write it.\<close>

definition float_step :: dict where
  "float_step =
    [(''step'', PInt 1),
     (''description'', PStr ''Search GitHub''),
     (''tool'', PStr ''github_tool''),
     (''parameters'', PDict [(''query'', PStr ''python''), (''per_page'', PFloat 2.5)])]"

definition offline_runtime :: runtime where
  "offline_runtime = default_runtime slow_clock offline"

section \<open>Well-formed plans\<close>

text \<open>The text matches the keyword set of a tool.\<close>

definition matches_github :: "string \<Rightarrow> bool" where
  "matches_github text = list_ex (\<lambda>keyword. contains keyword (lower text)) github_keywords"

definition matches_weather :: "string \<Rightarrow> bool" where
  "matches_weather text = list_ex (\<lambda>keyword. contains keyword (lower text)) weather_keywords"

text \<open>
  The step at position \<open>i\<close> (from 0) is well formed: it is a dictionary, its index is
  \<open>i + 1\<close>, its tool is one of the two registered tools, and the parameter that the tool
  requires (\<open>query\<close> for the search, \<open>city\<close> for the weather, as \<open>validate_parameters\<close>
  asks) is in its parameters, as Python's \<^verbatim>\<open>in\<close> tests it.
\<close>

definition valid_step :: "nat \<Rightarrow> pyval \<Rightarrow> bool" where
  "valid_step i step =
    (case step of
       PDict d \<Rightarrow>
         map_of d ''step'' = Some (PInt (int i + 1))
         \<and> (case map_of d ''parameters'' of
              Some params \<Rightarrow>
                (map_of d ''tool'' = Some (PStr ''github_tool'')
                   \<and> py_in ''query'' params = Inr True)
                \<or> (map_of d ''tool'' = Some (PStr ''weather_tool'')
                   \<and> py_in ''city'' params = Inr True)
            | None \<Rightarrow> False)
     | _ \<Rightarrow> False)"

fun valid_steps :: "nat \<Rightarrow> pyval list \<Rightarrow> bool" where
  "valid_steps i [] = True"
| "valid_steps i (step # steps) = (valid_step i step \<and> valid_steps (Suc i) steps)"

text \<open>A plan is well formed when the steps that the executor will draw from it are.\<close>

definition valid_plan :: "dict \<Rightarrow> bool" where
  "valid_plan plan =
    (case py_iter (dict_get plan ''plan'' (PList [])) of
       Inr steps \<Rightarrow> valid_steps 0 steps
     | Inl e \<Rightarrow> False)"

text \<open>The parameters of a step are a dictionary.\<close>

definition mapping_params :: "pyval \<Rightarrow> bool" where
  "mapping_params step =
    (case step of
       PDict d \<Rightarrow> (case map_of d ''parameters'' of Some (PDict kwargs) \<Rightarrow> True | _ \<Rightarrow> False)
     | _ \<Rightarrow> False)"

text \<open>A regular-expression engine that never finds a match, and two replies of a language
  model: none, and a plan without steps.\<close>

definition no_match :: "string \<Rightarrow> string \<Rightarrow> string option" where
  "no_match pattern text = None"

definition no_reply :: "string \<Rightarrow> dict option" where
  "no_reply user_input = None"

definition empty_reply :: "string \<Rightarrow> dict option" where
  "empty_reply user_input = Some [(''plan'', PList [])]"

section \<open>Properties of the verifier\<close>


lemma filter_length_all: "length (filter P xs) = length xs \<longleftrightarrow> list_all P xs"
  unfolding list_all_iff by (metis filter_True length_filter_less nat_neq_iff)

lemma filter_nonempty_ex: "0 < length (filter P xs) \<longleftrightarrow> list_ex P xs"
  by (induction xs) auto

lemma filter_empty_ex: "filter P xs = [] \<longleftrightarrow> \<not> list_ex P xs"
  by (induction xs) auto

lemma llm_verify_results_score:
  "map_of (llm_verify_results user_input plan results) ''completeness_score''
     = Some (PInt (three_level_score results))"
  by (simp add: llm_verify_results_def Let_def three_level_score_def filter_length_all
        filter_nonempty_ex filter_empty_ex)

lemma llm_verify_results_missing_data:
  "map_of (llm_verify_results user_input plan results) ''missing_data'' = Some (PList [])"
  by (simp add: llm_verify_results_def Let_def)

lemma llm_verify_results_suggestions:
  "map_of (llm_verify_results user_input plan results) ''suggestions''
     = Some (if list_all succeeded results then PList [PStr ''All requirements satisfied'']
             else PList [PStr ''Some steps failed''])"
  by (simp add: llm_verify_results_def Let_def filter_length_all)

lemma format_result_total: "data_ok r \<Longrightarrow> \<exists>xs. format_result r = Inr xs"
  by (cases "dict_get r ''data'' (PDict [])") (auto simp: format_result_def data_ok_def)

lemma format_results_total:
  "list_all data_ok rs \<Longrightarrow> \<exists>xs. format_results rs = Inr xs"
proof (induction rs)
  case Nil
  show ?case by simp
next
  case (Cons r rs)
  then obtain ys where ys: "format_results rs = Inr ys" by auto
  from Cons.prems have "data_ok r" by simp
  then obtain xs where "format_result r = Inr xs"
    using format_result_total by blast
  with ys show ?case by simp
qed

lemma verify_results_all_failed:
  "\<not> list_ex succeeded results \<Longrightarrow>
     verify_results t_exec t_stamp user_input plan results
       = Inr (handle_all_failed results user_input)"
proof -
  assume none: "\<not> list_ex succeeded results"
  then have "filter succeeded results = []" by (simp add: filter_empty_ex)
  moreover from none have "filter (\<lambda>r. \<not> succeeded r) results = results"
    by (induction results) auto
  ultimately show ?thesis by (simp add: verify_results_def)
qed

lemma verify_results_total:
  assumes "plan_sized plan" and "list_all data_ok (filter succeeded results)"
  shows "\<exists>report. verify_results t_exec t_stamp user_input plan results = Inr report"
proof -
  from assms(2) obtain xs where "format_results (filter succeeded results) = Inr xs"
    using format_results_total by blast
  moreover from assms(1) obtain n where "py_len (dict_get plan ''plan'' (PList [])) = Inr n"
    by (auto simp: plan_sized_def split: sum.splits)
  ultimately show ?thesis
    by (simp add: verify_results_def Let_def build_final_output_def)
qed

lemma verify_results_some_succeeded:
  assumes "list_ex succeeded results"
    and "verify_results t_exec t_stamp user_input plan results = Inr report"
  shows "\<exists>final_output summary.
     report = [(''verification'', PDict (llm_verify_results user_input plan results)),
               (''final_output'', PDict final_output), (''summary'', PDict summary)]
     \<and> map_of final_output ''verification'' = Some (PDict
         [(''is_complete'',
             dict_get (llm_verify_results user_input plan results) ''is_complete'' (PBool False)),
          (''score'',
             dict_get (llm_verify_results user_input plan results) ''completeness_score'' (PInt 0)),
          (''issues'',
             dict_get (llm_verify_results user_input plan results) ''missing_data'' (PList [])),
          (''suggestions'',
             dict_get (llm_verify_results user_input plan results) ''suggestions'' (PList []))])
     \<and> map_of final_output ''errors'' = None"
proof -
  from assms(1) have ne: "filter succeeded results \<noteq> []" by (simp add: filter_empty_ex)
  from assms(2) ne show ?thesis
    by (auto simp: verify_results_def Let_def build_final_output_def split: sum.splits)
qed


subsection \<open>The completeness score\<close>

text \<open>
  Claim C1, as amended. The completeness score of every report that \<open>verify_results\<close>
  returns is one of three levels: 100 when there is at least one result and all succeeded,
  50 when some but not all succeeded, 0 when none succeeded or there are no results. It is
  not the percentage of successful results. A report is returned whenever the steps of the
  plan can be counted and every successful result of a tool carries a dictionary as data.
\<close>

theorem verify_results_completeness_score:
  "(\<forall>report. verify_results t_exec t_stamp user_input plan results = Inr report \<longrightarrow>
       report_path (PDict report) [''verification'', ''completeness_score'']
         = Some (PInt (three_level_score results)))
   \<and> (plan_sized plan \<and> list_all data_ok (filter succeeded results) \<longrightarrow>
       (\<exists>report. verify_results t_exec t_stamp user_input plan results = Inr report))"
proof (intro conjI allI impI)
  fix report
  assume r: "verify_results t_exec t_stamp user_input plan results = Inr report"
  show "report_path (PDict report) [''verification'', ''completeness_score'']
         = Some (PInt (three_level_score results))"
  proof (cases "list_ex succeeded results")
    case True
    from verify_results_some_succeeded[OF True r] show ?thesis
      by (auto simp: llm_verify_results_score)
  next
    case False
    with r have "report = handle_all_failed results user_input"
      by (simp add: verify_results_all_failed)
    moreover from False have "three_level_score results = 0"
      by (auto simp: three_level_score_def list_ex_iff list_all_iff)
    ultimately show ?thesis by (simp add: handle_all_failed_def)
  qed
next
  assume "plan_sized plan \<and> list_all data_ok (filter succeeded results)"
  then show "\<exists>report. verify_results t_exec t_stamp user_input plan results = Inr report"
    using verify_results_total by blast
qed

lemma ex_succ [simp]: "succeeded example_success" "\<not> succeeded example_failure"
  by (simp_all add: succeeded_def example_success_def example_failure_def dict_get_def)

text \<open>One success and one failure: the score is 50.\<close>

theorem verify_results_completeness_score_witness:
  "report_score (verify_results 1 2 ''find repos'' example_plan [example_success, example_failure]) = Some 50
   \<and> plan_sized example_plan
   \<and> list_all data_ok (filter succeeded [example_success, example_failure])
   \<and> three_level_score [example_success, example_failure] = 50"
proof -
  have a: "plan_sized example_plan"
    by (simp add: plan_sized_def example_plan_def dict_get_def)
  have b: "list_all data_ok (filter succeeded [example_success, example_failure])"
    by (simp add: data_ok_def example_success_def dict_get_def)
  have c: "three_level_score [example_success, example_failure] = 50"
    by (simp add: three_level_score_def)
  from verify_results_completeness_score[of 1 2 "''find repos''" example_plan
      "[example_success, example_failure]"] a b c
  show ?thesis by (auto simp: report_score_def)
qed

text \<open>
  Claim C1 as stated fails: with one success among four results the report says 50, and
  the rule of the specification gives 25.
\<close>

theorem completeness_score_counterexample:
  "report_score (verify_results 1 2 ''find repos'' example_plan
       [example_success, example_failure, example_failure, example_failure]) = Some 50
   \<and> spec_completeness_score
       [example_success, example_failure, example_failure, example_failure] = 25"
proof -
  have "report_score (verify_results 1 2 ''find repos'' example_plan
       [example_success, example_failure, example_failure, example_failure]) = Some 50"
    by (simp add: report_score_def verify_results_def Let_def build_final_output_def
        format_result_def llm_verify_results_def example_plan_def dict_get_def
        example_success_def example_failure_def succeeded_def)
  moreover have "spec_completeness_score
       [example_success, example_failure, example_failure, example_failure] = 25"
    by (simp add: spec_completeness_score_def example_success_def example_failure_def
        succeeded_def dict_get_def)
  ultimately show ?thesis by simp
qed

subsection \<open>Issues and suggestions\<close>

lemma issues_all_failed:
  assumes none: "\<not> list_ex succeeded results"
  shows "\<exists>report. verify_results t_exec t_stamp user_input plan results = Inr report
        \<and> report_path (PDict report) [''verification'', ''missing_data'']
            = Some (PList [PStr ''All execution steps failed''])
        \<and> report_path (PDict report) [''final_output'', ''errors'']
            = Some (PList (map (\<lambda>r. dict_get r ''error'' (PStr ''Unknown error'')) results))
        \<and> report_path (PDict report) [''verification'', ''suggestions'']
            = Some (PList [PStr ''Check API availability'', PStr ''Verify parameters'',
                 PStr ''Try different tools''])
        \<and> report_path (PDict report) [''final_output'', ''suggestions'']
            = Some (PList [PStr ''Try rephrasing your request'',
                 PStr ''Check if the requested information is available'',
                 PStr ''Try a simpler request first''])"
proof -
  have "verify_results t_exec t_stamp user_input plan results
          = Inr (handle_all_failed results user_input)"
    using none by (rule verify_results_all_failed)
  then show ?thesis by (simp add: handle_all_failed_def)
qed

lemma issues_some_succeeded:
  assumes some: "list_ex succeeded results"
    and r: "verify_results t_exec t_stamp user_input plan results = Inr report"
  shows "report_path (PDict report) [''final_output'', ''verification'', ''issues'']
            = Some (PList [])
        \<and> report_path (PDict report) [''verification'', ''missing_data''] = Some (PList [])
        \<and> report_path (PDict report) [''final_output'', ''errors''] = None
        \<and> report_path (PDict report) [''final_output'', ''verification'', ''suggestions'']
            = Some (if list_all succeeded results
                    then PList [PStr ''All requirements satisfied'']
                    else PList [PStr ''Some steps failed''])"
proof -
  from verify_results_some_succeeded[OF some r] obtain final_output summary where
    rep: "report = [(''verification'', PDict (llm_verify_results user_input plan results)),
               (''final_output'', PDict final_output), (''summary'', PDict summary)]"
    and fo: "map_of final_output ''verification'' = Some (PDict
         [(''is_complete'',
             dict_get (llm_verify_results user_input plan results) ''is_complete'' (PBool False)),
          (''score'',
             dict_get (llm_verify_results user_input plan results) ''completeness_score'' (PInt 0)),
          (''issues'',
             dict_get (llm_verify_results user_input plan results) ''missing_data'' (PList [])),
          (''suggestions'',
             dict_get (llm_verify_results user_input plan results) ''suggestions'' (PList []))])"
    and noerr: "map_of final_output ''errors'' = None"
    by blast
  show ?thesis
    using rep fo noerr
    by (simp add: dict_get_def llm_verify_results_missing_data llm_verify_results_suggestions)
qed

text \<open>
  Claim C6, as amended. When no result succeeded, a report is returned whose
  \<open>missing_data\<close> is the single marker \<open>All execution steps failed\<close>, whose separate list
  \<open>errors\<close> holds the error text of every result in order (\<open>Unknown error\<close> where a result
  has none), and whose two suggestion lists are fixed. When at least one result succeeded,
  the issues of every report returned are empty, the report has no list of errors, and the
  suggestions are \<open>All requirements satisfied\<close> when all succeeded and \<open>Some steps failed\<close>
  otherwise.
\<close>

theorem verify_results_issues:
  "(\<not> list_ex succeeded results \<longrightarrow>
      (\<exists>report. verify_results t_exec t_stamp user_input plan results = Inr report
        \<and> report_path (PDict report) [''verification'', ''missing_data'']
            = Some (PList [PStr ''All execution steps failed''])
        \<and> report_path (PDict report) [''final_output'', ''errors'']
            = Some (PList (map (\<lambda>r. dict_get r ''error'' (PStr ''Unknown error'')) results))
        \<and> report_path (PDict report) [''verification'', ''suggestions'']
            = Some (PList [PStr ''Check API availability'', PStr ''Verify parameters'',
                 PStr ''Try different tools''])
        \<and> report_path (PDict report) [''final_output'', ''suggestions'']
            = Some (PList [PStr ''Try rephrasing your request'',
                 PStr ''Check if the requested information is available'',
                 PStr ''Try a simpler request first''])))
   \<and> (list_ex succeeded results \<longrightarrow>
      (\<forall>report. verify_results t_exec t_stamp user_input plan results = Inr report \<longrightarrow>
          report_path (PDict report) [''final_output'', ''verification'', ''issues'']
            = Some (PList [])
        \<and> report_path (PDict report) [''verification'', ''missing_data''] = Some (PList [])
        \<and> report_path (PDict report) [''final_output'', ''errors''] = None
        \<and> report_path (PDict report) [''final_output'', ''verification'', ''suggestions'']
            = Some (if list_all succeeded results
                    then PList [PStr ''All requirements satisfied'']
                    else PList [PStr ''Some steps failed''])))"
  using issues_all_failed[of results t_exec t_stamp user_input plan]
    issues_some_succeeded[of results t_exec t_stamp user_input plan]
  by blast

text \<open>A partial run and a run in which both steps failed.\<close>

theorem verify_results_issues_witness:
  "list_ex succeeded [example_success, example_failure]
   \<and> \<not> list_ex succeeded [example_failure, example_failure]
   \<and> (\<exists>report. verify_results 1 2 ''find repos'' example_plan [example_success, example_failure] = Inr report
      \<and> report_path (PDict report) [''final_output'', ''verification'', ''issues''] = Some (PList []))
   \<and> (\<exists>report. verify_results 1 2 ''find repos'' example_plan [example_failure, example_failure] = Inr report
      \<and> report_path (PDict report) [''final_output'', ''errors'']
            = Some (PList [dict_get example_failure ''error'' PNone, dict_get example_failure ''error'' PNone]))"
proof -
  have a: "list_ex succeeded [example_success, example_failure]" by simp
  have b: "\<not> list_ex succeeded [example_failure, example_failure]" by simp
  have c: "\<exists>report. verify_results 1 2 ''find repos'' example_plan [example_success, example_failure] = Inr report"
    by (rule verify_results_total) (simp_all add: plan_sized_def example_plan_def dict_get_def data_ok_def example_success_def)
  from a c verify_results_issues[of "[example_success, example_failure]" 1 2 "''find repos''" example_plan]
  have d: "\<exists>report. verify_results 1 2 ''find repos'' example_plan [example_success, example_failure] = Inr report
      \<and> report_path (PDict report) [''final_output'', ''verification'', ''issues''] = Some (PList [])"
    by blast
  from b verify_results_issues[of "[example_failure, example_failure]" 1 2 "''find repos''" example_plan]
  have e: "\<exists>report. verify_results 1 2 ''find repos'' example_plan [example_failure, example_failure] = Inr report
      \<and> report_path (PDict report) [''final_output'', ''errors'']
            = Some (PList [dict_get example_failure ''error'' PNone, dict_get example_failure ''error'' PNone])"
    by (auto simp: example_failure_def dict_get_def)
  from a b d e show ?thesis by blast
qed

text \<open>
  Claim C6 as stated fails: after one success and one failure the issues are empty, while
  the specification lists the error text of the failed step.
\<close>

theorem issues_counterexample:
  "report_issues (verify_results 1 2 ''find repos'' example_plan
       [example_success, example_failure]) = Some (PList [])
   \<and> spec_issues [example_success, example_failure]
       = [PStr (''Tool '' @ [CHR 0x27] @ ''mail_tool'' @ [CHR 0x27] @ '' not found'')]"
  by (simp add: report_issues_def verify_results_def Let_def build_final_output_def
        format_result_def llm_verify_results_def example_plan_def dict_get_def
        example_success_def example_failure_def succeeded_def spec_issues_def)

section \<open>Properties of the cache\<close>

subsection \<open>The cache key\<close>

lemma filter_key_distinct:
  "distinct (map f xs) \<Longrightarrow> k \<in> set xs \<Longrightarrow> filter (\<lambda>x. f k = f x) xs = [k]"
proof (induction xs)
  case Nil
  then show ?case by simp
next
  case (Cons x xs)
  show ?case
  proof (cases "k = x")
    case True
    with Cons.prems have "\<forall>y\<in>set xs. f x \<noteq> f y" by auto
    then have "filter (\<lambda>y. f x = f y) xs = []" by (simp add: filter_empty_conv)
    with True show ?thesis by simp
  next
    case False
    with Cons.prems have kxs: "k \<in> set xs" by auto
    with Cons.prems have ne: "f k \<noteq> f x"
      by (metis distinct.simps(2) image_eqI list.simps(9) set_map)
    from Cons.prems have "distinct (map f xs)" by simp
    then have "filter (\<lambda>x. f k = f x) xs = [k]" using kxs by (rule Cons.IH)
    with ne show ?thesis by simp
  qed
qed

lemma sort_key_permutation:
  assumes "distinct (map f xs)" and "mset xs = mset ys"
  shows "sort_key f xs = sort_key f ys"
proof (rule properties_for_sort_key)
  show "mset (sort_key f ys) = mset xs" using assms(2) by simp
  show "sorted (map f (sort_key f ys))" by simp
  fix k assume "k \<in> set (sort_key f ys)"
  then have kys: "k \<in> set ys" by simp
  then have kxs: "k \<in> set xs" using assms(2) by (metis mset_eq_setD)
  have "mset (map f xs) = mset (map f ys)" using assms(2) by simp
  with assms(1) have dys: "distinct (map f ys)" by (metis mset_eq_imp_distinct_iff)
  then have "distinct (map f (sort_key f ys))" by (simp add: distinct_map)
  then have "filter (\<lambda>x. f k = f x) (sort_key f ys) = [k]"
    using \<open>k \<in> set (sort_key f ys)\<close> by (rule filter_key_distinct)
  moreover have "filter (\<lambda>x. f k = f x) xs = [k]"
    using assms(1) kxs by (rule filter_key_distinct)
  ultimately show "filter (\<lambda>x. f k = f x) (sort_key f ys) = filter (\<lambda>x. f k = f x) xs"
    by simp
qed

text \<open>
  Claim C8. Two parameter dictionaries with the same key/value pairs, inserted in any
  order, have the same cache key. The key is a function of the parameters alone (and of
  the fixed library functions): it reads neither the clock nor the world, so the same
  dictionary always has the same key.
\<close>

theorem get_cache_key_order_independent:
  assumes "distinct (map fst P1)" and "mset P1 = mset P2"
  shows "get_cache_key rt P1 = get_cache_key rt P2"
  using sort_key_permutation[OF assms, of ] by (simp add: get_cache_key_def)

theorem get_cache_key_order_independent_witness:
  "distinct (map fst python_query)
   \<and> mset python_query = mset (rev python_query)
   \<and> python_query \<noteq> rev python_query
   \<and> get_cache_key (default_runtime slow_clock offline) python_query
       = get_cache_key (default_runtime slow_clock offline) (rev python_query)"
proof -
  have a: "distinct (map fst python_query)" by (simp add: python_query_def)
  have b: "mset python_query = mset (rev python_query)" by simp
  have c: "python_query \<noteq> rev python_query" by (simp add: python_query_def)
  from get_cache_key_order_independent[OF a b] a b c show ?thesis by blast
qed

subsection \<open>Freshness\<close>

lemma cache_result_entry:
  "cache (cache_result rt t key a s) t key = Some (a, clock rt (ticks s))"
  by (simp add: cache_result_def time_time_def)

lemma dict_set_lookup: "map_of (dict_set d k v) k = Some v"
  by (simp add: dict_set_def update_conv')

text \<open>
  Claim C7. Let a result be stored under a key when the clock reads \<open>T\<close>, and let the
  cache be read under that key, the entry not overwritten, when the clock reads \<open>T'\<close>.
  Then \<open>get_cached_result\<close> hands out the stored result if \<open>T' - T < cache_ttl\<close> and
  nothing otherwise. In the first case \<open>execute\<close> marks the result (a dictionary that is
  not empty) as cached and returns it; in the second it goes on to the provider.
\<close>

theorem cache_freshness:
  assumes stored: "s1 = cache_result rt t key a s0"
    and kept: "cache s2 t key = cache s1 t key"
  shows "fst (get_cached_result rt t key s2)
           = (if clock rt (ticks s2) - clock rt (ticks s0) < cache_ttl then Some a else None)
    \<and> (clock rt (ticks s2) - clock rt (ticks s0) < cache_ttl \<and> a < length (heap s2)
          \<and> heap s2 ! a \<noteq> [] \<longrightarrow>
        (\<exists>s3. cache_lookup rt t key s2 = (Some a, s3)
           \<and> map_of (heap s3 ! a) ''cached'' = Some (PBool True)))
    \<and> (\<not> clock rt (ticks s2) - clock rt (ticks s0) < cache_ttl \<longrightarrow>
        fst (cache_lookup rt t key s2) = None)"
proof -
  from stored kept have entry: "cache s2 t key = Some (a, clock rt (ticks s0))"
    by (simp add: cache_result_entry)
  then show ?thesis
    by (auto simp: get_cached_result_def cache_lookup_def time_time_def heap_set_def
        dict_set_lookup)
qed

text \<open>
  A result stored at clock reading 1000 is handed out at reading 1100 and is not handed
  out at reading 1300, exactly \<open>cache_ttl\<close> later.
\<close>

theorem cache_freshness_witness:
  "fst (get_cached_result (default_runtime slow_clock offline) GitHubTool ''key''
         (cache_result (default_runtime slow_clock offline) GitHubTool ''key'' 0 fresh_world))
     = Some 0
   \<and> (\<exists>s3. cache_lookup (default_runtime slow_clock offline) GitHubTool ''key''
         (cache_result (default_runtime slow_clock offline) GitHubTool ''key'' 0 fresh_world)
          = (Some 0, s3) \<and> map_of (heap s3 ! 0) ''cached'' = Some (PBool True))
   \<and> fst (get_cached_result (default_runtime slow_clock offline) GitHubTool ''key''
         ((cache_result (default_runtime slow_clock offline) GitHubTool ''key'' 0 fresh_world)
            \<lparr>ticks := 3\<rparr>))
     = None
   \<and> fst (cache_lookup (default_runtime slow_clock offline) GitHubTool ''key''
         ((cache_result (default_runtime slow_clock offline) GitHubTool ''key'' 0 fresh_world)
            \<lparr>ticks := 3\<rparr>))
     = None"
proof -
  let ?rt = "default_runtime slow_clock offline"
  let ?s1 = "cache_result ?rt GitHubTool ''key'' 0 fresh_world"
  have t0: "ticks fresh_world = 0" "ticks ?s1 = 1"
    by (simp_all add: fresh_world_def init_world_def cache_result_def time_time_def)
  have h: "0 < length (heap ?s1)" "heap ?s1 ! 0 \<noteq> []"
    by (simp_all add: fresh_world_def init_world_def cache_result_def time_time_def
        example_success_def)
  have c: "clock ?rt 0 = 1000" "clock ?rt 1 = 1100" "clock ?rt 3 = 1300"
    by (simp_all add: default_runtime_def slow_clock_def)
  from cache_freshness[of ?s1 ?rt GitHubTool "''key''" 0 fresh_world ?s1]
  have "fst (get_cached_result ?rt GitHubTool ''key'' ?s1) = Some 0
    \<and> (\<exists>s3. cache_lookup ?rt GitHubTool ''key'' ?s1 = (Some 0, s3)
          \<and> map_of (heap s3 ! 0) ''cached'' = Some (PBool True))"
    using t0 c h by (simp add: cache_ttl_def)
  moreover
  from cache_freshness[of ?s1 ?rt GitHubTool "''key''" 0 fresh_world "?s1\<lparr>ticks := 3\<rparr>"]
  have "fst (get_cached_result ?rt GitHubTool ''key'' (?s1\<lparr>ticks := 3\<rparr>)) = None
    \<and> fst (cache_lookup ?rt GitHubTool ''key'' (?s1\<lparr>ticks := 3\<rparr>)) = None"
    using t0 c by (simp add: cache_ttl_def)
  ultimately show ?thesis by simp
qed

subsection \<open>Answers from the cache\<close>

lemma retry_on_failure_first:
  assumes "func s = (Inr r, s1)" and "0 < n"
  shows "retry_on_failure n d func s = (Inr (Some r), s1)"
proof -
  from assms(2) have "[0..<n] = 0 # [1..<n]" by (simp add: upt_rec)
  with assms(1) show ?thesis by (simp add: retry_on_failure_def)
qed

lemma cache_lookup_hit:
  assumes "cache s t key = Some (a, ts)" and "clock rt (ticks s) - ts < cache_ttl"
    and "heap s ! a \<noteq> []"
  shows "cache_lookup rt t key s
           = (Some a, heap_set a ''cached'' (PBool True) (s\<lparr>ticks := Suc (ticks s)\<rparr>))"
  using assms by (simp add: cache_lookup_def get_cached_result_def time_time_def)

lemma tool_execute_hit:
  assumes "cache s t (get_cache_key rt kwargs) = Some (a, ts)"
    and "clock rt (ticks s) - ts < cache_ttl"
    and "heap s ! a \<noteq> []"
  shows "tool_execute t rt kwargs s = (Inr (Some a), hit_world a s)"
proof -
  let ?s0 = "s\<lparr>body_runs := Suc (body_runs s)\<rparr>"
  have "cache_lookup rt t (get_cache_key rt kwargs) ?s0
          = (Some a, heap_set a ''cached'' (PBool True) (?s0\<lparr>ticks := Suc (ticks ?s0)\<rparr>))"
    using assms by (intro cache_lookup_hit) simp_all
  then have look: "cache_lookup rt t (get_cache_key rt kwargs) ?s0 = (Some a, hit_world a s)"
    by (simp add: hit_world_def)
  show ?thesis
  proof (cases t)
    case GitHubTool
    with look have "github_execute_body rt kwargs s = (Inr a, hit_world a s)"
      by (simp add: github_execute_body_def Let_def)
    then show ?thesis using GitHubTool
      by (simp add: tool_execute_def github_execute_def retry_on_failure_first)
  next
    case WeatherTool
    with look have "weather_execute_body rt kwargs s = (Inr a, hit_world a s)"
      by (simp add: weather_execute_body_def Let_def)
    then show ?thesis using WeatherTool
      by (simp add: tool_execute_def weather_execute_def retry_on_failure_first)
  qed
qed

lemma hit_world_simps:
  "net_calls (hit_world a s) = net_calls s"
  "cache (hit_world a s) = cache s"
  "body_runs (hit_world a s) = Suc (body_runs s)"
  "execute_calls (hit_world a s) = execute_calls s"
  "length (heap (hit_world a s)) = length (heap s)"
  "a < length (heap s) \<Longrightarrow> heap (hit_world a s) ! a = dict_set (heap s ! a) ''cached'' (PBool True)"
  by (simp_all add: hit_world_def heap_set_def)

text \<open>
  Claim C3, as amended. Let the cache of a tool hold, under the key of the parameters, an
  entry that has not expired and that refers to a result in the heap (a dictionary that is
  not empty, as every stored result is). Then \<open>execute\<close> returns that result, the body runs
  once, and no request is sent: \<open>net_calls\<close> is unchanged. The only mark of the hit is the
  field \<open>cached = True\<close> written into the result. Every other field is as stored: the data
  and the \<open>source\<close> inside it keep the value of the live call, and no \<open>source\<close> of the result
  itself is written.
\<close>

theorem execute_cache_hit:
  assumes "cache s t (get_cache_key rt kwargs) = Some (a, ts)"
    and "clock rt (ticks s) - ts < cache_ttl"
    and "a < length (heap s)"
    and "heap s ! a \<noteq> []"
  shows "\<exists>s'. tool_execute t rt kwargs s = (Inr (Some a), s')
           \<and> heap s' ! a = dict_set (heap s ! a) ''cached'' (PBool True)
           \<and> map_of (heap s' ! a) ''cached'' = Some (PBool True)
           \<and> map_of (heap s' ! a) ''data'' = map_of (heap s ! a) ''data''
           \<and> map_of (heap s' ! a) ''source'' = map_of (heap s ! a) ''source''
           \<and> net_calls s' = net_calls s
           \<and> body_runs s' = Suc (body_runs s)"
  using tool_execute_hit[OF assms(1,2,4)] assms(3)
  by (simp add: hit_world_simps dict_set_lookup dict_set_def update_conv')

text \<open>The definitions that a concrete run of the search step unfolds.\<close>

lemmas eval_defs = tool_execute_def github_execute_def retry_on_failure_def github_execute_body_def
  cache_lookup_def get_cached_result_def init_world_def github_try_def requests_get_def
  github_payload_def format_response_def time_time_def alloc_def cache_result_def
  py_min_30.simps dict_get_def exn_bind_def Let_def upt_rec
  execute_step_def attempt_step_def heap_set_def dict_set_def tool_validate_parameters_def
  github_validate_parameters_def has_key_def
  search_runtime_def default_runtime_def empty_search_def slow_clock_def
  python_query_def search_step_def

lemma after_search_facts:
  "cache after_search GitHubTool (get_cache_key search_runtime python_query) = Some (0, 1100)"
  "ticks after_search = 3"
  "length (heap after_search) = 1"
  "net_calls after_search = 1"
  "heap after_search ! 0 =
     [(''success'', PBool True),
      (''data'', PDict [(''query'', PStr ''python''), (''repositories'', PList []),
         (''total_count'', PInt 0), (''count'', PInt 0), (''source'', PStr ''github_api'')]),
      (''error'', PNone),
      (''timestamp'', PFloat 1000),
      (''step'', PInt 1),
      (''tool'', PStr ''github_tool'')]"
  by (simp_all add: after_search_def eval_defs)

text \<open>The second search, 100 seconds after the first result was stored.\<close>

theorem execute_cache_hit_witness:
  "cache after_search GitHubTool (get_cache_key search_runtime python_query) = Some (0, 1100)
   \<and> clock search_runtime (ticks after_search) - 1100 < cache_ttl
   \<and> 0 < length (heap after_search)
   \<and> heap after_search ! 0 \<noteq> []
   \<and> (\<exists>s'. tool_execute GitHubTool search_runtime python_query after_search = (Inr (Some 0), s')
           \<and> map_of (heap s' ! 0) ''cached'' = Some (PBool True)
           \<and> map_of (heap s' ! 0) ''data'' = map_of (heap after_search ! 0) ''data''
           \<and> net_calls s' = 1)"
proof -
  have a: "cache after_search GitHubTool (get_cache_key search_runtime python_query)
             = Some (0, 1100)"
    by (rule after_search_facts)
  have b: "clock search_runtime (ticks after_search) - 1100 < cache_ttl"
    by (simp add: after_search_facts search_runtime_def default_runtime_def slow_clock_def
        cache_ttl_def)
  have c: "0 < length (heap after_search)" by (simp add: after_search_facts)
  have d: "heap after_search ! 0 \<noteq> []" by (simp add: after_search_facts)
  from execute_cache_hit[OF a b c d] obtain s' where
    "tool_execute GitHubTool search_runtime python_query after_search = (Inr (Some 0), s')"
    "map_of (heap s' ! 0) ''cached'' = Some (PBool True)"
    "map_of (heap s' ! 0) ''data'' = map_of (heap after_search ! 0) ''data''"
    "net_calls s' = net_calls after_search"
    by blast
  with a b c d show ?thesis by (auto simp: after_search_facts)
qed

text \<open>
  Claim C3 as stated fails: the result that the second search returns from the cache is
  tagged \<open>cached = True\<close>, but its source is still \<open>github_api\<close>, the source of the live call,
  and it has no source field of its own; nothing in it says \<open>source = cached\<close>.
\<close>

theorem source_tag_counterexample:
  "fst (tool_execute GitHubTool search_runtime python_query after_search) = Inr (Some 0)
   \<and> net_calls after_hit = net_calls after_search
   \<and> map_of (heap after_hit ! 0) ''cached'' = Some (PBool True)
   \<and> report_path (PDict (heap after_hit ! 0)) [''data'', ''source'']
        = Some (PStr ''github_api'')
   \<and> map_of (heap after_hit ! 0) ''source'' = None
   \<and> PStr ''github_api'' \<noteq> PStr ''cached''"
proof -
  have a: "cache after_search GitHubTool (get_cache_key search_runtime python_query)
             = Some (0, 1100)"
    by (rule after_search_facts)
  have b: "clock search_runtime (ticks after_search) - 1100 < cache_ttl"
    by (simp add: after_search_facts search_runtime_def default_runtime_def slow_clock_def
        cache_ttl_def)
  have d: "heap after_search ! 0 \<noteq> []" by (simp add: after_search_facts)
  have run: "tool_execute GitHubTool search_runtime python_query after_search
      = (Inr (Some 0), hit_world 0 after_search)"
    using a b d by (rule tool_execute_hit)
  then have h: "after_hit = hit_world 0 after_search" by (simp add: after_hit_def)
  have "heap after_hit ! 0 = dict_set (heap after_search ! 0) ''cached'' (PBool True)"
    unfolding h by (simp add: hit_world_simps after_search_facts)
  then have "heap after_hit ! 0 =
     [(''success'', PBool True),
      (''data'', PDict [(''query'', PStr ''python''), (''repositories'', PList []),
         (''total_count'', PInt 0), (''count'', PInt 0), (''source'', PStr ''github_api'')]),
      (''error'', PNone),
      (''timestamp'', PFloat 1000),
      (''step'', PInt 1),
      (''tool'', PStr ''github_tool''),
      (''cached'', PBool True)]"
    by (simp add: after_search_facts dict_set_def)
  moreover have "net_calls after_hit = net_calls after_search"
    unfolding h by (simp add: hit_world_simps)
  moreover from run have "fst (tool_execute GitHubTool search_runtime python_query
      after_search) = Inr (Some 0)" by simp
  ultimately show ?thesis by simp
qed

subsection \<open>The cache shares its results with the callers\<close>

lemma find_tool_name: "find_tool (PStr (tool_name t)) = Inr (Some t)"
  by (cases t) (simp_all add: tool_name_def)

lemma attempt_step_hit:
  assumes "cache s t (get_cache_key rt kwargs) = Some (a, ts)"
    and "clock rt (ticks s) - ts < cache_ttl"
    and "heap s ! a \<noteq> []"
    and "map_of step ''step'' = Some step_no"
  shows "\<exists>s'. attempt_step rt step t nm kwargs s = (Inr a, s')
           \<and> heap s' = heap (heap_set a ''tool'' nm (heap_set a ''step'' step_no
                  (hit_world a s)))
           \<and> cache s' = cache s \<and> net_calls s' = net_calls s"
proof -
  let ?s0 = "s\<lparr>execute_calls := Suc (execute_calls s)\<rparr>"
  have "tool_execute t rt kwargs ?s0 = (Inr (Some a), hit_world a ?s0)"
    using assms(1-3) by (intro tool_execute_hit) simp_all
  then show ?thesis using assms(4)
    by (simp add: attempt_step_def time_time_def heap_set_def hit_world_def)
qed

lemma execute_step_hit:
  assumes "cache s t (get_cache_key rt kwargs) = Some (a, ts)"
    and "clock rt (ticks s) - ts < cache_ttl"
    and "heap s ! a \<noteq> []"
    and "map_of step ''step'' = Some step_no"
    and "dict_get step ''tool'' PNone = PStr (tool_name t)"
    and "dict_get step ''parameters'' (PDict []) = PDict kwargs"
    and "tool_validate_parameters t kwargs"
    and "0 < MAX_RETRIES rt"
  shows "\<exists>s'. execute_step rt step s = (Inr a, s')
           \<and> heap s' = heap (heap_set a ''tool'' (PStr (tool_name t))
                  (heap_set a ''step'' step_no (hit_world a s)))
           \<and> cache s' = cache s \<and> net_calls s' = net_calls s"
proof -
  from attempt_step_hit[OF assms(1-4)] obtain s' where
    s': "attempt_step rt step t (PStr (tool_name t)) kwargs s = (Inr a, s')"
      "heap s' = heap (heap_set a ''tool'' (PStr (tool_name t))
                  (heap_set a ''step'' step_no (hit_world a s)))"
      "cache s' = cache s" "net_calls s' = net_calls s"
    by blast
  from assms(8) have "[0..<MAX_RETRIES rt] = 0 # [1..<MAX_RETRIES rt]" by (simp add: upt_rec)
  moreover have "find_tool (dict_get step ''tool'' PNone) = Inr (Some t)"
    using assms(5) by (simp only: find_tool_name)
  ultimately show ?thesis using s' assms(5,6,7)
    by (simp add: execute_step_def Let_def del: find_tool.simps)
qed

lemma dict_set_changes:
  "map_of d k \<noteq> Some v \<Longrightarrow> dict_set d k v \<noteq> d"
  by (metis dict_set_lookup)

lemma dict_set_other: "k' \<noteq> k \<Longrightarrow> map_of (dict_set d k v) k' = map_of d k'"
  by (simp add: dict_set_def update_conv')

text \<open>
  Claim C10. Reading the cache is not free of side effects. \<open>get_cached_result\<close> hands
  out the reference that the cache holds, not a copy. So on a hit \<open>execute\<close> returns the
  very object of the entry and writes \<open>cached = True\<close> into it, and the executor then
  writes the step number and the tool name into it: after \<open>execute\<close>, and after
  \<open>execute_step\<close>, the entry still refers to that object, whose content is no longer what
  it was before the call.
\<close>

theorem cache_hit_shares_result:
  assumes "cache s t (get_cache_key rt kwargs) = Some (a, ts)"
    and "clock rt (ticks s) - ts < cache_ttl"
    and "a < length (heap s)"
    and "heap s ! a \<noteq> []"
    and "map_of (heap s ! a) ''cached'' \<noteq> Some (PBool True)"
    and "map_of step ''step'' = Some step_no"
    and "dict_get step ''tool'' PNone = PStr (tool_name t)"
    and "dict_get step ''parameters'' (PDict []) = PDict kwargs"
    and "tool_validate_parameters t kwargs"
    and "0 < MAX_RETRIES rt"
  shows "(\<exists>s'. tool_execute t rt kwargs s = (Inr (Some a), s')
            \<and> cache s' t (get_cache_key rt kwargs) = Some (a, ts)
            \<and> heap s' ! a = dict_set (heap s ! a) ''cached'' (PBool True)
            \<and> heap s' ! a \<noteq> heap s ! a)
      \<and> (\<exists>s'. execute_step rt step s = (Inr a, s')
            \<and> cache s' t (get_cache_key rt kwargs) = Some (a, ts)
            \<and> heap s' ! a = dict_set (dict_set (dict_set (heap s ! a)
                   ''cached'' (PBool True)) ''step'' step_no) ''tool'' (PStr (tool_name t))
            \<and> heap s' ! a \<noteq> heap s ! a)"
proof (rule conjI)
  have "tool_execute t rt kwargs s = (Inr (Some a), hit_world a s)"
    using assms(1,2,4) by (rule tool_execute_hit)
  moreover have "dict_set (heap s ! a) ''cached'' (PBool True) \<noteq> heap s ! a"
    using assms(5) by (rule dict_set_changes)
  ultimately show "\<exists>s'. tool_execute t rt kwargs s = (Inr (Some a), s')
            \<and> cache s' t (get_cache_key rt kwargs) = Some (a, ts)
            \<and> heap s' ! a = dict_set (heap s ! a) ''cached'' (PBool True)
            \<and> heap s' ! a \<noteq> heap s ! a"
    using assms(1,3) by (simp add: hit_world_simps)
next
  let ?d = "dict_set (dict_set (dict_set (heap s ! a)
                   ''cached'' (PBool True)) ''step'' step_no) ''tool'' (PStr (tool_name t))"
  from execute_step_hit[OF assms(1,2,4,6-10)] obtain s' where
    s': "execute_step rt step s = (Inr a, s')"
      "heap s' = heap (heap_set a ''tool'' (PStr (tool_name t))
                  (heap_set a ''step'' step_no (hit_world a s)))"
      "cache s' = cache s"
    by blast
  from s'(2) assms(3) have h: "heap s' ! a = ?d"
    by (simp add: heap_set_def hit_world_def)
  have "map_of ?d ''cached'' = Some (PBool True)"
    by (simp add: dict_set_other dict_set_lookup)
  with assms(5) have "?d \<noteq> heap s ! a" by metis
  with s' h assms(1) show "\<exists>s'. execute_step rt step s = (Inr a, s')
            \<and> cache s' t (get_cache_key rt kwargs) = Some (a, ts)
            \<and> heap s' ! a = ?d
            \<and> heap s' ! a \<noteq> heap s ! a"
    by simp
qed


text \<open>
  The same search run twice. After the first run the cached object already carries the
  fields \<open>step\<close> and \<open>tool\<close> that the executor added to the result it was given; after
  the second it carries \<open>cached\<close> as well.
\<close>

theorem cache_hit_shares_result_witness:
  "cache after_search GitHubTool (get_cache_key search_runtime python_query) = Some (0, 1100)
   \<and> clock search_runtime (ticks after_search) - 1100 < cache_ttl
   \<and> 0 < length (heap after_search)
   \<and> heap after_search ! 0 \<noteq> []
   \<and> map_of (heap after_search ! 0) ''cached'' \<noteq> Some (PBool True)
   \<and> map_of search_step ''step'' = Some (PInt 1)
   \<and> dict_get search_step ''tool'' PNone = PStr (tool_name GitHubTool)
   \<and> dict_get search_step ''parameters'' (PDict []) = PDict python_query
   \<and> tool_validate_parameters GitHubTool python_query
   \<and> 0 < MAX_RETRIES search_runtime
   \<and> map (\<lambda>kv. fst kv) (heap after_search ! 0)
        = [''success'', ''data'', ''error'', ''timestamp'', ''step'', ''tool'']
   \<and> (\<exists>s'. execute_step search_runtime search_step after_search = (Inr 0, s')
         \<and> cache s' GitHubTool (get_cache_key search_runtime python_query) = Some (0, 1100)
         \<and> map (\<lambda>kv. fst kv) (heap s' ! 0)
              = [''success'', ''data'', ''error'', ''timestamp'', ''step'', ''tool'', ''cached''])"
proof -
  have a: "cache after_search GitHubTool (get_cache_key search_runtime python_query)
             = Some (0, 1100)"
    by (rule after_search_facts)
  have b: "clock search_runtime (ticks after_search) - 1100 < cache_ttl"
    by (simp add: after_search_facts search_runtime_def default_runtime_def slow_clock_def
        cache_ttl_def)
  have c: "0 < length (heap after_search)" by (simp add: after_search_facts)
  have d: "heap after_search ! 0 \<noteq> []" by (simp add: after_search_facts)
  have e: "map_of (heap after_search ! 0) ''cached'' \<noteq> Some (PBool True)"
    by (simp add: after_search_facts)
  have f: "map_of search_step ''step'' = Some (PInt 1)" by (simp add: search_step_def)
  have g: "dict_get search_step ''tool'' PNone = PStr (tool_name GitHubTool)"
    by (simp add: search_step_def dict_get_def tool_name_def)
  have h: "dict_get search_step ''parameters'' (PDict []) = PDict python_query"
    by (simp add: search_step_def dict_get_def)
  have i: "tool_validate_parameters GitHubTool python_query"
    by (simp add: tool_validate_parameters_def github_validate_parameters_def has_key_def
        python_query_def)
  have j: "0 < MAX_RETRIES search_runtime"
    by (simp add: search_runtime_def default_runtime_def)
  have k: "map (\<lambda>kv. fst kv) (heap after_search ! 0)
        = [''success'', ''data'', ''error'', ''timestamp'', ''step'', ''tool'']"
    by (simp add: after_search_facts)
  from cache_hit_shares_result[OF a b c d e f g h i j]
  obtain s' where "execute_step search_runtime search_step after_search = (Inr 0, s')"
    and "cache s' GitHubTool (get_cache_key search_runtime python_query) = Some (0, 1100)"
    and "heap s' ! 0 = dict_set (dict_set (dict_set (heap after_search ! 0)
                   ''cached'' (PBool True)) ''step'' (PInt 1)) ''tool''
                   (PStr (tool_name GitHubTool))"
    by blast
  then have "\<exists>s'. execute_step search_runtime search_step after_search = (Inr 0, s')
         \<and> cache s' GitHubTool (get_cache_key search_runtime python_query) = Some (0, 1100)
         \<and> map (\<lambda>kv. fst kv) (heap s' ! 0)
              = [''success'', ''data'', ''error'', ''timestamp'', ''step'', ''tool'', ''cached'']"
    by (simp add: after_search_facts dict_set_def)
  with a b c d e f g h i j k show ?thesis by blast
qed

section \<open>Properties of the tools\<close>

subsection \<open>What the body of \<open>execute\<close> does after a miss\<close>

lemma cache_lookup_miss:
  "missed rt t key s \<Longrightarrow>
     cache_lookup rt t key s
       = (None, s\<lparr>ticks := ticks s + (if cache s t key = None then 0 else 1)\<rparr>)"
  by (auto simp: missed_def cache_lookup_def get_cached_result_def time_time_def
      split: option.splits)

lemma not_missed:
  "\<not> missed rt t key s \<Longrightarrow>
     \<exists>a ts. cache s t key = Some (a, ts) \<and> clock rt (ticks s) - ts < cache_ttl
        \<and> heap s ! a \<noteq> []"
  by (auto simp: missed_def split: option.splits)

lemma effect_outcome_trans_raise:
  assumes "effect_outcome t key m s (Inl e) s1" and "effect_outcome t key n s1 r s2"
  shows "effect_outcome t key (m + n) s r s2"
  using assms by (auto simp: effect_outcome_def split: sum.splits)

lemma effect_outcome_request:
  assumes "effect_outcome t key 0 (s\<lparr>net_calls := Suc (net_calls s)\<rparr>) r s'"
  shows "effect_outcome t key 0 s r s' \<and> net_calls s < net_calls s'"
  using assms by (auto simp: effect_outcome_def split: sum.splits)

lemma effect_outcome_raise: "effect_outcome t key 0 s (Inl e) s"
  by (simp add: effect_outcome_def)

lemma effect_outcome_uncached:
  "format_response rt data ok err s = (a, s') \<Longrightarrow> effect_outcome t key 0 s (Inr a) s'"
  by (auto simp: effect_outcome_def format_response_def time_time_def alloc_def)

lemma github_payload_source:
  "github_payload q body = Inr p \<Longrightarrow>
     \<exists>d. p = PDict d \<and> map_of d ''source'' = Some (PStr ''github_api'')"
  by (auto simp: github_payload_def exn_bind_def split: option.splits sum.splits)

lemma live_outcome:
  assumes "map_of d ''source'' = Some (PStr src)" and "src \<noteq> ''fallback_data''"
    and "format_response rt (PDict d) True PNone s = (a, s1)"
  shows "effect_outcome t key 0 s (Inr a) (cache_result rt t key a s1)"
  using assms
  by (auto simp: effect_outcome_def format_response_def time_time_def alloc_def
      cache_result_def is_fallback_def dict_get_def)

lemma github_fallback_outcome:
  "github_get_fallback_data rt q pp s = (r, s') \<Longrightarrow> effect_outcome t key 0 s r s'"
  by (auto simp: github_get_fallback_data_def effect_outcome_def format_response_def
      time_time_def alloc_def Let_def split: option.splits pyval.splits)

lemma github_try_outcome:
  assumes "github_try rt key q pp s = (r, s')"
  shows "effect_outcome GitHubTool key 0 s r s' \<and> net_calls s < net_calls s'"
proof (rule effect_outcome_request)
  let ?s1 = "s\<lparr>net_calls := Suc (net_calls s)\<rparr>"
  show "effect_outcome GitHubTool key 0 ?s1 r s'"
  proof (cases "net rt (net_calls s)")
    case Transport_error
    with assms show ?thesis
      by (auto simp: github_try_def requests_get_def effect_outcome_raise)
  next
    case (Http code body)
    consider (ok) "code = 200" | (limited) "code = 403" | (other) "code \<noteq> 200" "code \<noteq> 403"
      by blast
    then show ?thesis
    proof cases
      case ok
      show ?thesis
      proof (cases "github_payload q body")
        case (Inl e)
        with assms Http ok show ?thesis
          by (auto simp: github_try_def requests_get_def effect_outcome_raise)
      next
        case (Inr p)
        then obtain d where d: "p = PDict d" "map_of d ''source'' = Some (PStr ''github_api'')"
          using github_payload_source by blast
        obtain a s1 where f: "format_response rt (PDict d) True PNone ?s1 = (a, s1)"
          by (cases "format_response rt (PDict d) True PNone ?s1") auto
        with assms Http ok Inr d
        have "r = Inr a" "s' = cache_result rt GitHubTool key a s1"
          by (auto simp: github_try_def requests_get_def)
        with live_outcome[OF d(2) _ f] show ?thesis by simp
      qed
    next
      case limited
      with assms Http have "github_get_fallback_data rt q pp ?s1 = (r, s')"
        by (simp add: github_try_def requests_get_def)
      then show ?thesis by (rule github_fallback_outcome)
    next
      case other
      with assms Http show ?thesis
        by (auto simp: github_try_def requests_get_def effect_outcome_def format_response_def
            time_time_def alloc_def)
    qed
  qed
qed

lemma github_body_miss:
  assumes miss: "missed rt GitHubTool (get_cache_key rt kwargs) s"
    and run: "github_execute_body rt kwargs s = (r, s')"
  shows "miss_outcome GitHubTool (get_cache_key rt kwargs) (reaches_provider GitHubTool kwargs)
           s r s'"
proof -
  let ?key = "get_cache_key rt kwargs"
  let ?s0 = "s\<lparr>body_runs := Suc (body_runs s)\<rparr>"
  let ?s1 = "?s0\<lparr>ticks := ticks ?s0 + (if cache ?s0 GitHubTool ?key = None then 0 else 1)\<rparr>"
  from miss have "missed rt GitHubTool ?key ?s0" by (auto simp: missed_def split: option.splits)
  then have look: "cache_lookup rt GitHubTool ?key ?s0 = (None, ?s1)"
    by (rule cache_lookup_miss)
  have s1: "effect_outcome GitHubTool ?key 1 s (Inl TypeError) ?s1" "net_calls ?s1 = net_calls s"
    by (simp_all add: effect_outcome_def)
  show ?thesis
  proof (cases "py_min_30 (dict_get kwargs ''per_page'' (PInt 5))")
    case (Inl e)
    with run look have "r = Inl e" "s' = ?s1"
      by (simp_all add: github_execute_body_def Let_def)
    with s1 Inl show ?thesis
      by (simp add: miss_outcome_def effect_outcome_def reaches_provider_def)
  next
    case (Inr pp)
    note pm = Inr
    then have reach: "reaches_provider GitHubTool kwargs" by (simp add: reaches_provider_def)
    let ?q = "dict_get kwargs ''query'' (PStr ''python'')"
    obtain r2 s2 where tr: "github_try rt ?key ?q pp ?s1 = (r2, s2)"
      by (cases "github_try rt ?key ?q pp ?s1") auto
    from github_try_outcome[OF tr]
    have t: "effect_outcome GitHubTool ?key 0 ?s1 r2 s2" "net_calls ?s1 < net_calls s2"
      by simp_all
    show ?thesis
    proof (cases r2)
      case (Inr a)
      with run look pm tr have "r = Inr a" "s' = s2"
        by (simp_all add: github_execute_body_def Let_def)
      with effect_outcome_trans_raise[OF s1(1) t(1)] t(2) Inr reach show ?thesis
        by (simp add: miss_outcome_def)
    next
      case (Inl e)
      with run look pm tr
      have "github_get_fallback_data rt ?q pp s2 = (r, s')"
        by (simp add: github_execute_body_def Let_def)
      then have f: "effect_outcome GitHubTool ?key 0 s2 r s'" by (rule github_fallback_outcome)
      from t(1) Inl have "effect_outcome GitHubTool ?key 0 ?s1 (Inl e) s2" by simp
      from effect_outcome_trans_raise[OF s1(1) effect_outcome_trans_raise[OF this f]] t(2) f
        reach
      show ?thesis
        by (auto simp: miss_outcome_def effect_outcome_def split: sum.splits)
    qed
  qed
qed


lemma effect_outcome_request_raise:
  "effect_outcome t key 0 s (Inl e) (s\<lparr>net_calls := Suc (net_calls s)\<rparr>)"
  by (simp add: effect_outcome_def)

lemma weather_fallback_outcome:
  "weather_get_fallback_data rt city s = (r, s') \<Longrightarrow> effect_outcome t key 0 s r s'"
  by (auto simp: weather_get_fallback_data_def effect_outcome_def format_response_def
      time_time_def alloc_def split: option.splits pyval.splits prod.splits)

lemma openweather_outcome:
  assumes "get_openweather_data rt city s = (r, s')"
  shows "effect_outcome t key 0 s r s'"
proof -
  let ?s1 = "s\<lparr>net_calls := Suc (net_calls s)\<rparr>"
  have raise: "effect_outcome t key 0 s (Inl TypeError) ?s1"
    by (rule effect_outcome_request_raise)
  have fb: "weather_get_fallback_data rt city ?s1 = (r, s') \<Longrightarrow> ?thesis"
    using effect_outcome_trans_raise[OF raise weather_fallback_outcome] by simp
  have fr: "format_response rt p True PNone ?s1 = (a, s')
      \<Longrightarrow> effect_outcome t key 0 s (Inr a) s'" for p a
    using effect_outcome_trans_raise[OF raise effect_outcome_uncached] by simp
  from assms show ?thesis
    by (auto simp: get_openweather_data_def requests_get_def
        split: reply.splits sum.splits if_splits prod.splits intro: fb fr)
qed

lemma weather_no_data_outcome:
  "weather_no_data rt city s = (r, s') \<Longrightarrow> effect_outcome t key 0 s r s'"
  by (auto simp: weather_no_data_def openweather_outcome weather_fallback_outcome
      split: if_splits)

lemma weather_payload_source:
  "weather_payload city location body = Inr p \<Longrightarrow>
     \<exists>d. p = PDict d \<and> map_of d ''source'' = Some (PStr ''open-meteo_api'')"
  by (auto simp: weather_payload_def exn_bind_def split: option.splits sum.splits prod.splits)

lemma weather_try_outcome:
  assumes "weather_try rt key city s = (r, s')"
  shows "effect_outcome WeatherTool key 0 s r s' \<and> net_calls s < net_calls s'"
proof (rule effect_outcome_request)
  let ?s1 = "s\<lparr>net_calls := Suc (net_calls s)\<rparr>"
  let ?s2 = "?s1\<lparr>net_calls := Suc (net_calls ?s1)\<rparr>"
  have second: "effect_outcome WeatherTool key 0 ?s1 (Inl e) ?s2" for e
    by (rule effect_outcome_request_raise)
  have second': "effect_outcome WeatherTool key 0 ?s1 (Inl e)
      (s\<lparr>net_calls := Suc (Suc (net_calls s))\<rparr>)" for e
    using second[of e] by simp
  have nd1: "weather_no_data rt city ?s1 = (r, s') \<Longrightarrow> effect_outcome WeatherTool key 0 ?s1 r s'"
    by (rule weather_no_data_outcome)
  have nd2: "weather_no_data rt city ?s2 = (r, s') \<Longrightarrow> effect_outcome WeatherTool key 0 ?s1 r s'"
    using effect_outcome_trans_raise[OF second weather_no_data_outcome] by simp
  have live: "effect_outcome WeatherTool key 0 ?s1 (Inr a) (cache_result rt WeatherTool key a s3)"
    if "weather_payload city location body = Inr p"
      and "format_response rt p True PNone ?s2 = (a, s3)" for location body p a s3
  proof -
    from that(1) obtain d where d: "p = PDict d"
        "map_of d ''source'' = Some (PStr ''open-meteo_api'')"
      using weather_payload_source by blast
    from that(2) d have "format_response rt (PDict d) True PNone ?s2 = (a, s3)" by simp
    from effect_outcome_trans_raise[OF second live_outcome[OF d(2) _ this]]
    show ?thesis by simp
  qed
  from assms show "effect_outcome WeatherTool key 0 ?s1 r s'"
    by (auto simp: weather_try_def requests_get_def effect_outcome_raise
        split: reply.splits sum.splits if_splits option.splits prod.splits
        intro: nd1 nd2 live second')
qed

lemma weather_body_miss:
  assumes miss: "missed rt WeatherTool (get_cache_key rt kwargs) s"
    and run: "weather_execute_body rt kwargs s = (r, s')"
  shows "miss_outcome WeatherTool (get_cache_key rt kwargs) (reaches_provider WeatherTool kwargs)
           s r s'"
proof -
  let ?key = "get_cache_key rt kwargs"
  let ?s0 = "s\<lparr>body_runs := Suc (body_runs s)\<rparr>"
  let ?s1 = "?s0\<lparr>ticks := ticks ?s0 + (if cache ?s0 WeatherTool ?key = None then 0 else 1)\<rparr>"
  let ?city = "dict_get kwargs ''city'' (PStr ''London'')"
  from miss have "missed rt WeatherTool ?key ?s0"
    by (auto simp: missed_def split: option.splits)
  then have look: "cache_lookup rt WeatherTool ?key ?s0 = (None, ?s1)"
    by (rule cache_lookup_miss)
  have s1: "effect_outcome WeatherTool ?key 1 s (Inl TypeError) ?s1" "net_calls ?s1 = net_calls s"
    by (simp_all add: effect_outcome_def)
  obtain r2 s2 where tr: "weather_try rt ?key ?city ?s1 = (r2, s2)"
    by (cases "weather_try rt ?key ?city ?s1") auto
  from weather_try_outcome[OF tr]
  have t: "effect_outcome WeatherTool ?key 0 ?s1 r2 s2" "net_calls ?s1 < net_calls s2"
    by simp_all
  have reach: "reaches_provider WeatherTool kwargs" by (simp add: reaches_provider_def)
  show ?thesis
  proof (cases r2)
    case (Inr a)
    with run look tr have "r = Inr a" "s' = s2"
      by (simp_all add: weather_execute_body_def Let_def)
    with effect_outcome_trans_raise[OF s1(1) t(1)] t(2) Inr reach show ?thesis
      by (simp add: miss_outcome_def)
  next
    case (Inl e)
    with run look tr have "weather_get_fallback_data rt ?city s2 = (r, s')"
      by (simp add: weather_execute_body_def Let_def)
    then have f: "effect_outcome WeatherTool ?key 0 s2 r s'" by (rule weather_fallback_outcome)
    from t(1) Inl have "effect_outcome WeatherTool ?key 0 ?s1 (Inl e) s2" by simp
    from effect_outcome_trans_raise[OF s1(1) effect_outcome_trans_raise[OF this f]] t(2) f
      reach
    show ?thesis
      by (auto simp: miss_outcome_def effect_outcome_def split: sum.splits)
  qed
qed

section \<open>Properties of the executor\<close>

subsection \<open>How often a tool is called\<close>

lemma tool_execute_unfold:
  "tool_execute t rt kwargs = retry_on_failure 3 1.0 (tool_execute_body t rt kwargs)"
  by (cases t) (simp_all add: tool_execute_def tool_execute_body_def github_execute_def
      weather_execute_def)

lemma tool_body_miss:
  assumes "missed rt t (get_cache_key rt kwargs) s"
    and "tool_execute_body t rt kwargs s = (r, s')"
  shows "miss_outcome t (get_cache_key rt kwargs) (reaches_provider t kwargs) s r s'"
  using assms by (cases t) (simp_all add: tool_execute_body_def github_body_miss weather_body_miss)

lemma tool_body_hit:
  assumes "cache s t (get_cache_key rt kwargs) = Some (a, ts)"
    and "clock rt (ticks s) - ts < cache_ttl"
    and "heap s ! a \<noteq> []"
  shows "tool_execute_body t rt kwargs s = (Inr a, hit_world a s)"
proof -
  let ?s0 = "s\<lparr>body_runs := Suc (body_runs s)\<rparr>"
  have "cache_lookup rt t (get_cache_key rt kwargs) ?s0
          = (Some a, heap_set a ''cached'' (PBool True) (?s0\<lparr>ticks := Suc (ticks ?s0)\<rparr>))"
    using assms by (intro cache_lookup_hit) simp_all
  then have "cache_lookup rt t (get_cache_key rt kwargs) ?s0 = (Some a, hit_world a s)"
    by (simp add: hit_world_def)
  then show ?thesis
    by (cases t) (simp_all add: tool_execute_body_def github_execute_body_def
        weather_execute_body_def Let_def)
qed

lemma tool_body_counts:
  assumes "tool_execute_body t rt kwargs s = (r, s')"
  shows "body_runs s' = Suc (body_runs s) \<and> execute_calls s' = execute_calls s"
proof (cases "missed rt t (get_cache_key rt kwargs) s")
  case True
  from tool_body_miss[OF True assms] show ?thesis
    by (simp add: miss_outcome_def effect_outcome_def)
next
  case False
  then obtain a ts where "cache s t (get_cache_key rt kwargs) = Some (a, ts)"
    "clock rt (ticks s) - ts < cache_ttl" "heap s ! a \<noteq> []"
    using not_missed by blast
  from tool_body_hit[OF this] assms show ?thesis
    by (auto simp: hit_world_simps)
qed

lemma retry_attempts_counts:
  "retry_attempts n d (tool_execute_body t rt kwargs) attempts s = (r, s') \<Longrightarrow>
     execute_calls s' = execute_calls s \<and> body_runs s' \<le> body_runs s + length attempts"
proof (induction attempts arbitrary: s)
  case Nil
  then show ?case by simp
next
  case (Cons attempt attempts)
  obtain r1 s1 where b: "tool_execute_body t rt kwargs s = (r1, s1)"
    by (cases "tool_execute_body t rt kwargs s") auto
  from tool_body_counts[OF b]
  have c: "body_runs s1 = Suc (body_runs s)" "execute_calls s1 = execute_calls s" by simp_all
  show ?case
  proof (cases r1)
    case (Inr a)
    with Cons.prems b c show ?thesis by simp
  next
    case (Inl e)
    show ?thesis
    proof (cases "attempt = n - 1")
      case True
      with Cons.prems b c Inl show ?thesis by simp
    next
      case False
      with Cons.prems b Inl
      have "retry_attempts n d (tool_execute_body t rt kwargs) attempts
              (time_sleep (d * (real attempt + 1)) s1) = (r, s')"
        by simp
      from Cons.IH[OF this] c show ?thesis by (simp add: time_sleep_def)
    qed
  qed
qed

lemma tool_execute_counts:
  assumes "tool_execute t rt kwargs s = (r, s')"
  shows "execute_calls s' = execute_calls s \<and> body_runs s' \<le> body_runs s + 3"
  using retry_attempts_counts[of 3 "1.0" t rt kwargs "[0..<3]" s r s'] assms
  by (simp add: tool_execute_unfold retry_on_failure_def)

lemma attempt_step_counts:
  assumes "attempt_step rt step t nm kwargs s = (r, s')"
  shows "execute_calls s' \<le> execute_calls s + 1 \<and> body_runs s' \<le> body_runs s + 3"
proof (cases "py_getitem (PDict step) (PStr ''step'')")
  case (Inl e)
  with assms show ?thesis by (simp add: attempt_step_def)
next
  case (Inr step_no)
  let ?s0 = "s\<lparr>execute_calls := Suc (execute_calls s)\<rparr>"
  obtain r1 s1 where x: "tool_execute t rt kwargs ?s0 = (r1, s1)"
    by (cases "tool_execute t rt kwargs ?s0") auto
  from tool_execute_counts[OF x]
  have c: "execute_calls s1 = Suc (execute_calls s)" "body_runs s1 \<le> body_runs s + 3"
    by simp_all
  from assms Inr x c show ?thesis
    by (auto simp: attempt_step_def heap_set_def time_time_def Let_def
        split: sum.splits option.splits)
qed

lemma attempt_loop_counts:
  "attempt_loop rt step t nm kwargs attempts s = (r, s') \<Longrightarrow>
     execute_calls s' \<le> execute_calls s + length attempts
     \<and> body_runs s' \<le> body_runs s + 3 * length attempts"
proof (induction attempts arbitrary: s)
  case Nil
  then show ?case by (auto simp: alloc_def)
next
  case (Cons attempt attempts)
  obtain r1 s1 where a: "attempt_step rt step t nm kwargs s = (r1, s1)"
    by (cases "attempt_step rt step t nm kwargs s") auto
  from attempt_step_counts[OF a]
  have c: "execute_calls s1 \<le> execute_calls s + 1" "body_runs s1 \<le> body_runs s + 3"
    by simp_all
  show ?case
  proof (cases r1)
    case (Inr res)
    with Cons.prems a c show ?thesis by auto
  next
    case (Inl e)
    show ?thesis
    proof (cases "attempt < MAX_RETRIES rt - 1")
      case True
      with Cons.prems a Inl
      have "attempt_loop rt step t nm kwargs attempts (time_sleep (RETRY_DELAY rt) s1) = (r, s')"
        by simp
      from Cons.IH[OF this] c show ?thesis by (simp add: time_sleep_def)
    next
      case False
      with Cons.prems a Inl c show ?thesis by (auto simp: alloc_def)
    qed
  qed
qed

lemma execute_step_counts:
  assumes "execute_step rt step s = (r, s')"
  shows "execute_calls s' \<le> execute_calls s + MAX_RETRIES rt
     \<and> body_runs s' \<le> body_runs s + 3 * MAX_RETRIES rt"
proof -
  have loop: "execute_calls s' \<le> execute_calls s + MAX_RETRIES rt
     \<and> body_runs s' \<le> body_runs s + 3 * MAX_RETRIES rt"
    if "attempt_loop rt step t nm kwargs [0..<MAX_RETRIES rt] s = (a, s')" for t nm kwargs a
    using attempt_loop_counts[OF that] by simp
  from assms show ?thesis
    by (auto simp: execute_step_def Let_def alloc_def
        split: sum.splits option.splits pyval.splits if_splits prod.splits dest: loop)
qed


lemma github_fallback_returns:
  "(\<exists>n. pp = PInt n) \<or> (\<exists>b. pp = PBool b) \<Longrightarrow>
     \<exists>a s'. github_get_fallback_data rt q pp s = (Inr a, s')"
  by (auto simp: github_get_fallback_data_def Let_def split: prod.splits)

lemma weather_fallback_returns:
  "\<exists>a s'. weather_get_fallback_data rt (PStr c) s = (Inr a, s')"
  by (auto simp: weather_get_fallback_data_def split: prod.splits option.splits)

lemma github_body_returns:
  assumes "params_typed GitHubTool kwargs"
  shows "\<exists>a s'. github_execute_body rt kwargs s = (Inr a, s')"
proof -
  from assms have "\<exists>v. py_min_30 (dict_get kwargs ''per_page'' (PInt 5)) = Inr v
      \<and> ((\<exists>n. v = PInt n) \<or> (\<exists>b. v = PBool b))"
    by (auto simp: params_typed_def dict_get_def split: option.splits pyval.splits)
  then obtain v where v: "py_min_30 (dict_get kwargs ''per_page'' (PInt 5)) = Inr v"
      "(\<exists>n. v = PInt n) \<or> (\<exists>b. v = PBool b)" by blast
  obtain c s1 where look: "cache_lookup rt GitHubTool (get_cache_key rt kwargs)
      (s\<lparr>body_runs := Suc (body_runs s)\<rparr>) = (c, s1)"
    by (cases "cache_lookup rt GitHubTool (get_cache_key rt kwargs)
      (s\<lparr>body_runs := Suc (body_runs s)\<rparr>)") auto
  show ?thesis
  proof (cases c)
    case (Some a)
    with look show ?thesis by (simp add: github_execute_body_def Let_def)
  next
    case None
    obtain r2 s2 where tr: "github_try rt (get_cache_key rt kwargs)
        (dict_get kwargs ''query'' (PStr ''python'')) v s1 = (r2, s2)"
      by (cases "github_try rt (get_cache_key rt kwargs)
        (dict_get kwargs ''query'' (PStr ''python'')) v s1") auto
    show ?thesis
    proof (cases r2)
      case (Inr a)
      with look None v tr show ?thesis by (simp add: github_execute_body_def Let_def)
    next
      case (Inl e)
      from github_fallback_returns[OF v(2)] obtain a s' where
        "github_get_fallback_data rt (dict_get kwargs ''query'' (PStr ''python'')) v s2
           = (Inr a, s')" by blast
      with look None v tr Inl show ?thesis by (simp add: github_execute_body_def Let_def)
    qed
  qed
qed

lemma weather_body_returns:
  assumes "params_typed WeatherTool kwargs"
  shows "\<exists>a s'. weather_execute_body rt kwargs s = (Inr a, s')"
proof -
  from assms obtain c where city: "dict_get kwargs ''city'' (PStr ''London'') = PStr c"
    by (auto simp: params_typed_def dict_get_def split: option.splits pyval.splits)
  obtain h s1 where look: "cache_lookup rt WeatherTool (get_cache_key rt kwargs)
      (s\<lparr>body_runs := Suc (body_runs s)\<rparr>) = (h, s1)"
    by (cases "cache_lookup rt WeatherTool (get_cache_key rt kwargs)
      (s\<lparr>body_runs := Suc (body_runs s)\<rparr>)") auto
  show ?thesis
  proof (cases h)
    case (Some a)
    with look show ?thesis by (simp add: weather_execute_body_def Let_def)
  next
    case None
    obtain r2 s2 where tr: "weather_try rt (get_cache_key rt kwargs) (PStr c) s1 = (r2, s2)"
      by (cases "weather_try rt (get_cache_key rt kwargs) (PStr c) s1") auto
    show ?thesis
    proof (cases r2)
      case (Inr a)
      with look None city tr show ?thesis by (simp add: weather_execute_body_def Let_def)
    next
      case (Inl e)
      from weather_fallback_returns obtain a s' where
        "weather_get_fallback_data rt (PStr c) s2 = (Inr a, s')" by blast
      with look None city tr Inl show ?thesis by (simp add: weather_execute_body_def Let_def)
    qed
  qed
qed

lemma tool_body_returns:
  "params_typed t kwargs \<Longrightarrow> \<exists>a s'. tool_execute_body t rt kwargs s = (Inr a, s')"
  by (cases t) (simp_all add: tool_execute_body_def github_body_returns weather_body_returns)

lemma tool_execute_typed:
  assumes "params_typed t kwargs"
  shows "\<exists>a s'. tool_execute t rt kwargs s = (Inr (Some a), s')
           \<and> body_runs s' = Suc (body_runs s) \<and> execute_calls s' = execute_calls s"
proof -
  from assms obtain a s' where b: "tool_execute_body t rt kwargs s = (Inr a, s')"
    using tool_body_returns by blast
  then have "tool_execute t rt kwargs s = (Inr (Some a), s')"
    by (simp add: tool_execute_unfold retry_on_failure_first)
  with tool_body_counts[OF b] show ?thesis by simp
qed

lemma attempt_step_typed:
  assumes "params_typed t kwargs" and "attempt_step rt step t nm kwargs s = (r, s')"
  shows "(case r of
            Inl e \<Rightarrow> execute_calls s' = execute_calls s \<and> body_runs s' = body_runs s
          | Inr a \<Rightarrow> execute_calls s' = Suc (execute_calls s)
                     \<and> body_runs s' = Suc (body_runs s))"
proof (cases "py_getitem (PDict step) (PStr ''step'')")
  case (Inl e)
  with assms(2) show ?thesis by (auto simp: attempt_step_def)
next
  case (Inr step_no)
  let ?s0 = "s\<lparr>execute_calls := Suc (execute_calls s)\<rparr>"
  from tool_execute_typed[OF assms(1), of rt ?s0] obtain a s1 where
    "tool_execute t rt kwargs ?s0 = (Inr (Some a), s1)"
    "body_runs s1 = Suc (body_runs s)" "execute_calls s1 = Suc (execute_calls s)"
    by auto
  with assms(2) Inr show ?thesis
    by (auto simp: attempt_step_def heap_set_def time_time_def Let_def)
qed

lemma attempt_loop_typed:
  assumes "params_typed t kwargs"
  shows "attempt_loop rt step t nm kwargs attempts s = (r, s') \<Longrightarrow>
     execute_calls s' \<le> execute_calls s + min 1 (length attempts)
     \<and> body_runs s' \<le> body_runs s + min 1 (length attempts)"
proof (induction attempts arbitrary: s)
  case Nil
  then show ?case by (auto simp: alloc_def)
next
  case (Cons attempt attempts)
  obtain r1 s1 where a: "attempt_step rt step t nm kwargs s = (r1, s1)"
    by (cases "attempt_step rt step t nm kwargs s") auto
  note c = attempt_step_typed[OF assms a]
  show ?case
  proof (cases r1)
    case (Inr res)
    with Cons.prems a c show ?thesis by auto
  next
    case (Inl e)
    with c have same: "execute_calls s1 = execute_calls s" "body_runs s1 = body_runs s"
      by simp_all
    show ?thesis
    proof (cases "attempt < MAX_RETRIES rt - 1")
      case True
      with Cons.prems a Inl
      have "attempt_loop rt step t nm kwargs attempts (time_sleep (RETRY_DELAY rt) s1) = (r, s')"
        by simp
      from Cons.IH[OF this] same show ?thesis by (auto simp: time_sleep_def min_def split: if_splits)
    next
      case False
      with Cons.prems a Inl same show ?thesis by (auto simp: alloc_def)
    qed
  qed
qed

lemma execute_step_typed:
  assumes "step_typed step" and "execute_step rt step s = (r, s')"
  shows "execute_calls s' \<le> execute_calls s + min 1 (MAX_RETRIES rt)
     \<and> body_runs s' \<le> body_runs s + min 1 (MAX_RETRIES rt)"
proof -
  have loop: "execute_calls s' \<le> execute_calls s + min 1 (MAX_RETRIES rt)
     \<and> body_runs s' \<le> body_runs s + min 1 (MAX_RETRIES rt)"
    if "attempt_loop rt step t nm kwargs [0..<MAX_RETRIES rt] s = (a, s')"
      and "params_typed t kwargs" for t nm kwargs a
    using attempt_loop_typed[OF that(2) that(1)] by simp
  from assms show ?thesis
    by (auto simp: execute_step_def step_typed_def Let_def alloc_def
        split: sum.splits option.splits pyval.splits if_splits prod.splits dest: loop
        simp del: find_tool.simps)
qed


text \<open>
  Claim C2. For every step and whatever the providers do, the executor calls the \<open>execute\<close>
  method of the step's tool at most \<open>MAX_RETRIES\<close> times before it returns the outcome of
  the step. Each call goes through the retry decorator of the tool, which runs the body at
  most three times, so the body runs at most \<open>3 * MAX_RETRIES\<close> times. The body catches
  every failure of a provider itself and returns the fallback, so with parameters of the
  types that the planner's rules produce it never raises, and it runs at most once.
\<close>

theorem execute_step_retry_bound:
  assumes "execute_step rt step s = (r, s')"
  shows "execute_calls s' \<le> execute_calls s + MAX_RETRIES rt
     \<and> body_runs s' \<le> body_runs s + 3 * MAX_RETRIES rt
     \<and> (step_typed step \<longrightarrow> body_runs s' \<le> body_runs s + min 1 (MAX_RETRIES rt))"
  using execute_step_counts[OF assms] execute_step_typed[OF _ assms] by blast

text \<open>The definitions that a concrete run without providers unfolds.\<close>

lemmas offline_defs = offline_runtime_def default_runtime_def offline_def slow_clock_def
  execute_step_def attempt_step_def tool_execute_def github_execute_def retry_on_failure_def
  github_execute_body_def cache_lookup_def get_cached_result_def init_world_def github_try_def
  requests_get_def github_get_fallback_data_def format_response_def time_time_def alloc_def
  time_sleep_def heap_set_def dict_set_def dict_get_def has_key_def Let_def upt_rec
  tool_validate_parameters_def github_validate_parameters_def

text \<open>The search step with every request failing: one call, one run, one request, and
  the fallback as outcome.\<close>

theorem execute_step_retry_bound_witness:
  "step_typed search_step
   \<and> (\<exists>a s'. execute_step offline_runtime search_step init_world = (Inr a, s')
         \<and> is_fallback (heap s' ! a)
         \<and> execute_calls s' = 1 \<and> body_runs s' = 1 \<and> net_calls s' = 1
         \<and> execute_calls s' \<le> execute_calls init_world + MAX_RETRIES offline_runtime
         \<and> body_runs s' \<le> body_runs init_world + min 1 (MAX_RETRIES offline_runtime))"
proof -
  have typed: "step_typed search_step"
    by (simp add: step_typed_def search_step_def python_query_def dict_get_def params_typed_def)
  obtain r s' where run: "execute_step offline_runtime search_step init_world = (r, s')"
    by (cases "execute_step offline_runtime search_step init_world") auto
  from run have "r = Inr 0" "is_fallback (heap s' ! 0)" "execute_calls s' = 1"
    "body_runs s' = 1" "net_calls s' = 1"
    by (auto simp: offline_defs search_step_def python_query_def is_fallback_def slice_to_def
        mock_repos_def)
  with execute_step_retry_bound[OF run] typed run show ?thesis by auto
qed

text \<open>
  The two retry loops are nested. With \<open>per_page = 2.5\<close> the fallback itself raises (a
  float is no slice bound), outside any \<^verbatim>\<open>try\<close>: the executor calls \<open>execute\<close> three times,
  and the body runs, and sends a request, nine times.
\<close>

lemma nested_retry_example:
  "execute_calls (snd (execute_step offline_runtime float_step init_world)) = 3
   \<and> body_runs (snd (execute_step offline_runtime float_step init_world)) = 9
   \<and> net_calls (snd (execute_step offline_runtime float_step init_world)) = 9
   \<and> \<not> step_typed float_step"
  by (simp add: offline_defs float_step_def step_typed_def params_typed_def)

section \<open>The fallback and the cache\<close>

subsection \<open>The invariant of the caches\<close>

text \<open>
  The invariant holds in the initial world and is kept by every call of \<open>execute\<close> and
  by every step of the executor, so it holds in every world that a run can reach.
\<close>

lemma dict_set_nonempty: "dict_set d k v \<noteq> []"
  by (cases d) (simp_all add: dict_set_def)

lemma is_fallback_dict_set:
  "k \<noteq> ''data'' \<Longrightarrow> is_fallback (dict_set d k v) = is_fallback d"
  by (simp add: is_fallback_def dict_get_def dict_set_other)

lemma cache_inv_init: "cache_inv init_world"
  by (simp add: cache_inv_def init_world_def)

lemma cache_inv_heap_set:
  assumes "cache_inv s" and "k \<noteq> ''data''"
  shows "cache_inv (heap_set a k v s)"
proof -
  have "heap (heap_set a k v s) ! b \<noteq> [] \<and> \<not> is_fallback (heap (heap_set a k v s) ! b)"
    if "b < length (heap s)" "heap s ! b \<noteq> []" "\<not> is_fallback (heap s ! b)" for b
    using that assms(2)
    by (cases "b = a") (simp_all add: heap_set_def dict_set_nonempty is_fallback_dict_set)
  with assms(1) show ?thesis
    by (auto simp: cache_inv_def heap_set_def)
qed

lemma cache_inv_same:
  "cache_inv s \<Longrightarrow> heap s' = heap s \<Longrightarrow> cache s' = cache s \<Longrightarrow> cache_inv s'"
  by (simp add: cache_inv_def)

lemma cache_inv_hit_world: "cache_inv s \<Longrightarrow> cache_inv (hit_world a s)"
proof -
  assume "cache_inv s"
  then have "cache_inv (s\<lparr>body_runs := Suc (body_runs s), ticks := Suc (ticks s)\<rparr>)"
    by (rule cache_inv_same) simp_all
  then show ?thesis unfolding hit_world_def by (rule cache_inv_heap_set) simp
qed

lemma cache_inv_effect:
  assumes "cache_inv s" and "effect_outcome t key n s r s'"
  shows "cache_inv s'"
proof (cases r)
  case (Inl e)
  with assms show ?thesis by (auto simp: effect_outcome_def intro: cache_inv_same)
next
  case (Inr a)
  with assms(2) obtain d where d: "a = length (heap s)" "heap s' = heap s @ [d]" "d \<noteq> []"
    "cache s' = cache s \<or> \<not> is_fallback d
        \<and> (\<exists>now. cache s' = (cache s)(t := (cache s t)(key \<mapsto> (a, now))))"
    by (auto simp: effect_outcome_def)
  show ?thesis unfolding cache_inv_def
  proof (intro allI impI)
    fix t' k b ts
    assume e: "cache s' t' k = Some (b, ts)"
    show "b < length (heap s') \<and> heap s' ! b \<noteq> [] \<and> \<not> is_fallback (heap s' ! b)"
    proof (cases "cache s t' k = Some (b, ts)")
      case True
      with assms(1) have "b < length (heap s)" "heap s ! b \<noteq> []" "\<not> is_fallback (heap s ! b)"
        by (auto simp: cache_inv_def)
      with d(2) show ?thesis by (simp add: nth_append)
    next
      case False
      with e d(4) have "b = a" "\<not> is_fallback d"
        by (auto split: if_splits)
      with d show ?thesis by simp
    qed
  qed
qed

lemma cache_inv_body:
  assumes "cache_inv s" and "tool_execute_body t rt kwargs s = (r, s')"
  shows "cache_inv s'"
proof (cases "missed rt t (get_cache_key rt kwargs) s")
  case True
  from tool_body_miss[OF True assms(2)] assms(1) show ?thesis
    by (auto simp: miss_outcome_def intro: cache_inv_effect)
next
  case False
  then obtain a ts where "cache s t (get_cache_key rt kwargs) = Some (a, ts)"
    "clock rt (ticks s) - ts < cache_ttl" "heap s ! a \<noteq> []"
    using not_missed by blast
  from tool_body_hit[OF this] assms show ?thesis
    by (auto simp: cache_inv_hit_world)
qed

lemma cache_inv_sleep: "cache_inv s \<Longrightarrow> cache_inv (time_sleep d s)"
  by (simp add: cache_inv_def time_sleep_def)

lemma cache_inv_retry:
  "cache_inv s \<Longrightarrow>
   retry_attempts n d (tool_execute_body t rt kwargs) attempts s = (r, s') \<Longrightarrow> cache_inv s'"
proof (induction attempts arbitrary: s)
  case Nil
  then show ?case by simp
next
  case (Cons attempt attempts)
  obtain r1 s1 where b: "tool_execute_body t rt kwargs s = (r1, s1)"
    by (cases "tool_execute_body t rt kwargs s") auto
  from cache_inv_body[OF Cons.prems(1) b] have i1: "cache_inv s1" .
  show ?case
  proof (cases r1)
    case (Inr a)
    with Cons.prems b i1 show ?thesis by simp
  next
    case (Inl e)
    show ?thesis
    proof (cases "attempt = n - 1")
      case True
      with Cons.prems b i1 Inl show ?thesis by simp
    next
      case False
      with Cons.prems b Inl
      have "retry_attempts n d (tool_execute_body t rt kwargs) attempts
              (time_sleep (d * (real attempt + 1)) s1) = (r, s')"
        by simp
      from Cons.IH[OF cache_inv_sleep[OF i1] this] show ?thesis .
    qed
  qed
qed

lemma cache_inv_tool_execute:
  "cache_inv s \<Longrightarrow> tool_execute t rt kwargs s = (r, s') \<Longrightarrow> cache_inv s'"
  by (simp add: tool_execute_unfold retry_on_failure_def cache_inv_retry)


lemma cache_inv_alloc:
  assumes "cache_inv s" and "alloc d s = (a, s')"
  shows "cache_inv s'"
  unfolding cache_inv_def
proof (intro allI impI)
  fix t key b ts
  assume "cache s' t key = Some (b, ts)"
  with assms(2) have "cache s t key = Some (b, ts)" by (auto simp: alloc_def)
  with assms(1) have "b < length (heap s)" "heap s ! b \<noteq> []" "\<not> is_fallback (heap s ! b)"
    by (auto simp: cache_inv_def)
  moreover from assms(2) have "heap s' = heap s @ [d]" by (auto simp: alloc_def)
  ultimately show "b < length (heap s') \<and> heap s' ! b \<noteq> [] \<and> \<not> is_fallback (heap s' ! b)"
    by (simp add: nth_append)
qed

lemma cache_inv_attempt_step:
  assumes "cache_inv s" and "attempt_step rt step t nm kwargs s = (r, s')"
  shows "cache_inv s'"
proof (cases "py_getitem (PDict step) (PStr ''step'')")
  case (Inl e)
  with assms show ?thesis by (simp add: attempt_step_def)
next
  case (Inr step_no)
  let ?s0 = "s\<lparr>execute_calls := Suc (execute_calls s)\<rparr>"
  obtain r1 s1 where x: "tool_execute t rt kwargs ?s0 = (r1, s1)"
    by (cases "tool_execute t rt kwargs ?s0") auto
  from assms(1) have "cache_inv ?s0" by (rule cache_inv_same) simp_all
  from cache_inv_tool_execute[OF this x] have i1: "cache_inv s1" .
  show ?thesis
  proof (cases r1)
    case (Inl e)
    with assms(2) Inr x i1 show ?thesis by (simp add: attempt_step_def)
  next
    case r1: (Inr res)
    show ?thesis
    proof (cases res)
      case None
      with assms(2) Inr x i1 r1 show ?thesis by (simp add: attempt_step_def)
    next
      case (Some a)
      let ?s3 = "heap_set a ''tool'' nm (heap_set a ''step'' step_no s1)"
      have "cache_inv ?s3" using i1 by (intro cache_inv_heap_set) simp_all
      moreover from assms(2) Inr x r1 Some
      have "heap s' = heap ?s3" "cache s' = cache ?s3"
        by (auto simp: attempt_step_def Let_def time_time_def)
      ultimately show ?thesis by (rule cache_inv_same)
    qed
  qed
qed

lemma cache_inv_attempt_loop:
  "cache_inv s \<Longrightarrow> attempt_loop rt step t nm kwargs attempts s = (r, s') \<Longrightarrow> cache_inv s'"
proof (induction attempts arbitrary: s)
  case Nil
  from Nil.prems(2) show ?case by (auto intro: cache_inv_alloc[OF Nil.prems(1)])
next
  case (Cons attempt attempts)
  obtain r1 s1 where a: "attempt_step rt step t nm kwargs s = (r1, s1)"
    by (cases "attempt_step rt step t nm kwargs s") auto
  from cache_inv_attempt_step[OF Cons.prems(1) a] have i1: "cache_inv s1" .
  show ?case
  proof (cases r1)
    case (Inr res)
    with Cons.prems a i1 show ?thesis by auto
  next
    case (Inl e)
    show ?thesis
    proof (cases "attempt < MAX_RETRIES rt - 1")
      case True
      with Cons.prems a Inl
      have "attempt_loop rt step t nm kwargs attempts (time_sleep (RETRY_DELAY rt) s1) = (r, s')"
        by simp
      from Cons.IH[OF cache_inv_sleep[OF i1] this] show ?thesis .
    next
      case False
      with Cons.prems(2) a Inl show ?thesis by (auto intro: cache_inv_alloc[OF i1])
    qed
  qed
qed

lemma cache_inv_execute_step:
  assumes "cache_inv s" and "execute_step rt step s = (r, s')"
  shows "cache_inv s'"
proof -
  have al: "cache_inv s'" if "alloc d s = (a, s')" for d a
    using cache_inv_alloc[OF assms(1) that] .
  have loop: "cache_inv s'"
    if "attempt_loop rt step t nm kwargs [0..<MAX_RETRIES rt] s = (a, s')" for t nm kwargs a
    using cache_inv_attempt_loop[OF assms(1) that] .
  from assms show ?thesis
    by (auto simp: execute_step_def Let_def
        split: sum.splits option.splits pyval.splits if_splits prod.splits
        dest: loop al simp del: find_tool.simps)
qed


subsection \<open>A fallback result is never cached\<close>

lemma is_fallback_hit:
  assumes "cache_inv s" and "cache s t key = Some (a, ts)"
  shows "\<not> is_fallback (heap (hit_world a s) ! a)"
proof -
  from assms have "a < length (heap s)" "\<not> is_fallback (heap s ! a)"
    by (auto simp: cache_inv_def)
  then show ?thesis by (simp add: hit_world_simps is_fallback_dict_set)
qed

text \<open>A call of the body that returns a fallback result was a miss and left the cache alone.\<close>

lemma body_fallback:
  assumes inv: "cache_inv s"
    and run: "tool_execute_body t rt kwargs s = (Inr a, s')"
    and fb: "is_fallback (heap s' ! a)"
  shows "cache s' = cache s \<and> a = length (heap s) \<and> ticks s \<le> ticks s'
     \<and> reaches_provider t kwargs \<and> missed rt t (get_cache_key rt kwargs) s"
proof (cases "missed rt t (get_cache_key rt kwargs) s")
  case True
  from tool_body_miss[OF True run]
  have m: "effect_outcome t (get_cache_key rt kwargs) 1 s (Inr a) s'"
    "reaches_provider t kwargs"
    by (simp_all add: miss_outcome_def)
  from m(1) obtain d where d: "a = length (heap s)" "heap s' = heap s @ [d]"
    "cache s' = cache s \<or> \<not> is_fallback d" "ticks s \<le> ticks s'"
    by (auto simp: effect_outcome_def)
  from d(1,2) fb have "is_fallback d" by simp
  with d m(2) True show ?thesis by simp
next
  case False
  then obtain b ts where e: "cache s t (get_cache_key rt kwargs) = Some (b, ts)"
    "clock rt (ticks s) - ts < cache_ttl" "heap s ! b \<noteq> []"
    using not_missed by blast
  from tool_body_hit[OF e] run have "a = b" "s' = hit_world b s" by simp_all
  with is_fallback_hit[OF inv e(1)] fb show ?thesis by simp
qed

text \<open>A call of the body that raises was a miss and left heap and cache alone.\<close>

lemma body_raises:
  assumes "tool_execute_body t rt kwargs s = (Inl e, s')"
  shows "cache s' = cache s \<and> heap s' = heap s \<and> ticks s \<le> ticks s'"
proof (cases "missed rt t (get_cache_key rt kwargs) s")
  case True
  from tool_body_miss[OF True assms] show ?thesis
    by (simp add: miss_outcome_def effect_outcome_def)
next
  case False
  then obtain b ts where e: "cache s t (get_cache_key rt kwargs) = Some (b, ts)"
    "clock rt (ticks s) - ts < cache_ttl" "heap s ! b \<noteq> []"
    using not_missed by blast
  from tool_body_hit[OF e] assms show ?thesis by simp
qed

text \<open>
  The entry under a key is stale before clock reading number \<open>k\<close>: there is none, or it
  had expired at some earlier reading.
\<close>

lemma missed_stale:
  assumes "cache_inv s" and "missed rt t key s"
  shows "cache s t key = None
     \<or> (\<exists>b ts. cache s t key = Some (b, ts) \<and> \<not> clock rt (ticks s) - ts < cache_ttl)"
proof (cases "cache s t key")
  case None
  then show ?thesis by simp
next
  case (Some entry)
  obtain b ts where entry: "entry = (b, ts)" by (cases entry) auto
  with Some assms(1) have "heap s ! b \<noteq> []" by (auto simp: cache_inv_def)
  with Some entry assms(2) show ?thesis by (simp add: missed_def)
qed

lemma retry_fallback:
  "cache_inv s \<Longrightarrow>
   retry_attempts n d (tool_execute_body t rt kwargs) attempts s = (Inr (Some a), s') \<Longrightarrow>
   is_fallback (heap s' ! a) \<Longrightarrow>
   cache s' = cache s \<and> a = length (heap s) \<and> ticks s \<le> ticks s'
     \<and> reaches_provider t kwargs
     \<and> (cache s t (get_cache_key rt kwargs) = None
         \<or> (\<exists>b ts k. cache s t (get_cache_key rt kwargs) = Some (b, ts) \<and> k \<le> ticks s'
               \<and> \<not> clock rt k - ts < cache_ttl))"
proof (induction attempts arbitrary: s)
  case Nil
  then show ?case by simp
next
  case (Cons attempt attempts)
  let ?key = "get_cache_key rt kwargs"
  obtain r1 s1 where b: "tool_execute_body t rt kwargs s = (r1, s1)"
    by (cases "tool_execute_body t rt kwargs s") auto
  show ?case
  proof (cases r1)
    case (Inr a1)
    with Cons.prems(2) b have run: "tool_execute_body t rt kwargs s = (Inr a, s')" by simp
    from body_fallback[OF Cons.prems(1) run Cons.prems(3)]
    have f: "cache s' = cache s" "a = length (heap s)" "ticks s \<le> ticks s'"
      "reaches_provider t kwargs" "missed rt t ?key s"
      by blast+
    from missed_stale[OF Cons.prems(1) f(5)] f(3)
    have "cache s t ?key = None
         \<or> (\<exists>b ts k. cache s t ?key = Some (b, ts) \<and> k \<le> ticks s'
               \<and> \<not> clock rt k - ts < cache_ttl)"
      by blast
    with f(1-4) show ?thesis by blast
  next
    case (Inl e)
    with b have raise: "tool_execute_body t rt kwargs s = (Inl e, s1)" by simp
    from body_raises[OF raise]
    have same: "cache s1 = cache s" "heap s1 = heap s" "ticks s \<le> ticks s1" by blast+
    let ?s2 = "time_sleep (d * (real attempt + 1)) s1"
    have s2: "cache ?s2 = cache s" "heap ?s2 = heap s" "ticks s \<le> ticks ?s2"
      using same by (simp_all add: time_sleep_def)
    from Cons.prems(2) b Inl have ne: "attempt \<noteq> n - 1"
      by (auto split: if_splits)
    with Cons.prems(2) b Inl
    have rest: "retry_attempts n d (tool_execute_body t rt kwargs) attempts ?s2
                  = (Inr (Some a), s')"
      by simp
    have "cache_inv ?s2" using Cons.prems(1) s2(2) s2(1) by (rule cache_inv_same)
    from Cons.IH[OF this rest Cons.prems(3)]
    have ih: "cache s' = cache ?s2" "a = length (heap ?s2)" "ticks ?s2 \<le> ticks s'"
      "reaches_provider t kwargs"
      "cache ?s2 t ?key = None
         \<or> (\<exists>b ts k. cache ?s2 t ?key = Some (b, ts) \<and> k \<le> ticks s'
               \<and> \<not> clock rt k - ts < cache_ttl)"
      by blast+
    have c1: "cache s' = cache s" using ih(1) s2(1) by (rule trans)
    have c2: "a = length (heap s)" using ih(2) s2(2) by (simp only:)
    have c3: "ticks s \<le> ticks s'" using s2(3) ih(3) by (rule order_trans)
    have c5: "cache s t ?key = None
         \<or> (\<exists>b ts k. cache s t ?key = Some (b, ts) \<and> k \<le> ticks s'
               \<and> \<not> clock rt k - ts < cache_ttl)"
      using ih(5) s2(1) by (simp only:)
    from c1 c2 c3 ih(4) c5 show ?thesis by blast
  qed
qed

lemma body_net_mono:
  assumes "tool_execute_body t rt kwargs s = (r, s')"
  shows "net_calls s \<le> net_calls s'"
proof (cases "missed rt t (get_cache_key rt kwargs) s")
  case True
  from tool_body_miss[OF True assms] show ?thesis
    by (simp add: miss_outcome_def effect_outcome_def)
next
  case False
  then obtain b ts where e: "cache s t (get_cache_key rt kwargs) = Some (b, ts)"
    "clock rt (ticks s) - ts < cache_ttl" "heap s ! b \<noteq> []"
    using not_missed by blast
  from tool_body_hit[OF e] assms show ?thesis by (auto simp: hit_world_simps)
qed

lemma retry_net_mono:
  "retry_attempts n d (tool_execute_body t rt kwargs) attempts s = (r, s') \<Longrightarrow>
     net_calls s \<le> net_calls s'"
proof (induction attempts arbitrary: s)
  case Nil
  then show ?case by simp
next
  case (Cons attempt attempts)
  obtain r1 s1 where b: "tool_execute_body t rt kwargs s = (r1, s1)"
    by (cases "tool_execute_body t rt kwargs s") auto
  from body_net_mono[OF b] have m: "net_calls s \<le> net_calls s1" .
  show ?case
  proof (cases r1)
    case (Inr a)
    with Cons.prems b m show ?thesis by simp
  next
    case (Inl e)
    show ?thesis
    proof (cases "attempt = n - 1")
      case True
      with Cons.prems b m Inl show ?thesis by simp
    next
      case False
      with Cons.prems b Inl
      have "retry_attempts n d (tool_execute_body t rt kwargs) attempts
              (time_sleep (d * (real attempt + 1)) s1) = (r, s')"
        by simp
      from Cons.IH[OF this] m show ?thesis by (simp add: time_sleep_def)
    qed
  qed
qed

text \<open>After a miss, a call that gets as far as the provider sends a request.\<close>

lemma tool_execute_miss_requests:
  assumes miss: "missed rt t (get_cache_key rt kwargs) s"
    and reach: "reaches_provider t kwargs"
    and run: "tool_execute t rt kwargs s = (r, s')"
  shows "net_calls s < net_calls s'"
proof -
  obtain r1 s1 where b: "tool_execute_body t rt kwargs s = (r1, s1)"
    by (cases "tool_execute_body t rt kwargs s") auto
  from tool_body_miss[OF miss b] reach have first: "net_calls s < net_calls s1"
    by (simp add: miss_outcome_def)
  have up: "[0..<3] = 0 # [1..<3]" by (simp add: upt_rec)
  show ?thesis
  proof (cases r1)
    case (Inr a)
    with run b up first show ?thesis
      by (simp add: tool_execute_unfold retry_on_failure_def)
  next
    case (Inl e)
    with run b up
    have "retry_attempts 3 1.0 (tool_execute_body t rt kwargs) [1..<3]
            (time_sleep (1.0 * (real 0 + 1)) s1) = (r, s')"
      by (simp add: tool_execute_unfold retry_on_failure_def)
    from retry_net_mono[OF this] first show ?thesis by (simp add: time_sleep_def)
  qed
qed

text \<open>
  Claim C4. Let a call of \<open>execute\<close>, in a world that satisfies the invariant of the
  caches, return a fallback result. Then the cache is unchanged, for the key of these
  parameters and for every other key, and no entry refers to the result. The call was a
  miss, so a later call with the same parameters, the entry under their key still being
  what it was and the clock not running backwards, misses again and sends a request to the
  provider: it does not return a cached fallback.
\<close>

theorem fallback_not_cached:
  assumes inv: "cache_inv s"
    and run: "tool_execute t rt kwargs s = (Inr (Some a), s')"
    and fb: "is_fallback (heap s' ! a)"
  shows "cache s' = cache s
     \<and> (\<forall>t' key b ts. cache s' t' key = Some (b, ts) \<longrightarrow> b \<noteq> a)
     \<and> (\<forall>s''. mono (clock rt) \<and> ticks s' \<le> ticks s''
            \<and> cache s'' t (get_cache_key rt kwargs) = cache s' t (get_cache_key rt kwargs)
          \<longrightarrow> net_calls s'' < net_calls (snd (tool_execute t rt kwargs s'')))"
proof -
  let ?key = "get_cache_key rt kwargs"
  from run have "retry_attempts 3 1.0 (tool_execute_body t rt kwargs) [0..<3] s
                   = (Inr (Some a), s')"
    by (simp add: tool_execute_unfold retry_on_failure_def)
  from retry_fallback[OF inv this fb]
  have f: "cache s' = cache s" "a = length (heap s)" "reaches_provider t kwargs"
    "cache s t ?key = None
       \<or> (\<exists>b ts k. cache s t ?key = Some (b, ts) \<and> k \<le> ticks s'
             \<and> \<not> clock rt k - ts < cache_ttl)"
    by simp_all
  have fresh: "\<forall>t' key b ts. cache s' t' key = Some (b, ts) \<longrightarrow> b \<noteq> a"
    using inv f(1,2) by (auto simp: cache_inv_def)
  have again: "net_calls s'' < net_calls (snd (tool_execute t rt kwargs s''))"
    if m: "mono (clock rt)" and later: "ticks s' \<le> ticks s''"
      and kept: "cache s'' t ?key = cache s' t ?key" for s''
  proof -
    have "missed rt t ?key s''"
    proof (cases "cache s t ?key")
      case None
      with kept f(1) show ?thesis by (simp add: missed_def)
    next
      case (Some entry)
      with f(4) obtain b ts k where e: "cache s t ?key = Some (b, ts)" "k \<le> ticks s'"
        "\<not> clock rt k - ts < cache_ttl" by auto
      from m e(2) later have "clock rt k \<le> clock rt (ticks s'')"
        by (auto simp: mono_def)
      with e(3) have "\<not> clock rt (ticks s'') - ts < cache_ttl" by simp
      with kept f(1) e(1) show ?thesis by (simp add: missed_def)
    qed
    from tool_execute_miss_requests[OF this f(3), of "fst (tool_execute t rt kwargs s'')"
        "snd (tool_execute t rt kwargs s'')"]
    show ?thesis by simp
  qed
  from f(1) fresh again show ?thesis by blast
qed


text \<open>The search with every request failing, twice: the second call sends a request too.\<close>

theorem fallback_not_cached_witness:
  "cache_inv init_world
   \<and> mono (clock offline_runtime)
   \<and> (\<exists>s'. tool_execute GitHubTool offline_runtime python_query init_world
              = (Inr (Some 0), s')
         \<and> is_fallback (heap s' ! 0)
         \<and> cache s' = cache init_world
         \<and> net_calls s' = 1
         \<and> net_calls s' < net_calls (snd (tool_execute GitHubTool offline_runtime
                                             python_query s')))"
proof -
  have m: "mono (clock offline_runtime)"
    by (simp add: mono_def offline_runtime_def default_runtime_def slow_clock_def)
  obtain r s' where run: "tool_execute GitHubTool offline_runtime python_query init_world
      = (r, s')"
    by (cases "tool_execute GitHubTool offline_runtime python_query init_world") auto
  then have r: "r = Inr (Some 0)" and fb: "is_fallback (heap s' ! 0)"
    and n: "net_calls s' = 1"
    by (auto simp: offline_defs python_query_def is_fallback_def slice_to_def mock_repos_def)
  from run r have run': "tool_execute GitHubTool offline_runtime python_query init_world
      = (Inr (Some 0), s')" by simp
  from fallback_not_cached[OF cache_inv_init run' fb]
  have "cache s' = cache init_world"
    and "mono (clock offline_runtime) \<and> ticks s' \<le> ticks s'
            \<and> cache s' GitHubTool (get_cache_key offline_runtime python_query)
                = cache s' GitHubTool (get_cache_key offline_runtime python_query)
          \<longrightarrow> net_calls s' < net_calls (snd (tool_execute GitHubTool offline_runtime
                                                  python_query s'))"
    by blast+
  with m run' fb n cache_inv_init show ?thesis by auto
qed

section \<open>Properties of the planner\<close>

subsection \<open>Every plan is well formed\<close>

lemma map_of_dict_set:
  "map_of (dict_set d k v) k' = (if k' = k then Some v else map_of d k')"
  by (simp add: dict_set_def update_conv')

lemma dict_get_dict_set:
  "dict_get (dict_set d k v) k' dflt = (if k' = k then v else dict_get d k' dflt)"
  by (simp add: dict_get_def map_of_dict_set)

lemma has_key_dict_set: "has_key (dict_set d k v) k' = (k' = k \<or> has_key d k')"
  by (simp add: has_key_def map_of_dict_set)

lemma set_default_in:
  "set_default params k v = Inr p \<Longrightarrow> py_in k p = Inr True"
  by (cases params)
     (auto simp: set_default_def has_key_dict_set split: sum.splits bool.splits if_splits)

lemma set_default_keeps:
  "set_default params k v = Inr p \<Longrightarrow> py_in k' params = Inr True \<Longrightarrow> py_in k' p = Inr True"
  by (cases params)
     (auto simp: set_default_def has_key_dict_set split: sum.splits bool.splits if_splits)

lemma fix_step_facts:
  "map_of (fix_step i d) ''step'' = Some (PInt (int i + 1))"
  "map_of (fix_step i d) ''tool'' = Some (PStr ''github_tool'')
      \<or> map_of (fix_step i d) ''tool'' = Some (PStr ''weather_tool'')"
  by (auto simp: fix_step_def Let_def map_of_dict_set dict_get_def split: option.splits)

lemma validate_step_valid:
  assumes "validate_step i step = Inr step'"
  shows "valid_step i step'"
proof -
  from assms obtain d where step: "step = PDict d"
    by (cases step) (simp_all add: validate_step_def)
  let ?d3 = "fix_step i d"
  let ?params = "dict_get ?d3 ''parameters'' PNone"
  note idx = fix_step_facts(1)[of i d] and tool = fix_step_facts(2)[of i d]
  show ?thesis
  proof (cases "dict_get ?d3 ''tool'' PNone = PStr ''github_tool''")
    case True
    then have t: "map_of ?d3 ''tool'' = Some (PStr ''github_tool'')"
      using tool by (auto simp: dict_get_def)
    from assms step True obtain p1 p2 where
      p: "set_default ?params ''query'' (PStr ''python'') = Inr p1"
         "set_default p1 ''per_page'' (PInt 5) = Inr p2"
         "step' = PDict (dict_set ?d3 ''parameters'' p2)"
      by (auto simp: validate_step_def Let_def split: sum.splits)
    from set_default_keeps[OF p(2) set_default_in[OF p(1)]]
    have "py_in ''query'' p2 = Inr True" .
    with p(3) idx t show ?thesis
      by (simp add: valid_step_def map_of_dict_set)
  next
    case False
    with tool have w: "dict_get ?d3 ''tool'' PNone = PStr ''weather_tool''"
      and t: "map_of ?d3 ''tool'' = Some (PStr ''weather_tool'')"
      by (auto simp: dict_get_def)
    from assms step False w obtain p1 where
      p: "set_default ?params ''city'' (PStr ''London'') = Inr p1"
         "step' = PDict (dict_set ?d3 ''parameters'' p1)"
      by (auto simp: validate_step_def Let_def split: sum.splits)
    from set_default_in[OF p(1)] p(2) idx t show ?thesis
      by (simp add: valid_step_def map_of_dict_set)
  qed
qed

lemma validate_steps_valid:
  "validate_steps i steps = Inr steps' \<Longrightarrow> valid_steps i steps'"
proof (induction steps arbitrary: i steps')
  case Nil
  then show ?case by auto
next
  case (Cons step steps)
  from Cons.prems obtain x xs where x: "validate_step i step = Inr x"
    and xs: "validate_steps (Suc i) steps = Inr xs" and eq: "steps' = x # xs"
    by (auto split: sum.splits)
  from validate_step_valid[OF x] Cons.IH[OF xs] eq show ?case by simp
qed

lemma validate_plan_valid:
  assumes "validate_plan plan0 = Inr plan'"
  shows "valid_plan plan'"
proof -
  let ?plan = "if \<not> has_key plan0 ''plan'' then [(''plan'', PList [])] else plan0"
  have hk: "has_key ?plan ''plan''" by (simp add: has_key_def)
  show ?thesis
  proof (cases "\<exists>steps. dict_get ?plan ''plan'' PNone = PList steps")
    case True
    then obtain steps where s: "dict_get ?plan ''plan'' PNone = PList steps" by blast
    with assms obtain steps' where v: "validate_steps 0 steps = Inr steps'"
      and p: "plan' = dict_set ?plan ''plan'' (PList steps')"
      by (auto simp: validate_plan_def Let_def split: sum.splits)
    from validate_steps_valid[OF v] p show ?thesis
      by (simp add: valid_plan_def dict_get_dict_set)
  next
    case False
    with assms have it: "py_iter (dict_get ?plan ''plan'' PNone) = Inr []"
      and p: "plan' = ?plan"
      by (auto simp: validate_plan_def Let_def split: sum.splits pyval.splits list.splits)
    from hk have "dict_get ?plan ''plan'' (PList []) = dict_get ?plan ''plan'' PNone"
      by (auto simp: has_key_def dict_get_def split: option.splits)
    with it p show ?thesis by (simp add: valid_plan_def)
  qed
qed

lemma create_fallback_plan_valid: "valid_plan (create_fallback_plan user_input)"
  by (simp add: valid_plan_def create_fallback_plan_def dict_get_def valid_step_def has_key_def)

lemma create_plan_valid: "valid_plan (create_plan use_ollama ollama re_search user_input)"
  by (auto simp: create_plan_def validate_plan_valid create_fallback_plan_valid
      split: sum.splits)


subsection \<open>Plans made by the rules\<close>

lemma validate_step_rule_based:
  "validate_step 0 (github_step 1 query) = Inr (github_step 1 query)"
  "validate_step 0 (weather_step 1 city) = Inr (weather_step 1 city)"
  "validate_step (Suc 0) (weather_step 2 city) = Inr (weather_step 2 city)"
  "validate_step 0 default_step = Inr default_step"
  by (simp_all add: validate_step_def fix_step_def github_step_def weather_step_def
      default_step_def Let_def dict_set_def dict_get_def has_key_def set_default_def)

text \<open>The steps of the plan that the rules make, by the keyword sets that the text matches.\<close>

lemma generate_rule_based_steps:
  "generate_rule_based re_search text =
    (if matches_github text \<and> matches_weather text then
       [(''plan'', PList [github_step 1 (extract_query_from_text text),
                          weather_step 2 (extract_city_from_text re_search text)]),
        (''reasoning'', PStr (''User wants to search for '' @ extract_query_from_text text
           @ '' repositories. '' @ ''User wants weather information for ''
           @ extract_city_from_text re_search text @ ''. ''))]
     else if matches_github text then
       [(''plan'', PList [github_step 1 (extract_query_from_text text)]),
        (''reasoning'', PStr (''User wants to search for '' @ extract_query_from_text text
           @ '' repositories. ''))]
     else if matches_weather text then
       [(''plan'', PList [weather_step 1 (extract_city_from_text re_search text)]),
        (''reasoning'', PStr (''User wants weather information for ''
           @ extract_city_from_text re_search text @ ''. ''))]
     else
       [(''plan'', PList [default_step]),
        (''reasoning'',
           PStr ''No specific task mentioned. Providing GitHub search as example.'')])"
  by (simp add: generate_rule_based_def matches_github_def matches_weather_def Let_def)

lemma validate_plan_rule_based:
  "validate_plan (generate_rule_based re_search text) = Inr (generate_rule_based re_search text)"
  by (simp add: generate_rule_based_steps validate_plan_def validate_step_rule_based has_key_def
      dict_get_def dict_set_def Let_def)

lemma create_plan_rule_based:
  assumes "\<not> use_ollama \<or> ollama text = None"
  shows "create_plan use_ollama ollama re_search text = generate_rule_based re_search text"
proof -
  from assms have "generate_plan use_ollama ollama re_search text
      = generate_rule_based re_search text"
    by (auto simp: generate_plan_def generate_with_ollama_def)
  moreover have "\<exists>n. py_len (dict_get (generate_rule_based re_search text) ''plan'' (PList []))
      = Inr n"
    by (simp add: generate_rule_based_steps dict_get_def)
  ultimately show ?thesis
    by (auto simp: create_plan_def validate_plan_rule_based)
qed

lemma rule_based_mapping_params:
  "\<exists>steps. dict_get (generate_rule_based re_search text) ''plan'' PNone = PList steps
      \<and> steps \<noteq> [] \<and> list_all mapping_params steps"
  by (simp add: generate_rule_based_steps dict_get_def mapping_params_def github_step_def
      weather_step_def default_step_def)

text \<open>
  Claim C5, as amended. For every input text, whether or not a language model is used and
  whatever it replies, \<open>create_plan\<close> returns a plan (every exception ends in the fallback
  plan) that is well formed: every step is a dictionary with index 1, 2, ... in order, with
  one of the two registered tools and with the parameter that the tool requires. When the
  rules make the plan (no model installed, or no usable reply), the plan has at least one
  step, the parameters of every step are a dictionary, and a text that matches no keyword
  set gets exactly the default step. A plan replied by the model is only normalised: it
  gets no default step.
\<close>

theorem create_plan_well_formed:
  "valid_plan (create_plan use_ollama ollama re_search text)
   \<and> (\<not> use_ollama \<or> ollama text = None \<longrightarrow>
        (\<exists>steps. dict_get (create_plan use_ollama ollama re_search text) ''plan'' PNone
                    = PList steps
           \<and> steps \<noteq> [] \<and> list_all mapping_params steps)
        \<and> (\<not> matches_github text \<and> \<not> matches_weather text \<longrightarrow>
             dict_get (create_plan use_ollama ollama re_search text) ''plan'' PNone
               = PList [default_step]))"
proof (intro conjI impI)
  show "valid_plan (create_plan use_ollama ollama re_search text)"
    by (rule create_plan_valid)
next
  assume "\<not> use_ollama \<or> ollama text = None"
  then have eq: "create_plan use_ollama ollama re_search text
      = generate_rule_based re_search text"
    by (rule create_plan_rule_based)
  show "\<exists>steps. dict_get (create_plan use_ollama ollama re_search text) ''plan'' PNone
                    = PList steps
           \<and> steps \<noteq> [] \<and> list_all mapping_params steps"
    unfolding eq by (rule rule_based_mapping_params)
  assume "\<not> matches_github text \<and> \<not> matches_weather text"
  then show "dict_get (create_plan use_ollama ollama re_search text) ''plan'' PNone
               = PList [default_step]"
    unfolding eq by (simp add: generate_rule_based_steps dict_get_def)
qed

lemma hello_no_signal: "\<not> matches_github ''hello''" "\<not> matches_weather ''hello''"
  by (simp_all add: matches_github_def matches_weather_def github_keywords_def
      weather_keywords_def lower_def lower_char_def ascii_upper_def ascii_lower_def)

text \<open>A text without keywords, planned by the rules and planned from a model's reply.\<close>

theorem create_plan_well_formed_witness:
  "\<not> matches_github ''hello'' \<and> \<not> matches_weather ''hello''
   \<and> valid_plan (create_plan False no_reply no_match ''hello'')
   \<and> valid_plan (create_plan True empty_reply no_match ''hello'')
   \<and> dict_get (create_plan False no_reply no_match ''hello'') ''plan'' PNone
        = PList [default_step]
   \<and> dict_get (create_plan True no_reply no_match ''hello'') ''plan'' PNone
        = PList [default_step]
   \<and> list_all mapping_params [default_step]"
proof -
  have a: "\<not> matches_github ''hello'' \<and> \<not> matches_weather ''hello''"
    by (simp add: hello_no_signal)
  have b: "no_reply ''hello'' = None" by (simp add: no_reply_def)
  from create_plan_well_formed[of False no_reply no_match "''hello''"] a
  have c: "valid_plan (create_plan False no_reply no_match ''hello'')"
    "dict_get (create_plan False no_reply no_match ''hello'') ''plan'' PNone
        = PList [default_step]"
    by simp_all
  from create_plan_well_formed[of True no_reply no_match "''hello''"] a b
  have d: "dict_get (create_plan True no_reply no_match ''hello'') ''plan'' PNone
        = PList [default_step]"
    by simp
  from create_plan_well_formed[of True empty_reply no_match "''hello''"]
  have e: "valid_plan (create_plan True empty_reply no_match ''hello'')" by simp
  have f: "list_all mapping_params [default_step]"
    by (simp add: mapping_params_def default_step_def)
  from a c d e f show ?thesis by simp
qed

text \<open>
  Claim C5 as stated fails: with a model installed that replies a plan without steps, the
  text \<open>hello\<close>, which matches no keyword set, gets a plan without steps, not the default
  step.
\<close>

theorem default_step_counterexample:
  "\<not> matches_github ''hello'' \<and> \<not> matches_weather ''hello''
   \<and> dict_get (create_plan True empty_reply no_match ''hello'') ''plan'' PNone = PList []
   \<and> PList [] \<noteq> PList [default_step]"
  by (simp add: hello_no_signal create_plan_def generate_plan_def generate_with_ollama_def
      USE_FREE_LLM_def empty_reply_def validate_plan_def has_key_def dict_get_def dict_set_def)

subsection \<open>The order of the steps\<close>

text \<open>
  Claim C9. For every input text that matches the keyword sets of both tools, the rules
  make exactly two steps: the search step with index 1, then the weather step with index
  2, wherever the keywords stand in the text. \<open>create_plan\<close> returns these two steps
  whenever the rules make the plan.
\<close>

theorem both_keyword_sets_two_steps:
  assumes "matches_github text" and "matches_weather text"
  shows "dict_get (generate_rule_based re_search text) ''plan'' PNone
           = PList [github_step 1 (extract_query_from_text text),
                    weather_step 2 (extract_city_from_text re_search text)]
     \<and> (\<not> use_ollama \<or> ollama text = None \<longrightarrow>
          dict_get (create_plan use_ollama ollama re_search text) ''plan'' PNone
            = PList [github_step 1 (extract_query_from_text text),
                     weather_step 2 (extract_city_from_text re_search text)])"
  using assms
  by (auto simp: create_plan_rule_based generate_rule_based_steps dict_get_def)

text \<open>The definitions that the extraction from a concrete text unfolds.\<close>

lemmas text_defs = matches_github_def matches_weather_def github_keywords_def
  weather_keywords_def lower_def lower_char_def ascii_upper_def ascii_lower_def
  extract_query_from_text_def extract_city_from_text_def languages_def topics_def cities_def
  title_def upper_char_def is_alpha_def Let_def

text \<open>A text that names the weather first and one that names the search first.\<close>

theorem both_keyword_sets_two_steps_witness:
  "matches_github ''weather in Tokyo and repositories''
   \<and> matches_weather ''weather in Tokyo and repositories''
   \<and> dict_get (create_plan False no_reply no_match ''weather in Tokyo and repositories'')
        ''plan'' PNone
       = PList [github_step 1 ''open source'', weather_step 2 ''Tokyo'']
   \<and> dict_get (create_plan False no_reply no_match ''search code, then temperature'')
        ''plan'' PNone
       = PList [github_step 1 ''ai'', weather_step 2 ''London'']"
proof -
  have a: "matches_github ''weather in Tokyo and repositories''"
    "matches_weather ''weather in Tokyo and repositories''"
    by (simp_all add: text_defs)
  have b: "matches_github ''search code, then temperature''"
    "matches_weather ''search code, then temperature''"
    by (simp_all add: text_defs)
  have q: "extract_query_from_text ''weather in Tokyo and repositories'' = ''open source''"
    "extract_city_from_text no_match ''weather in Tokyo and repositories'' = ''Tokyo''"
    "extract_query_from_text ''search code, then temperature'' = ''ai''"
    "extract_city_from_text no_match ''search code, then temperature'' = ''London''"
    by (simp_all add: text_defs no_match_def city_patterns_def)
  from both_keyword_sets_two_steps[OF a, of no_match False no_reply]
    both_keyword_sets_two_steps[OF b, of no_match False no_reply] a q
  show ?thesis by simp
qed

end
